(* ===== verification/Prelude.thy ===== *)
theory Prelude
  imports Main "HOL-Library.Word"
begin

text \<open>
  The vocabulary every component shares: the Rust text operations the sources call, written
  over Isabelle's \<open>string\<close>, decimal numbers, and the error and result types.

  A Rust \<open>String\<close> is a sequence of Unicode scalar values. Here it is a \<open>string\<close>,
  whose characters are read as the code points U+0000 to U+00FF (ASCII and Latin-1); the
  character classes below (\<open>is_alphanumeric\<close>, \<open>is_whitespace\<close>, \<open>is_control\<close>) are Rust's
  on that range. Every scanner of the program compares characters with ASCII ones only, so
  byte offsets and character offsets cut a text at the same places.
\<close>

section \<open>Shared automation\<close>

named_theorems text_simps \<open>rewrite rules for the Rust text operations\<close>

section \<open>Characters\<close>

abbreviation code_of :: "char \<Rightarrow> nat" where
  "code_of c \<equiv> of_char c"

abbreviation squote :: char where "squote \<equiv> CHR 0x27"
abbreviation dquote :: char where "dquote \<equiv> CHR 0x22"
abbreviation backtick :: char where "backtick \<equiv> CHR 0x60"
abbreviation newline :: char where "newline \<equiv> CHR 0x0A"
abbreviation nul :: char where "nul \<equiv> CHR 0x00"

definition is_ascii_digit :: "char \<Rightarrow> bool" where
  "is_ascii_digit c \<longleftrightarrow> 48 \<le> code_of c \<and> code_of c \<le> (57::nat)"

definition is_alphanumeric :: "char \<Rightarrow> bool" where
  "is_alphanumeric c \<longleftrightarrow>
     (let n = (code_of c :: nat) in
      (48 \<le> n \<and> n \<le> 57) \<or> (65 \<le> n \<and> n \<le> 90) \<or> (97 \<le> n \<and> n \<le> 122) \<or>
      n \<in> {0xAA, 0xB2, 0xB3, 0xB5, 0xB9, 0xBA, 0xBC, 0xBD, 0xBE} \<or>
      (0xC0 \<le> n \<and> n \<noteq> 0xD7 \<and> n \<noteq> 0xF7))"

definition is_whitespace :: "char \<Rightarrow> bool" where
  "is_whitespace c \<longleftrightarrow>
     (let n = (code_of c :: nat) in (9 \<le> n \<and> n \<le> 13) \<or> n \<in> {0x20, 0x85, 0xA0})"

definition is_control :: "char \<Rightarrow> bool" where
  "is_control c \<longleftrightarrow> (let n = (code_of c :: nat) in n < 0x20 \<or> (0x7F \<le> n \<and> n < 0xA0))"

definition ascii_upper :: "char \<Rightarrow> char" where
  "ascii_upper c =
     (if 97 \<le> (code_of c :: nat) \<and> (code_of c :: nat) \<le> 122 then char_of (code_of c - 32 :: nat) else c)"

definition ascii_lower :: "char \<Rightarrow> char" where
  "ascii_lower c =
     (if 65 \<le> (code_of c :: nat) \<and> (code_of c :: nat) \<le> 90 then char_of (code_of c + 32 :: nat) else c)"

definition to_ascii_uppercase :: "string \<Rightarrow> string" where
  "to_ascii_uppercase s = map ascii_upper s"

definition to_ascii_lowercase :: "string \<Rightarrow> string" where
  "to_ascii_lowercase s = map ascii_lower s"

lemma ascii_upper_idem [simp]: "ascii_upper (ascii_upper c) = ascii_upper c"
  by (auto simp: ascii_upper_def)

lemma ascii_lower_idem [simp]: "ascii_lower (ascii_lower c) = ascii_lower c"
  by (auto simp: ascii_lower_def)

lemma to_ascii_uppercase_idem [simp]:
  "to_ascii_uppercase (to_ascii_uppercase s) = to_ascii_uppercase s"
  by (simp add: to_ascii_uppercase_def comp_def)

lemma to_ascii_lowercase_idem [simp]:
  "to_ascii_lowercase (to_ascii_lowercase s) = to_ascii_lowercase s"
  by (simp add: to_ascii_lowercase_def comp_def)

lemma length_to_ascii [simp]:
  "length (to_ascii_uppercase s) = length s"
  "length (to_ascii_lowercase s) = length s"
  by (simp_all add: to_ascii_uppercase_def to_ascii_lowercase_def)

text \<open>The class of word characters, \<open>c.is_alphanumeric() || c == '_'\<close>, used by three scanners.\<close>

definition is_word_char :: "char \<Rightarrow> bool" where
  "is_word_char c \<longleftrightarrow> is_alphanumeric c \<or> c = CHR ''_''"

lemma quotes_not_word [simp]:
  "\<not> is_alphanumeric squote" "\<not> is_alphanumeric dquote" "\<not> is_alphanumeric backtick"
  "\<not> is_alphanumeric CHR ''$''" "\<not> is_alphanumeric nul"
  by (simp_all add: is_alphanumeric_def)

lemma digit_not_quote:
  assumes "is_ascii_digit c"
  shows "c \<noteq> squote" "c \<noteq> dquote" "c \<noteq> backtick" "c \<noteq> CHR ''$''" "c \<noteq> CHR ''?''"
  using assms by (auto simp: is_ascii_digit_def)

lemma digit_alphanumeric: "is_ascii_digit c \<Longrightarrow> is_alphanumeric c"
  by (auto simp: is_ascii_digit_def is_alphanumeric_def Let_def)

section \<open>Strings\<close>

text \<open>\<open>s.starts_with(p)\<close>, \<open>s.find(p)\<close>, \<open>s.rfind(p)\<close>, \<open>s.contains(p)\<close>, for a string pattern.\<close>

definition starts_with :: "string \<Rightarrow> string \<Rightarrow> bool" where
  "starts_with p s \<longleftrightarrow> take (length p) s = p"

fun find_sub :: "string \<Rightarrow> string \<Rightarrow> nat option" where
  "find_sub p [] = (if p = [] then Some 0 else None)"
| "find_sub p (c # cs) =
     (if starts_with p (c # cs) then Some 0 else map_option Suc (find_sub p cs))"

fun rfind_sub :: "string \<Rightarrow> string \<Rightarrow> nat option" where
  "rfind_sub p [] = (if p = [] then Some 0 else None)"
| "rfind_sub p (c # cs) =
     (case rfind_sub p cs of
        Some i \<Rightarrow> Some (Suc i)
      | None \<Rightarrow> if starts_with p (c # cs) then Some 0 else None)"

definition contains_sub :: "string \<Rightarrow> string \<Rightarrow> bool" where
  "contains_sub p s \<longleftrightarrow> find_sub p s \<noteq> None"

lemma starts_with_iff: "starts_with p s \<longleftrightarrow> (\<exists>r. s = p @ r)"
  unfolding starts_with_def by (metis append_eq_conv_conj append_take_drop_id)

lemma find_sub_Some:
  "find_sub p s = Some i \<Longrightarrow> starts_with p (drop i s) \<and> i + length p \<le> length s"
proof (induction s arbitrary: i)
  case Nil
  then show ?case by (simp add: starts_with_def split: if_splits)
next
  case (Cons c cs)
  show ?case
  proof (cases "starts_with p (c # cs)")
    case True
    moreover from this have "length p \<le> length (c # cs)"
      by (metis append_take_drop_id length_append le_add1 starts_with_def)
    ultimately show ?thesis using Cons.prems by simp
  next
    case False
    with Cons.prems obtain j where j: "find_sub p cs = Some j" "i = Suc j"
      by auto
    with Cons.IH [OF j(1)] show ?thesis by simp
  qed
qed

lemma find_sub_append: "find_sub p (a @ p @ b) \<noteq> None"
proof (induction a)
  case Nil
  have "starts_with p (p @ b)" by (auto simp: starts_with_iff)
  then show ?case by (cases "p @ b") auto
next
  case (Cons c cs)
  then show ?case by simp
qed

lemma contains_sub_iff: "contains_sub p s \<longleftrightarrow> (\<exists>a b. s = a @ p @ b)"
proof
  assume "contains_sub p s"
  then obtain i where "find_sub p s = Some i" by (auto simp: contains_sub_def)
  then have "starts_with p (drop i s)" by (simp add: find_sub_Some)
  then obtain b where "drop i s = p @ b" by (auto simp: starts_with_iff)
  then have "s = take i s @ p @ b" by (metis append_take_drop_id)
  then show "\<exists>a b. s = a @ p @ b" by blast
next
  assume "\<exists>a b. s = a @ p @ b"
  then obtain a b where "s = a @ p @ b" by blast
  with find_sub_append [of p a b] show "contains_sub p s" by (simp add: contains_sub_def)
qed

text \<open>\<open>s.split(c)\<close> for a character: never the empty list.\<close>

fun split_on :: "char \<Rightarrow> string \<Rightarrow> string list" where
  "split_on c [] = [[]]"
| "split_on c (d # ds) =
     (if d = c then [] # split_on c ds
      else (case split_on c ds of [] \<Rightarrow> [[d]] | w # ws \<Rightarrow> (d # w) # ws))"

lemma split_on_not_Nil [simp]: "split_on c s \<noteq> []"
  by (induction s) (auto split: list.split)

lemma hd_split_on [text_simps]: "hd (split_on c s) = takeWhile (\<lambda>d. d \<noteq> c) s"
  by (induction s) (auto split: list.split)

lemma split_on_no_sep: "w \<in> set (split_on c s) \<Longrightarrow> c \<notin> set w"
  by (induction s arbitrary: w) (auto split: list.splits if_splits)

lemma set_split_on: "w \<in> set (split_on c s) \<Longrightarrow> set w \<subseteq> set s"
proof (induction s arbitrary: w)
  case Nil
  then show ?case by simp
next
  case (Cons d ds)
  then show ?case
    by (cases "split_on c ds") (fastforce split: if_splits)+
qed

lemma split_on_id [text_simps]: "c \<notin> set s \<Longrightarrow> split_on c s = [s]"
  by (induction s) auto

text \<open>\<open>trim_start_matches\<close>, \<open>trim_end_matches\<close>, \<open>trim_matches\<close> for a character class; \<open>trim\<close>.\<close>

definition trim_start :: "(char \<Rightarrow> bool) \<Rightarrow> string \<Rightarrow> string" where
  "trim_start p s = dropWhile p s"

definition trim_end :: "(char \<Rightarrow> bool) \<Rightarrow> string \<Rightarrow> string" where
  "trim_end p s = rev (dropWhile p (rev s))"

definition trim_matches :: "(char \<Rightarrow> bool) \<Rightarrow> string \<Rightarrow> string" where
  "trim_matches p s = trim_end p (trim_start p s)"

abbreviation trim :: "string \<Rightarrow> string" where
  "trim s \<equiv> trim_matches is_whitespace s"

lemma set_trim_start: "set (trim_start p s) \<subseteq> set s"
  by (auto simp: trim_start_def dest: set_dropWhileD)

lemma set_trim_end: "set (trim_end p s) \<subseteq> set s"
  by (auto simp: trim_end_def dest: set_dropWhileD)

lemma set_trim_matches: "set (trim_matches p s) \<subseteq> set s"
  unfolding trim_matches_def using set_trim_end set_trim_start by blast

lemma trim_matches_id [text_simps]: "(\<And>c. c \<in> set s \<Longrightarrow> \<not> p c) \<Longrightarrow> trim_matches p s = s"
proof -
  assume a: "\<And>c. c \<in> set s \<Longrightarrow> \<not> p c"
  then have "trim_start p s = s" unfolding trim_start_def by (cases s) auto
  moreover from a have "trim_end p s = s" unfolding trim_end_def by (cases s rule: rev_cases) auto
  ultimately show ?thesis by (simp add: trim_matches_def)
qed

text \<open>\<open>s.replace(c, "cc")\<close>: the doubling that escapes a quote.\<close>

fun double_char :: "char \<Rightarrow> string \<Rightarrow> string" where
  "double_char q [] = []"
| "double_char q (c # cs) = (if c = q then q # q # double_char q cs else c # double_char q cs)"

lemma double_char_id [text_simps]: "q \<notin> set s \<Longrightarrow> double_char q s = s"
  by (induction s) auto

lemma double_char_append [simp]: "double_char q (s @ t) = double_char q s @ double_char q t"
  by (induction s) auto

lemma set_double_char [simp]: "set (double_char q s) = set s"
  by (induction s) auto

lemma double_char_inj: "double_char q s = double_char q t \<Longrightarrow> s = t"
proof (induction s arbitrary: t)
  case Nil
  then show ?case by (cases t) (auto split: if_splits)
next
  case (Cons c cs)
  then show ?case by (cases t) (auto split: if_splits)
qed

lemma length_double_char: "length s \<le> length (double_char q s)"
  by (induction s) auto

lemma double_char_eq_iff: "double_char q s = s \<longleftrightarrow> q \<notin> set s"
proof
  assume eq: "double_char q s = s"
  show "q \<notin> set s"
  proof
    assume "q \<in> set s"
    then obtain a b where s: "s = a @ q # b" by (auto simp: in_set_conv_decomp)
    have "length (double_char q s) > length s"
      using length_double_char [of a q] length_double_char [of b q] by (simp add: s)
    with eq show False by simp
  qed
qed (simp add: double_char_id)

text \<open>\<open>[..].join(sep)\<close>.\<close>

fun join :: "string \<Rightarrow> string list \<Rightarrow> string" where
  "join sep [] = []"
| "join sep [w] = w"
| "join sep (w # ws) = w @ sep @ join sep ws"

text \<open>\<open>if s.chars().count() > n { format!("{}...", first n) } else { s }\<close>: the snippet of an error message.\<close>

definition shorten :: "nat \<Rightarrow> string \<Rightarrow> string" where
  "shorten n s = (if length s > n then take n s @ ''...'' else s)"

lemma length_shorten: "length (shorten n s) \<le> n + 3"
  by (simp add: shorten_def)

section \<open>Decimal numbers\<close>

definition digit_char :: "nat \<Rightarrow> char" where
  "digit_char d = char_of (48 + d)"

fun show_nat :: "nat \<Rightarrow> string" where
  "show_nat n = (if n < 10 then [digit_char n] else show_nat (n div 10) @ [digit_char (n mod 10)])"

declare show_nat.simps [simp del]

definition show_int :: "int \<Rightarrow> string" where
  "show_int i = (if i < 0 then CHR ''-'' # show_nat (nat (- i)) else show_nat (nat i))"

definition digit_val :: "char \<Rightarrow> nat" where
  "digit_val c = code_of c - 48"

definition digits_val :: "string \<Rightarrow> nat" where
  "digits_val s = foldl (\<lambda>a c. 10 * a + digit_val c) 0 s"

text \<open>
  \<open>s.parse::<usize>()\<close> on a 64-bit target: an optional plus sign, at least one digit, and a value
  below \<open>2 ^ 64\<close>; anything else is the error, here \<open>None\<close>.
\<close>

definition parse_usize :: "string \<Rightarrow> nat option" where
  "parse_usize s =
     (let ds = (if s \<noteq> [] \<and> hd s = CHR ''+'' \<and> tl s \<noteq> [] then tl s else s) in
      if ds \<noteq> [] \<and> (\<forall>c \<in> set ds. is_ascii_digit c) \<and> digits_val ds < 2 ^ 64
      then Some (digits_val ds) else None)"

lemma digit_val_digit_char [simp]: "d < 10 \<Longrightarrow> digit_val (digit_char d) = d"
  by (simp add: digit_val_def digit_char_def of_char_of)

lemma is_ascii_digit_digit_char [simp]: "d < 10 \<Longrightarrow> is_ascii_digit (digit_char d)"
  by (simp add: is_ascii_digit_def digit_char_def of_char_of)

lemma digits_val_snoc: "digits_val (s @ [c]) = 10 * digits_val s + digit_val c"
  by (simp add: digits_val_def)

lemma show_nat_not_Nil [simp]: "show_nat n \<noteq> []"
  by (subst show_nat.simps) simp

lemma show_nat_digits: "c \<in> set (show_nat n) \<Longrightarrow> is_ascii_digit c"
proof (induction n rule: show_nat.induct)
  case (1 n)
  then show ?case
    by (cases "n < 10") (auto simp: show_nat.simps [of n])
qed

lemma digits_val_show_nat [simp]: "digits_val (show_nat n) = n"
proof (induction n rule: show_nat.induct)
  case (1 n)
  then show ?case
    by (cases "n < 10")
      (auto simp: show_nat.simps [of n] digits_val_snoc, simp add: digits_val_def)
qed

lemma parse_usize_show_nat: "n < 2 ^ 64 \<Longrightarrow> parse_usize (show_nat n) = Some n"
proof -
  assume n: "n < 2 ^ 64"
  have "hd (show_nat n) \<in> set (show_nat n)" by simp
  then have "is_ascii_digit (hd (show_nat n))" by (rule show_nat_digits)
  then have "hd (show_nat n) \<noteq> CHR ''+''" by (auto simp: is_ascii_digit_def)
  with n show ?thesis by (auto simp: parse_usize_def Let_def show_nat_digits)
qed

lemma parse_usize_bound: "parse_usize s = Some n \<Longrightarrow> n < 2 ^ 64"
  by (auto simp: parse_usize_def Let_def split: if_splits)

section \<open>Errors and results\<close>

text \<open>
  \<open>Error\<close> of \<open>error.rs\<close>, its constructors and payloads; an \<open>io::Error\<close> is carried as the text
  it displays.
\<close>

datatype error =
    Config string
  | Parse string
  | Translate string
  | Backend string
  | Unsupported string
  | Io string
  | Server string

fun display_error :: "error \<Rightarrow> string" where
  "display_error (Config m) = ''config error: '' @ m"
| "display_error (Parse m) = ''sql parse error: '' @ m"
| "display_error (Translate m) = ''translation error: '' @ m"
| "display_error (Backend m) = ''backend error: '' @ m"
| "display_error (Unsupported m) = ''unsupported feature: '' @ m"
| "display_error (Io m) = ''io error: '' @ m"
| "display_error (Server m) = ''server error: '' @ m"

text \<open>
  The ways a Rust function fails to return its value: an \<open>Err\<close> the caller can handle, or a panic
  (an index or slice out of range, an overflow where overflow is checked, an \<open>expect\<close>).
\<close>

datatype fault = Err error | Panic

type_synonym 'a res = "fault + 'a"

definition map_res :: "('a \<Rightarrow> 'b) \<Rightarrow> 'a res \<Rightarrow> 'b res" where
  "map_res f r = (case r of Inl e \<Rightarrow> Inl e | Inr a \<Rightarrow> Inr (f a))"

lemma map_res_simps [simp]:
  "map_res f (Inl e) = Inl e" "map_res f (Inr a) = Inr (f a)"
  by (simp_all add: map_res_def)

lemma map_res_eq_Inr [simp]: "map_res f r = Inr b \<longleftrightarrow> (\<exists>a. r = Inr a \<and> b = f a)"
  by (cases r) auto

lemma map_res_eq_Inl [simp]: "map_res f r = Inl e \<longleftrightarrow> r = Inl e"
  by (cases r) auto

text \<open>The question-mark operator: the first failure wins.\<close>

definition bind_res :: "'a res \<Rightarrow> ('a \<Rightarrow> 'b res) \<Rightarrow> 'b res" where
  "bind_res r f = (case r of Inl e \<Rightarrow> Inl e | Inr a \<Rightarrow> f a)"

lemma bind_res_simps [simp]:
  "bind_res (Inl e) f = Inl e" "bind_res (Inr a) f = f a"
  by (simp_all add: bind_res_def)

lemma bind_res_eq_Inr: "bind_res r f = Inr b \<longleftrightarrow> (\<exists>a. r = Inr a \<and> f a = Inr b)"
  by (cases r) auto

lemma bind_res_eq_Inl: "bind_res r f = Inl e \<longleftrightarrow> r = Inl e \<or> (\<exists>a. r = Inr a \<and> f a = Inl e)"
  by (cases r) auto

text \<open>
  \<open>vec![x; n]\<close> for elements of so many bytes: it panics when the vector would be larger than
  \<open>isize::MAX\<close> bytes.
\<close>

definition vec_repeat :: "nat \<Rightarrow> 'a \<Rightarrow> nat \<Rightarrow> 'a list res" where
  "vec_repeat bytes x n = (if bytes * n < 2 ^ 63 then Inr (replicate n x) else Inl Panic)"

lemma bind_res_cong [fundef_cong]:
  "r = r' \<Longrightarrow> (\<And>a. r' = Inr a \<Longrightarrow> f a = g a) \<Longrightarrow> bind_res r f = bind_res r' g"
  by (cases r') auto

text \<open>A loop that pushes one fallible result per element, leaving at the first failure.\<close>

fun try_map :: "('a \<Rightarrow> 'b res) \<Rightarrow> 'a list \<Rightarrow> 'b list res" where
  "try_map f [] = Inr []"
| "try_map f (x # xs) = bind_res (f x) (\<lambda>y. map_res ((#) y) (try_map f xs))"

lemma try_map_Inr: "try_map f xs = Inr ys \<longleftrightarrow> list_all2 (\<lambda>x y. f x = Inr y) xs ys"
  by (induction xs arbitrary: ys) (auto simp: bind_res_eq_Inr list_all2_Cons1)

lemma try_map_Inl: "try_map f xs = Inl e \<Longrightarrow> \<exists>x \<in> set xs. f x = Inl e"
  by (induction xs) (auto simp: bind_res_eq_Inl)

lemma try_map_total: "\<forall>x \<in> set xs. f x = Inr (g x) \<Longrightarrow> try_map f xs = Inr (map g xs)"
  by (induction xs) auto

lemma map_res_comp: "map_res f (map_res g r) = map_res (f \<circ> g) r"
  by (cases r) auto

section \<open>Rewrites as normalisers\<close>

text \<open>
  Most rewrites of the translation layer have one contract: the result is in a normal form (what the
  target accepts), and what is already in normal form is left alone. The rest follows from these
  two laws.
\<close>

locale normaliser =
  fixes norm :: "'a \<Rightarrow> 'a" and ok :: "'a \<Rightarrow> bool"
  assumes ok_norm: "ok (norm x)"
    and norm_id: "ok x \<Longrightarrow> norm x = x"
begin

lemma norm_idem: "norm (norm x) = norm x"
  by (rule norm_id) (rule ok_norm)

lemma norm_fixed_iff: "norm x = x \<longleftrightarrow> ok x"
  using ok_norm [of x] norm_id [of x] by auto

lemma ok_iff_range: "ok x \<longleftrightarrow> x \<in> range norm"
  by (metis ok_norm norm_id rangeI imageE)

lemma list_all_norm: "list_all ok (map norm xs)"
  by (induction xs) (simp_all add: ok_norm)

lemma map_norm_id: "list_all ok xs \<Longrightarrow> map norm xs = xs"
  by (induction xs) (simp_all add: norm_id)

end

end
