(* ===== verification/Dialect.thy ===== *)
theory Dialect
  imports Prelude
begin

text \<open>
  The dialect half of \<open>src/translate/mod.rs\<close>: \<open>FrontDialect\<close>, \<open>TargetDialect\<close>, the URL that
  selects a target, and the test that decides whether anything is translated at all.
\<close>

section \<open>The two dialect types\<close>

datatype front_dialect = FrontPostgres | FrontMysql

datatype target_dialect = Postgres | Mysql | Sqlite

fun display_front :: "front_dialect \<Rightarrow> string" where
  "display_front FrontPostgres = ''postgres''"
| "display_front FrontMysql = ''mysql''"

fun display_target :: "target_dialect \<Rightarrow> string" where
  "display_target Postgres = ''postgres''"
| "display_target Mysql = ''mysql''"
| "display_target Sqlite = ''sqlite''"

definition from_backend_url :: "string \<Rightarrow> target_dialect res" where
  "from_backend_url url =
     (let scheme = hd (split_on CHR '':'' url) in
      if scheme = ''postgres'' \<or> scheme = ''postgresql'' then Inr Postgres
      else if scheme = ''mysql'' \<or> scheme = ''mariadb'' then Inr Mysql
      else if scheme = ''sqlite'' then Inr Sqlite
      else Inl (Err (Config (''unsupported backend URL scheme '' @ [squote] @ scheme @ [squote] @
        '' (expected postgres://, mysql:// or sqlite://)''))))"

section \<open>The translator\<close>

record translator =
  tr_front :: front_dialect
  tr_target :: target_dialect

definition new_translator :: "front_dialect \<Rightarrow> target_dialect \<Rightarrow> translator" where
  "new_translator f t = \<lparr>tr_front = f, tr_target = t\<rparr>"

definition front_dialect_matches_target :: "translator \<Rightarrow> bool" where
  "front_dialect_matches_target tr \<longleftrightarrow>
     (tr_front tr = FrontPostgres \<and> tr_target tr = Postgres) \<or>
     (tr_front tr = FrontMysql \<and> tr_target tr = Mysql)"

lemma matches_display:
  "front_dialect_matches_target tr \<longleftrightarrow> display_front (tr_front tr) = display_target (tr_target tr)"
  by (cases "tr_front tr"; cases "tr_target tr") (simp_all add: front_dialect_matches_target_def)

lemma sqlite_never_matches [simp]: "tr_target tr = Sqlite \<Longrightarrow> \<not> front_dialect_matches_target tr"
  by (simp add: front_dialect_matches_target_def)

section \<open>The scheme decides, and nothing else of the URL\<close>

lemma from_backend_url_no_panic [simp]: "from_backend_url url \<noteq> Inl Panic"
  by (simp add: from_backend_url_def Let_def)

lemma from_backend_url_display [simp]:
  "from_backend_url (display_target t @ CHR '':'' # rest) = Inr t"
  by (cases t) (simp_all add: from_backend_url_def Let_def hd_split_on)

text \<open>
  The target dialect of a backend URL is a function of the URL's scheme alone: for any
  colon-free scheme and any remainder (host, credentials, path), the result is that of the five
  accepted schemes, and every other scheme is a configuration error, never a panic.
\<close>

theorem backend_url_scheme_decides:
  assumes "CHR '':'' \<notin> set scheme"
  shows "from_backend_url (scheme @ CHR '':'' # rest) = from_backend_url scheme \<and>
         ((\<exists>t. from_backend_url scheme = Inr t) \<longleftrightarrow>
          scheme \<in> {''postgres'', ''postgresql'', ''mysql'', ''mariadb'', ''sqlite''}) \<and>
         from_backend_url scheme \<noteq> Inl Panic"
proof -
  have "hd (split_on CHR '':'' (scheme @ CHR '':'' # rest)) = scheme"
    unfolding hd_split_on using assms by (subst takeWhile_append2) auto
  moreover have "hd (split_on CHR '':'' scheme) = scheme"
    using assms by (simp add: split_on_id)
  ultimately show ?thesis by (simp add: from_backend_url_def Let_def)
qed

theorem backend_url_scheme_decides_witness:
  "from_backend_url ''mysql://u:p@h/db'' = Inr Mysql"
proof -
  have "from_backend_url ''mysql'' = Inr Mysql"
    by (simp add: from_backend_url_def Let_def)
  then show ?thesis
    using backend_url_scheme_decides [of "''mysql''" "''//u:p@h/db''"] by simp
qed

end
