(* ===== verification/Configuration.thy ===== *)
theory Configuration
  imports Dialect
begin

text \<open>
  \<open>src/config.rs\<close>, the listener part of \<open>src/server/mod.rs\<close> and the start-up loop of
  \<open>src/main.rs\<close>. Reading a file, the TOML parser, the socket-address parser and connecting a pool
  are outside the sources: they are arguments.
\<close>

section \<open>Configuration\<close>

record listener =
  l_protocol :: string
  l_addr :: string
  l_backend :: string
  l_username :: "string option"
  l_password :: "string option"
  l_sqlite_busy_timeout_ms :: "64 word option"
  l_max_connections :: "32 word"

definition default_max_connections :: "32 word" where
  "default_max_connections = 128"

fun validate_protocols :: "listener list \<Rightarrow> unit res" where
  "validate_protocols [] = Inr ()"
| "validate_protocols (l # ls) =
     (if l_protocol l \<in> {''postgres'', ''mysql''} then validate_protocols ls
      else Inl (Err (Config (''listener protocol must be '' @ [squote] @ ''postgres'' @ [squote] @
        '' or '' @ [squote] @ ''mysql'' @ [squote] @ '', got '' @ [squote] @ l_protocol l @ [squote]))))"

definition validate :: "listener list \<Rightarrow> unit res" where
  "validate ls =
     (if ls = [] then Inl (Err (Config ''no [listeners] defined'')) else validate_protocols ls)"

definition load :: "(string \<Rightarrow> string + string) \<Rightarrow> (string \<Rightarrow> string + listener list) \<Rightarrow> string \<Rightarrow> listener list res" where
  "load read_to_string toml_from_str path =
     (case read_to_string path of
        Inl e \<Rightarrow> Inl (Err (Config (''cannot read '' @ [squote] @ path @ [squote] @ '': '' @ e)))
      | Inr text \<Rightarrow>
          (case toml_from_str text of
             Inl e \<Rightarrow> Inl (Err (Config (''invalid config '' @ [squote] @ path @ [squote] @ '': '' @ e)))
           | Inr cfg \<Rightarrow> (case validate cfg of Inl f \<Rightarrow> Inl f | Inr _ \<Rightarrow> Inr cfg)))"

section \<open>Starting the listeners\<close>

text \<open>\<open>addr.parse()\<close> of \<open>ListenerConfig::from_listener\<close> and of \<open>main\<close>, with its error.\<close>

record 'a listener_config =
  lc_addr :: 'a
  lc_protocol :: string

definition from_listener :: "(string \<Rightarrow> string + 'a) \<Rightarrow> listener \<Rightarrow> 'a listener_config res" where
  "from_listener parse_addr l =
     (case parse_addr (l_addr l) of
        Inl e \<Rightarrow> Inl (Err (Config (''invalid addr '' @ [squote] @ l_addr l @ [squote] @ '': '' @ e)))
      | Inr a \<Rightarrow> Inr \<lparr>lc_addr = a, lc_protocol = l_protocol l\<rparr>)"

text \<open>
  \<open>Backend::connect\<close>: the dialect is decided before the pool is opened. \<open>pool_connect\<close> is sqlx's
  pool, with the address and the bound on its connections.
\<close>

definition backend_connect ::
  "(string \<Rightarrow> 32 word \<Rightarrow> string + 'p) \<Rightarrow> string \<Rightarrow> 32 word \<Rightarrow> ('p \<times> target_dialect) res" where
  "backend_connect pool_connect url max_connections =
     (case from_backend_url url of
        Inl f \<Rightarrow> Inl f
      | Inr dialect \<Rightarrow>
          (case pool_connect url max_connections of
             Inl e \<Rightarrow> Inl (Err (Backend (''cannot connect to backend '' @ [squote] @ url @ [squote] @ '': '' @ e)))
           | Inr pool \<Rightarrow> Inr (pool, dialect)))"

text \<open>
  A started listener: the handler \<open>main\<close> spawns for it, with the backend, the front dialect of its
  translator and the credentials it was given.
\<close>

datatype handler_kind = PgHandler | MySqlServer

record ('a, 'p) task =
  tk_handler :: handler_kind
  tk_addr :: 'a
  tk_pool :: 'p
  tk_translator :: translator
  tk_username :: "string option"
  tk_password :: "string option"

definition start_listener ::
  "(string \<Rightarrow> string + 'a) \<Rightarrow> (string \<Rightarrow> 32 word \<Rightarrow> string + 'p) \<Rightarrow> listener \<Rightarrow> ('a, 'p) task res" where
  "start_listener parse_addr pool_connect l =
     (case parse_addr (l_addr l) of
        Inl e \<Rightarrow> Inl (Err (Config (''invalid addr '' @ [squote] @ l_addr l @ [squote] @ '': '' @ e)))
      | Inr addr \<Rightarrow>
          (case backend_connect pool_connect (l_backend l) (l_max_connections l) of
             Inl f \<Rightarrow> Inl f
           | Inr (pool, dialect) \<Rightarrow>
               (let front =
                  (if l_protocol l = ''postgres'' then Inr FrontPostgres
                   else if l_protocol l = ''mysql'' then Inr FrontMysql
                   else Inl (Err (Config (''unsupported protocol '' @ [squote] @ l_protocol l @ [squote]))))
                in case front of
                     Inl f \<Rightarrow> Inl f
                   | Inr fr \<Rightarrow>
                       (if l_protocol l = ''postgres'' then
                          Inr \<lparr>tk_handler = PgHandler, tk_addr = addr, tk_pool = pool,
                               tk_translator = new_translator fr dialect,
                               tk_username = l_username l, tk_password = l_password l\<rparr>
                        else if l_protocol l = ''mysql'' then
                          Inr \<lparr>tk_handler = MySqlServer, tk_addr = addr, tk_pool = pool,
                               tk_translator = new_translator fr dialect,
                               tk_username = l_username l, tk_password = l_password l\<rparr>
                        else Inl Panic))))"

fun start_listeners ::
  "(string \<Rightarrow> string + 'a) \<Rightarrow> (string \<Rightarrow> 32 word \<Rightarrow> string + 'p) \<Rightarrow> listener list \<Rightarrow> ('a, 'p) task list res" where
  "start_listeners parse_addr pool_connect [] = Inr []"
| "start_listeners parse_addr pool_connect (l # ls) =
     (case start_listener parse_addr pool_connect l of
        Inl f \<Rightarrow> Inl f
      | Inr t \<Rightarrow> map_res (Cons t) (start_listeners parse_addr pool_connect ls))"

section \<open>What validation buys\<close>

lemma validate_protocols_iff:
  "validate_protocols ls = Inr () \<longleftrightarrow> (\<forall>l \<in> set ls. l_protocol l \<in> {''postgres'', ''mysql''})"
  by (induction ls) auto

lemma validate_iff:
  "validate ls = Inr () \<longleftrightarrow> ls \<noteq> [] \<and> (\<forall>l \<in> set ls. l_protocol l \<in> {''postgres'', ''mysql''})"
  by (simp add: validate_def validate_protocols_iff)

lemma load_valid: "load rd toml path = Inr cfg \<Longrightarrow> validate cfg = Inr ()"
  by (auto simp: load_def split: sum.splits)

text \<open>
  The handler agrees with the protocol, and the protocol with the front dialect of its translator.
\<close>

definition handler_agrees :: "listener \<Rightarrow> ('a, 'p) task \<Rightarrow> bool" where
  "handler_agrees l t \<longleftrightarrow>
     (tk_handler t = PgHandler \<longleftrightarrow> l_protocol l = ''postgres'') \<and>
     (tk_handler t = MySqlServer \<longleftrightarrow> l_protocol l = ''mysql'') \<and>
     display_front (tr_front (tk_translator t)) = l_protocol l \<and>
     from_backend_url (l_backend l) = Inr (tr_target (tk_translator t)) \<and>
     tk_username t = l_username l \<and> tk_password t = l_password l"

lemma start_listener_agrees:
  "start_listener pa pc l = Inr t \<Longrightarrow> handler_agrees l t"
  by (auto simp: start_listener_def backend_connect_def handler_agrees_def new_translator_def Let_def
      split: sum.splits if_splits prod.splits)

lemma busy_timeout_unused: "start_listener pa pc (l\<lparr>l_sqlite_busy_timeout_ms := t\<rparr>) = start_listener pa pc l"
  by (simp add: start_listener_def Let_def cong: sum.case_cong prod.case_cong if_cong)

lemma start_listener_no_panic: "start_listener pa pc l \<noteq> Inl Panic"
  by (auto simp: start_listener_def backend_connect_def Let_def split: sum.splits if_splits prod.splits)

lemma start_listeners_no_panic: "start_listeners pa pc ls \<noteq> Inl Panic"
proof (induction ls)
  case (Cons l ls)
  then show ?case
    using start_listener_no_panic [of pa pc l] by (auto split: sum.splits)
qed simp

lemma start_listeners_agree:
  "start_listeners pa pc ls = Inr ts \<Longrightarrow> list_all2 handler_agrees ls ts"
  by (induction ls arbitrary: ts) (auto split: sum.splits dest: start_listener_agrees)

text \<open>
  For every configuration that \<open>load\<close> accepts, the start-up loop of \<open>main\<close> never reaches its
  \<open>unreachable!()\<close> nor any other panic, and if it starts, it starts one task per listener, in order,
  each with the handler and front dialect its protocol names, the target dialect its backend URL
  names, and its own credentials.
\<close>

theorem startup_agrees_with_config:
  assumes "load rd toml path = Inr cfg"
  shows "cfg \<noteq> [] \<and> start_listeners pa pc cfg \<noteq> Inl Panic \<and>
         (\<forall>ts. start_listeners pa pc cfg = Inr ts \<longrightarrow> list_all2 handler_agrees cfg ts)"
  using load_valid [OF assms] start_listeners_no_panic start_listeners_agree
  by (auto simp: validate_iff)

theorem startup_agrees_with_config_witness:
  "\<exists>ts. start_listeners (\<lambda>a. Inr a) (\<lambda>u n. Inr n)
     [\<lparr>l_protocol = ''mysql'', l_addr = ''a'', l_backend = ''sqlite:x'', l_username = None,
       l_password = None, l_sqlite_busy_timeout_ms = None, l_max_connections = 128\<rparr>] = Inr ts \<and>
     map tk_handler ts = [MySqlServer]"
proof -
  let ?l = "\<lparr>l_protocol = ''mysql'', l_addr = ''a'', l_backend = ''sqlite:x'', l_username = None,
       l_password = None, l_sqlite_busy_timeout_ms = None, l_max_connections = 128\<rparr>"
  let ?ts = "[\<lparr>tk_handler = MySqlServer, tk_addr = ''a'', tk_pool = 128,
      tk_translator = \<lparr>tr_front = FrontMysql, tr_target = Sqlite\<rparr>, tk_username = None, tk_password = None\<rparr>]"
  have l: "load (\<lambda>p. Inr p) (\<lambda>t. Inr [?l]) ''config.toml'' = Inr [?l]"
    by (simp add: load_def validate_def)
  have s: "start_listeners (\<lambda>a. Inr a) (\<lambda>u n. Inr n) [?l] = Inr ?ts"
    by (simp add: start_listener_def backend_connect_def from_backend_url_def new_translator_def Let_def)
  from startup_agrees_with_config [OF l, of "\<lambda>a. Inr a" "\<lambda>u n. Inr n"] s show ?thesis by simp
qed

end
