(* ===== verification/Rows.thy ===== *)
theory Rows
  imports Prelude
begin

text \<open>
  \<open>src/backend/rows.rs\<close>: the values that travel from the backend to the wire front ends, their
  coercions to the widths a column declares, their text forms, and the type codes of the two wire
  protocols.

  Integers are words of the source's width, read as signed with \<open>sint\<close>. A float is its bit pattern;
  the arithmetic and the printing of floats, and the UTF-8 decoder, are the parameter \<open>R\<close>.
\<close>

section \<open>Values\<close>

text \<open>sqlx's \<open>AnyTypeInfoKind\<close>, the kind of a column.\<close>

datatype type_kind =
    KNull | KBool | KSmallInt | KInteger | KBigInt | KReal | KDouble | KText | KBlob

record field_meta =
  fm_name :: string
  fm_kind :: type_kind

datatype val =
    VNull
  | VBool bool
  | VSmallInt "16 word"
  | VInteger "32 word"
  | VBigInt "64 word"
  | VReal "32 word"
  | VDouble "64 word"
  | VText string
  | VBlob "8 word list"

text \<open>A cell is \<open>Option<Value>\<close>.\<close>

type_synonym cell = "val option"

text \<open>
  The operations on floats the sources use: the casts between the two widths and from \<open>i64\<close> (the
  narrower integers widen to it exactly), \<open>f == f.trunc() && f.is_finite() && f.abs() < 1e15\<close>,
  the formats \<open>{:.1}\<close> and \<open>{}\<close>; and \<open>String::from_utf8_lossy\<close> and \<open>str::to_uppercase\<close>.
\<close>

record runtime =
  f32_to_f64 :: "32 word \<Rightarrow> 64 word"
  f64_to_f32 :: "64 word \<Rightarrow> 32 word"
  int_to_f32 :: "int \<Rightarrow> 32 word"
  int_to_f64 :: "int \<Rightarrow> 64 word"
  small_integral :: "64 word \<Rightarrow> bool"
  show_fixed1 :: "64 word \<Rightarrow> string"
  show_float :: "64 word \<Rightarrow> string"
  show_float32 :: "32 word \<Rightarrow> string"
  utf8_lossy :: "8 word list \<Rightarrow> string"
  to_uppercase :: "string \<Rightarrow> string"
  type_size :: nat   \<comment> \<open>the size in bytes of the wire crate's \<open>Type\<close>\<close>

section \<open>Coercions\<close>

text \<open>\<open>i16::try_from\<close>, \<open>i32::try_from\<close>: a narrower word if the number fits.\<close>

definition narrow :: "'a::len word \<Rightarrow> 'b::len word option" where
  "narrow w = (if - (2 ^ (LENGTH('b) - 1)) \<le> sint w \<and> sint w < 2 ^ (LENGTH('b) - 1)
               then Some (word_of_int (sint w)) else None)"

fun as_bool :: "val \<Rightarrow> bool option" where
  "as_bool (VBool b) = Some b"
| "as_bool (VSmallInt i) = Some (i \<noteq> 0)"
| "as_bool (VInteger i) = Some (i \<noteq> 0)"
| "as_bool (VBigInt i) = Some (i \<noteq> 0)"
| "as_bool (VText s) = Some (s \<noteq> [])"
| "as_bool v = None"

fun as_i16 :: "val \<Rightarrow> 16 word option" where
  "as_i16 (VSmallInt i) = Some i"
| "as_i16 (VInteger i) = narrow i"
| "as_i16 (VBigInt i) = narrow i"
| "as_i16 (VBool b) = Some (if b then 1 else 0)"
| "as_i16 v = None"

fun as_i32 :: "val \<Rightarrow> 32 word option" where
  "as_i32 (VSmallInt i) = Some (scast i)"
| "as_i32 (VInteger i) = Some i"
| "as_i32 (VBigInt i) = narrow i"
| "as_i32 (VBool b) = Some (if b then 1 else 0)"
| "as_i32 v = None"

fun as_i64 :: "val \<Rightarrow> 64 word option" where
  "as_i64 (VSmallInt i) = Some (scast i)"
| "as_i64 (VInteger i) = Some (scast i)"
| "as_i64 (VBigInt i) = Some i"
| "as_i64 (VBool b) = Some (if b then 1 else 0)"
| "as_i64 v = None"

fun as_f32 :: "runtime \<Rightarrow> val \<Rightarrow> 32 word option" where
  "as_f32 R (VSmallInt i) = Some (int_to_f32 R (sint i))"
| "as_f32 R (VInteger i) = Some (int_to_f32 R (sint i))"
| "as_f32 R (VBigInt i) = Some (int_to_f32 R (sint i))"
| "as_f32 R (VReal f) = Some f"
| "as_f32 R (VDouble f) = Some (f64_to_f32 R f)"
| "as_f32 R v = None"

fun as_f64 :: "runtime \<Rightarrow> val \<Rightarrow> 64 word option" where
  "as_f64 R (VSmallInt i) = Some (int_to_f64 R (sint i))"
| "as_f64 R (VInteger i) = Some (int_to_f64 R (sint i))"
| "as_f64 R (VBigInt i) = Some (int_to_f64 R (sint i))"
| "as_f64 R (VReal f) = Some (f32_to_f64 R f)"
| "as_f64 R (VDouble f) = Some f"
| "as_f64 R v = None"

section \<open>Text forms\<close>

definition format_float :: "runtime \<Rightarrow> 64 word \<Rightarrow> string" where
  "format_float R f = (if small_integral R f then show_fixed1 R f else show_float R f)"

abbreviation backslash :: char where "backslash \<equiv> CHR 0x5C"

text \<open>\<open>{:03o}\<close> of a byte.\<close>

definition octal3 :: "8 word \<Rightarrow> string" where
  "octal3 b = [digit_char (unat b div 64), digit_char (unat b div 8 mod 8), digit_char (unat b mod 8)]"

definition escape_byte :: "8 word \<Rightarrow> string" where
  "escape_byte b =
     (if b = 0x00 then [backslash, backslash] @ ''000''
      else if b = 0x27 then [squote, squote]
      else if b = 0x5c then [backslash, backslash, backslash, backslash]
      else if b = 0x0a then [backslash, backslash] @ ''012''
      else if b = 0x0d then [backslash, backslash] @ ''015''
      else if b = 0x08 then [backslash, backslash] @ ''b''
      else if b = 0x09 then [backslash, backslash] @ ''t''
      else if b < 0x20 \<or> b \<ge> 0x7f then [backslash, backslash] @ octal3 b
      else [char_of (unat b)])"

definition escape_bytea :: "8 word list \<Rightarrow> string" where
  "escape_bytea bytes = concat (map escape_byte bytes)"

fun as_mysql_text :: "runtime \<Rightarrow> val \<Rightarrow> string option" where
  "as_mysql_text R VNull = None"
| "as_mysql_text R (VBool b) = Some (if b then ''1'' else ''0'')"
| "as_mysql_text R (VSmallInt i) = Some (show_int (sint i))"
| "as_mysql_text R (VInteger i) = Some (show_int (sint i))"
| "as_mysql_text R (VBigInt i) = Some (show_int (sint i))"
| "as_mysql_text R (VReal f) = Some (format_float R (f32_to_f64 R f))"
| "as_mysql_text R (VDouble f) = Some (format_float R f)"
| "as_mysql_text R (VText s) = Some s"
| "as_mysql_text R (VBlob b) = Some (utf8_lossy R b)"

fun as_pg_text :: "runtime \<Rightarrow> val \<Rightarrow> string option" where
  "as_pg_text R VNull = None"
| "as_pg_text R (VBool b) = Some (if b then ''t'' else ''f'')"
| "as_pg_text R (VSmallInt i) = Some (show_int (sint i))"
| "as_pg_text R (VInteger i) = Some (show_int (sint i))"
| "as_pg_text R (VBigInt i) = Some (show_int (sint i))"
| "as_pg_text R (VReal f) = Some (format_float R (f32_to_f64 R f))"
| "as_pg_text R (VDouble f) = Some (format_float R f)"
| "as_pg_text R (VText s) = Some s"
| "as_pg_text R (VBlob b) = Some (escape_bytea b)"

section \<open>Type codes\<close>

fun kind_to_pg_oid :: "type_kind \<Rightarrow> nat" where
  "kind_to_pg_oid KBool = 16"
| "kind_to_pg_oid KSmallInt = 21"
| "kind_to_pg_oid KInteger = 23"
| "kind_to_pg_oid KBigInt = 20"
| "kind_to_pg_oid KReal = 700"
| "kind_to_pg_oid KDouble = 701"
| "kind_to_pg_oid KText = 25"
| "kind_to_pg_oid KBlob = 17"
| "kind_to_pg_oid k = 25"

fun kind_to_mysql_type :: "type_kind \<Rightarrow> nat" where
  "kind_to_mysql_type KBool = 1"
| "kind_to_mysql_type KSmallInt = 2"
| "kind_to_mysql_type KInteger = 3"
| "kind_to_mysql_type KBigInt = 8"
| "kind_to_mysql_type KReal = 4"
| "kind_to_mysql_type KDouble = 5"
| "kind_to_mysql_type KBlob = 252"
| "kind_to_mysql_type k = 253"

section \<open>The number a value stands for\<close>

text \<open>The reference: the integer of a value, and the widths as one function.\<close>

fun int_of_value :: "val \<Rightarrow> int option" where
  "int_of_value (VBool b) = Some (if b then 1 else 0)"
| "int_of_value (VSmallInt i) = Some (sint i)"
| "int_of_value (VInteger i) = Some (sint i)"
| "int_of_value (VBigInt i) = Some (sint i)"
| "int_of_value v = None"

definition fit :: "int \<Rightarrow> 'b::len word option" where
  "fit n = (if - (2 ^ (LENGTH('b) - 1)) \<le> n \<and> n < 2 ^ (LENGTH('b) - 1) then Some (word_of_int n) else None)"

lemma narrow_fit [simp]: "narrow w = fit (sint w)"
  by (simp add: narrow_def fit_def)

lemma fit_sint [simp]: "fit (sint (w :: 'b::len word)) = Some w"
  using sint_ge [of w] sint_lt [of w] by (simp add: fit_def)

lemma sint_fit: "fit n = Some (w :: 'b::len word) \<Longrightarrow> sint w = n"
  by (auto simp: fit_def sint_sbintrunc' signed_take_bit_int_eq_self_iff split: if_splits)

lemma widen_fit:
  assumes "LENGTH('a) \<le> LENGTH('b)"
  shows "Some (scast (w :: 'a::len word)) = (fit (sint w) :: 'b::len word option)"
proof -
  have le: "(2::int) ^ (LENGTH('a) - 1) \<le> 2 ^ (LENGTH('b) - 1)"
    using assms by (intro power_increasing) auto
  have "- (2 ^ (LENGTH('b) - 1)) \<le> sint w"
    using le sint_ge [of w] by (rule order_trans [OF le_imp_neg_le])
  moreover have "sint w < 2 ^ (LENGTH('b) - 1)"
    using sint_lt [of w] le by (rule less_le_trans)
  ultimately show ?thesis unfolding fit_def scast_eq by (simp only: simp_thms if_True)
qed

lemma sint_scast_64:
  "sint (scast (a :: 16 word) :: 64 word) = sint a" "sint (scast (b :: 32 word) :: 64 word) = sint b"
  by (rule sint_fit, rule widen_fit [symmetric], simp)+

lemma fit_bit: "fit (if b then 1 else 0) = Some (if b then 1 else (0 :: 'b::len word))"
  if "LENGTH('b) > 1"
proof -
  have "(2::int) \<le> 2 ^ (LENGTH('b) - 1)"
    using that power_increasing [of 1 "LENGTH('b) - 1" "2::int"] by simp
  then show ?thesis by (simp add: fit_def)
qed

section \<open>Coercions are exact\<close>

definition fit_value :: "val \<Rightarrow> 'b::len word option" where
  "fit_value v = (case int_of_value v of None \<Rightarrow> None | Some n \<Rightarrow> fit n)"

lemma as_int_fit:
  "as_i16 v = fit_value v" "as_i32 v = fit_value v" "as_i64 v = fit_value v"
  by (cases v; simp add: fit_value_def fit_bit widen_fit)+

text \<open>
  C39. The three integer coercions are one function, "the number if it fits the width": a value that
  stands for an integer (booleans count as 0 and 1) is coerced to a word that reads as that same
  number, or to nothing when the number is outside the width's range; nothing is ever wrapped or
  cut, the 64-bit coercion loses nothing, and each width extends the narrower ones.
\<close>

theorem integer_coercions_exact:
  "as_i16 v = fit_value v \<and> as_i32 v = fit_value v \<and> as_i64 v = fit_value v \<and>
   map_option sint (as_i64 v) = int_of_value v \<and>
   (\<forall>a \<in> set_option (as_i16 v). \<exists>b. as_i32 v = Some b \<and> sint b = sint a) \<and>
   (\<forall>b \<in> set_option (as_i32 v). int_of_value v = Some (sint b))"
proof -
  have "map_option sint (as_i64 v) = int_of_value v"
    by (cases v) (simp_all add: sint_scast_64)
  moreover have "\<exists>b. as_i32 v = Some b \<and> sint b = sint a" if "as_i16 v = Some a" for a
  proof -
    from that obtain n where n: "int_of_value v = Some n" "fit n = Some a"
      by (auto simp: as_int_fit fit_value_def split: option.splits)
    from sint_fit [OF n(2)] have "sint a = n" .
    moreover from this have "Some (scast a) = (fit n :: 32 word option)"
      using widen_fit [of a, where 'b = 32] by simp
    ultimately show ?thesis
      using n(1) sint_fit [of n "scast a :: 32 word"] unfolding as_int_fit fit_value_def
      by (metis option.simps(5))
  qed
  moreover have "int_of_value v = Some (sint b)" if "as_i32 v = Some b" for b
    using that by (auto simp: as_int_fit fit_value_def sint_fit split: option.splits)
  ultimately show ?thesis by (simp add: as_int_fit)
qed

theorem integer_coercions_exact_witness:
  "\<exists>b. as_i32 (VBigInt 300) = Some b \<and> sint b = sint (300 :: 16 word)"
proof -
  have "300 \<in> set_option (as_i16 (VBigInt 300))" by (simp add: fit_def)
  with integer_coercions_exact [of "VBigInt 300"] show ?thesis by blast
qed

section \<open>Numbers as text\<close>

definition read_int :: "string \<Rightarrow> int" where
  "read_int s = (case s of CHR ''-'' # ds \<Rightarrow> - int (digits_val ds) | _ \<Rightarrow> int (digits_val s))"

lemma read_int_show_int: "read_int (show_int i) = i"
proof (cases "i < 0")
  case False
  have "hd (show_nat (nat i)) \<in> set (show_nat (nat i))" by simp
  then have "is_ascii_digit (hd (show_nat (nat i)))" by (rule show_nat_digits)
  then have "hd (show_nat (nat i)) \<noteq> CHR ''-''" by (auto simp: is_ascii_digit_def)
  then have "read_int (show_nat (nat i)) = int (digits_val (show_nat (nat i)))"
    unfolding read_int_def by (cases "show_nat (nat i)") (auto split: char.splits bool.splits)
  with False show ?thesis by (simp add: show_int_def)
qed (simp add: show_int_def read_int_def)

text \<open>The values that are integers proper, not booleans.\<close>

fun is_integer :: "val \<Rightarrow> bool" where
  "is_integer (VSmallInt i) \<longleftrightarrow> True"
| "is_integer (VInteger i) \<longleftrightarrow> True"
| "is_integer (VBigInt i) \<longleftrightarrow> True"
| "is_integer v \<longleftrightarrow> False"

text \<open>
  Both text protocols carry integers faithfully: the text of an integer value is the same in the
  MySQL and the PostgreSQL form and reads back as the value's number, for every width and sign. Only
  NULL has no text form, and the two protocols differ only on booleans and blobs.
\<close>

theorem value_text_forms:
  "(is_integer v \<longrightarrow> (\<exists>s. as_mysql_text R v = Some s \<and> as_pg_text R v = Some s \<and> int_of_value v = Some (read_int s))) \<and>
   (as_mysql_text R v = None \<longleftrightarrow> v = VNull) \<and> (as_pg_text R v = None \<longleftrightarrow> v = VNull) \<and>
   ((\<forall>b. v \<noteq> VBool b) \<and> (\<forall>b. v \<noteq> VBlob b) \<longrightarrow> as_mysql_text R v = as_pg_text R v)"
  by (cases v) (auto simp: read_int_show_int)

definition sample_runtime :: runtime where
  "sample_runtime = \<lparr>f32_to_f64 = (\<lambda>f. ucast f), f64_to_f32 = (\<lambda>f. ucast f), int_to_f32 = word_of_int,
     int_to_f64 = word_of_int, small_integral = (\<lambda>f. True), show_fixed1 = (\<lambda>f. show_int (sint f)),
     show_float = (\<lambda>f. show_int (sint f)), show_float32 = (\<lambda>f. show_int (sint f)),
     utf8_lossy = map (\<lambda>b. char_of (unat b)), to_uppercase = to_ascii_uppercase, type_size = 16\<rparr>"

theorem value_text_forms_witness:
  "\<exists>s. as_pg_text sample_runtime (VInteger (-7)) = Some s \<and> read_int s = -7"
  using value_text_forms [of "VInteger (-7)" sample_runtime] by auto

section \<open>Blobs as text\<close>

text \<open>The inverse of the escaping, read off its own table.\<close>

definition octal_value :: "char \<Rightarrow> char \<Rightarrow> char \<Rightarrow> 8 word" where
  "octal_value a b c = of_nat (64 * digit_val a + 8 * digit_val b + digit_val c)"

definition is_octal :: "char \<Rightarrow> bool" where
  "is_octal c \<longleftrightarrow> 48 \<le> code_of c \<and> code_of c \<le> (55 :: nat)"

fun unescape_bytea :: "string \<Rightarrow> 8 word list option" where
  "unescape_bytea [] = Some []"
| "unescape_bytea (c # cs) =
     (if c = squote then (case cs of d # r \<Rightarrow> map_option ((#) 0x27) (unescape_bytea r) | [] \<Rightarrow> None)
      else if c = backslash then
        (case cs of
           _ # d # r \<Rightarrow>
             if d = CHR ''b'' then map_option ((#) 0x08) (unescape_bytea r)
             else if d = CHR ''t'' then map_option ((#) 0x09) (unescape_bytea r)
             else if d = backslash then map_option ((#) 0x5c) (unescape_bytea (tl r))
             else (case r of
                 e # f # u \<Rightarrow> map_option ((#) (octal_value d e f)) (unescape_bytea u) | _ \<Rightarrow> None)
         | _ \<Rightarrow> None)
      else map_option ((#) (of_nat (of_char c))) (unescape_bytea cs))"

lemma digit_char_octal:
  assumes "d < 8"
  shows "digit_val (digit_char d) = d" "digit_char d \<noteq> backslash" "digit_char d \<noteq> CHR ''b''"
    "digit_char d \<noteq> CHR ''t''" "is_octal (digit_char d)"
proof -
  have "of_char (digit_char d) = (48 + d :: nat)"
    using assms by (simp add: digit_char_def of_char_of take_bit_nat_eq_self)
  then show "digit_char d \<noteq> backslash" "digit_char d \<noteq> CHR ''b''" "digit_char d \<noteq> CHR ''t''"
    "is_octal (digit_char d)" using assms by (auto simp: is_octal_def)
  show "digit_val (digit_char d) = d" using assms by simp
qed

lemma byte_less: "unat (b :: 8 word) < 256"
  using unsigned_less [of b] by simp

lemma octal_digits_less: "unat (b :: 8 word) div 64 < 8"
  using byte_less [of b] by simp

lemma octal_value_octal3:
  "octal_value (digit_char (unat b div 64)) (digit_char (unat b div 8 mod 8)) (digit_char (unat b mod 8)) = b"
proof -
  have "unat b div 64 = unat b div 8 div 8" by (simp add: div_mult2_eq [symmetric])
  then have "64 * (unat b div 64) + 8 * (unat b div 8 mod 8) + unat b mod 8 = unat b"
    using div_mult_mod_eq [of "unat b" 8] div_mult_mod_eq [of "unat b div 8" 8] by linarith
  then show ?thesis
    by (simp add: octal_value_def digit_char_octal(1) octal_digits_less)
qed

lemma of_char_byte [simp]: "of_char (char_of (unat b)) = unat (b :: 8 word)"
  using byte_less [of b] by (simp add: of_char_of take_bit_nat_eq_self)

lemma plain_byte: "of_nat (of_char (char_of (unat b))) = (b :: 8 word)"
  by (simp only: of_char_byte) simp

lemma byte_char_neq: "char_of (unat b) \<noteq> c" if "of_nat (of_char c) \<noteq> (b :: 8 word)"
  using that plain_byte [of b] by metis

lemma unescape_byte: "unescape_bytea (escape_byte b @ s) = map_option ((#) b) (unescape_bytea s)"
proof (cases "b \<in> {0x00, 0x27, 0x5c, 0x0a, 0x0d, 0x08, 0x09}")
  case True
  then show ?thesis by (auto simp: escape_byte_def octal_value_def digit_val_def)
next
  case False
  show ?thesis
  proof (cases "b < 0x20 \<or> b \<ge> 0x7f")
    case True
    with False show ?thesis
      by (simp add: escape_byte_def octal3_def digit_char_octal octal_digits_less octal_value_octal3)
  next
    case plain: False
    then have eq: "escape_byte b = [char_of (unat b)]" using False by (simp add: escape_byte_def)
    have "char_of (unat b) \<noteq> squote" "char_of (unat b) \<noteq> backslash"
      using False by (intro byte_char_neq; simp)+
    then show ?thesis unfolding eq by (simp add: plain_byte del: of_char_of)
  qed
qed

text \<open>How PostgreSQL reads the escape format of a \<open>bytea\<close>: a doubled backslash, three octal digits after a
  backslash, and any other character for its own byte.\<close>

fun pg_read_bytea :: "string \<Rightarrow> 8 word list option" where
  "pg_read_bytea [] = Some []"
| "pg_read_bytea (c # cs) =
     (if c = backslash then
        (case cs of
           d # r \<Rightarrow>
             if d = backslash then map_option ((#) 0x5c) (pg_read_bytea r)
             else (case r of
                 e # f # u \<Rightarrow>
                   if is_octal d \<and> is_octal e \<and> is_octal f
                   then map_option ((#) (octal_value d e f)) (pg_read_bytea u) else None
               | _ \<Rightarrow> None)
         | [] \<Rightarrow> None)
      else map_option ((#) (of_nat (of_char c))) (pg_read_bytea cs))"

definition plain_bytes :: "8 word \<Rightarrow> bool" where
  "plain_bytes b \<longleftrightarrow> 0x20 \<le> b \<and> b < 0x7f \<and> b \<noteq> 0x27 \<and> b \<noteq> 0x5c"

text \<open>What PostgreSQL reads for one byte.\<close>

definition pg_reading :: "8 word \<Rightarrow> 8 word list" where
  "pg_reading b =
     (if plain_bytes b then [b]
      else if b = 0x27 then [0x27, 0x27]
      else if b = 0x5c then [0x5c, 0x5c]
      else 0x5c # map (\<lambda>c. of_nat (of_char c)) (drop 2 (escape_byte b)))"

lemma pg_read_digit: "is_octal d \<Longrightarrow> pg_read_bytea (d # s) = map_option ((#) (of_nat (of_char d))) (pg_read_bytea s)"
  by (auto simp: is_octal_def)

lemma map_option_append [simp]:
  "map_option ((@) []) r = r"
  "map_option ((@) (x # xs)) r = map_option ((#) x) (map_option ((@) xs) r)"
  by (cases r; simp)+

lemma pg_read_byte: "pg_read_bytea (escape_byte b @ s) = map_option ((@) (pg_reading b)) (pg_read_bytea s)"
proof (cases "b \<in> {0x00, 0x27, 0x5c, 0x0a, 0x0d, 0x08, 0x09}")
  case True
  then show ?thesis
    by (auto simp: escape_byte_def pg_reading_def plain_bytes_def del: option.map_comp)
next
  case False
  show ?thesis
  proof (cases "b < 0x20 \<or> b \<ge> 0x7f")
    case True
    then have "\<not> plain_bytes b" by (auto simp: plain_bytes_def)
    with True False show ?thesis
      by (simp add: escape_byte_def octal3_def digit_char_octal octal_digits_less pg_read_digit
          pg_reading_def del: option.map_comp)
  next
    case plain: False
    then have eq: "escape_byte b = [char_of (unat b)]" and p: "plain_bytes b"
      using False by (auto simp: escape_byte_def plain_bytes_def)
    have "char_of (unat b) \<noteq> backslash" using False by (intro byte_char_neq) simp
    then show ?thesis unfolding eq by (simp add: pg_reading_def p plain_byte del: of_char_of)
  qed
qed

lemma pg_reading_length:
  "length (pg_reading b) \<ge> 1" "length (pg_reading b) = 1 \<longleftrightarrow> plain_bytes b"
  by (auto simp: pg_reading_def plain_bytes_def escape_byte_def octal3_def)

lemma length_pg_reading: "length bytes \<le> length (concat (map pg_reading bytes))"
proof (induction bytes)
  case (Cons b bs)
  then show ?case using pg_reading_length(1) [of b] by simp
qed simp

lemma pg_reading_id_iff: "concat (map pg_reading bytes) = bytes \<longleftrightarrow> list_all plain_bytes bytes"
proof (induction bytes)
  case (Cons b bs)
  show ?case
  proof (cases "plain_bytes b")
    case True
    with Cons.IH show ?thesis by (simp add: pg_reading_def)
  next
    case False
    then have "length (pg_reading b) > 1" using pg_reading_length [of b] by linarith
    then have "length (concat (map pg_reading (b # bs))) > length (b # bs)"
      using length_pg_reading [of bs] by simp
    with False show ?thesis by (metis list.pred_inject(2) nat_neq_iff)
  qed
qed simp

text \<open>
  The escaping of blobs is injective: the inverse of its table gives back every byte string. But a
  PostgreSQL client reading the result as a \<open>bytea\<close> in escape format gets the original bytes exactly
  when all of them are printable ASCII other than the single quote and the backslash; every other
  byte is read as two or more bytes, because each escape is written with two backslashes and the
  quote is doubled.
\<close>

theorem escape_bytea_reading:
  "unescape_bytea (escape_bytea bytes) = Some bytes \<and>
   pg_read_bytea (escape_bytea bytes) = Some (concat (map pg_reading bytes)) \<and>
   (pg_read_bytea (escape_bytea bytes) = Some bytes \<longleftrightarrow> list_all plain_bytes bytes)"
proof -
  have "unescape_bytea (escape_bytea bytes) = Some bytes"
    by (induction bytes) (simp_all add: escape_bytea_def unescape_byte)
  moreover have r: "pg_read_bytea (escape_bytea bytes) = Some (concat (map pg_reading bytes))"
    by (induction bytes) (simp_all add: escape_bytea_def pg_read_byte)
  moreover have "concat (map pg_reading bytes) = bytes \<longleftrightarrow> list_all plain_bytes bytes"
    by (rule pg_reading_id_iff)
  ultimately show ?thesis by simp
qed

end
