(* ===== verification/Sqlite_Kinds.thy ===== *)
theory Sqlite_Kinds
  imports Rows
begin

text \<open>
  The text half of \<open>src/backend/mod.rs\<close>: SQLite reports every integer as 64 bits wide, so the proxy
  reads the declared types from the catalog. Here are the functions that map a declared type to a
  kind, find the tables a query names, and guess the names of its result columns.
\<close>

section \<open>Declared types\<close>

definition sqlite_affinity_kind :: "string \<Rightarrow> type_kind" where
  "sqlite_affinity_kind declared =
     (let d = to_ascii_uppercase declared; base = trim (hd (split_on CHR ''('' d)) in
      if contains_sub ''BIGINT'' base \<or> contains_sub ''INT8'' base \<or> contains_sub ''UNSIGNED BIG'' base then KBigInt
      else if contains_sub ''INT'' base then KInteger
      else if contains_sub ''FLOA'' base \<or> contains_sub ''DOUB'' base \<or> contains_sub ''REAL'' base then KDouble
      else if contains_sub ''TEXT'' base \<or> contains_sub ''CHAR'' base \<or> contains_sub ''CLOB'' base then KText
      else if contains_sub ''BLOB'' base \<or> base = [] then KBlob
      else if base = ''BOOL'' \<or> base = ''BOOLEAN'' then KBool
      else KText)"

section \<open>Tables of a query\<close>

text \<open>The loop that collects the token's characters into \<open>buf\<close>, from the first character that is not white space.\<close>

fun token_buffer :: "string \<Rightarrow> string" where
  "token_buffer [] = []"
| "token_buffer (c # cs) =
     (if c = CHR ''.'' \<or> is_word_char c then c # token_buffer cs
      else if c = dquote \<or> c = backtick then
        (let name = takeWhile (\<lambda>d. d \<noteq> c) cs; rest = drop (length name + 1) cs in
         case rest of
           CHR ''.'' # r \<Rightarrow> name @ CHR ''.'' # takeWhile (\<lambda>d. is_word_char d \<or> d = dquote \<or> d = backtick) r
         | _ \<Rightarrow> name)
      else [])"

definition first_table_token :: "string \<Rightarrow> string option" where
  "first_table_token s =
     (let buf = token_buffer (trim_start is_whitespace s); l = last (split_on CHR ''.'' buf) in
      if l = [] then None else Some (trim_matches (\<lambda>c. c = dquote \<or> c = backtick) l))"

text \<open>
  The inner loop for one keyword, over the rest of the text and of its upper-case copy. The needle is
  one of six constants; the first test only makes the recursion total.
\<close>

lemma found_shrinks:
  "needle \<noteq> [] \<Longrightarrow> find_sub needle u = Some p \<Longrightarrow> length u - (p + length needle) < length u"
  using find_sub_Some [of needle u p] by (cases needle) auto

function tables_after :: "string \<Rightarrow> string \<Rightarrow> string \<Rightarrow> string list" where
  "tables_after needle upper sql =
     (if needle = [] then []
      else case find_sub needle upper of
        None \<Rightarrow> []
      | Some pos \<Rightarrow>
          (let after = pos + length needle; rest = drop after sql in
           (case first_table_token rest of Some t \<Rightarrow> [t] | None \<Rightarrow> []) @
           tables_after needle (drop after upper) rest))"
  by pat_completeness auto
termination
  by (relation "measure (\<lambda>(needle, upper, sql). length upper)") (auto simp: found_shrinks)

declare tables_after.simps [simp del]

definition table_keywords :: "string list" where
  "table_keywords =
     ['' FROM '', '' JOIN '', '' INNER JOIN '', '' LEFT JOIN '', '' RIGHT JOIN '', '' CROSS JOIN '']"

definition sqlite_tables_in_query :: "string \<Rightarrow> string list" where
  "sqlite_tables_in_query sql =
     (let upper = to_ascii_uppercase sql in
      concat (map (\<lambda>kw. tables_after (trim kw) upper sql) table_keywords))"

section \<open>Result columns of a query\<close>

definition is_name_quote :: "char \<Rightarrow> bool" where
  "is_name_quote c \<longleftrightarrow> c = dquote \<or> c = backtick \<or> c = squote \<or> c = CHR '' ''"

definition result_column_name :: "string \<Rightarrow> string option" where
  "result_column_name part0 =
     (let part = trim part0;
          name0 = (case rfind_sub '' AS '' (to_ascii_uppercase part) of
                     Some pos \<Rightarrow> trim (drop (pos + 4) part)
                   | None \<Rightarrow>
                       (let cleaned = trim_end (\<lambda>c. c = CHR '' '' \<or> c = CHR '';'') part
                        in trim (last (split_on CHR ''.'' cleaned))));
          name = trim_matches is_name_quote name0
      in if name = [] \<or> CHR ''('' \<in> set name \<or> CHR ''*'' \<in> set name then None else Some name)"

definition sqlite_result_column_names :: "string \<Rightarrow> string option list" where
  "sqlite_result_column_names sql =
     (let trimmed = trim sql; upper = to_ascii_uppercase trimmed in
      if \<not> starts_with ''SELECT'' upper then []
      else let list = (case find_sub '' FROM '' upper of
                         Some p \<Rightarrow> drop 6 (take p trimmed)
                       | None \<Rightarrow> drop 6 trimmed)
           in map result_column_name (split_on CHR '','' list))"

text \<open>The slice \<open>trimmed[6..p]\<close> is in range: the keyword cannot start inside \<open>SELECT\<close>.\<close>

lemma from_after_select:
  assumes "starts_with ''SELECT'' u" "find_sub '' FROM '' u = Some p"
  shows "6 \<le> p \<and> p \<le> length u"
proof -
  from assms(1) obtain r where u: "u = ''SELECT'' @ r" by (auto simp: starts_with_iff)
  have "starts_with '' FROM '' (drop p u)" "p \<le> length u" using find_sub_Some [OF assms(2)] by auto
  moreover have "\<not> starts_with '' FROM '' (drop p u)" if "p < 6"
  proof -
    from that have "p = 0 \<or> p = 1 \<or> p = 2 \<or> p = 3 \<or> p = 4 \<or> p = 5" by linarith
    then show ?thesis by (elim disjE) (simp_all add: u starts_with_def)
  qed
  ultimately show ?thesis by fastforce
qed

section \<open>Kinds of declared types\<close>

lemma split_on_append: "split_on c (a @ c # b) = split_on c a @ split_on c b"
proof (induction a)
  case (Cons d ds)
  then show ?case by (cases "split_on c ds") auto
qed simp

lemma paren_upper: "ascii_upper CHR ''('' = CHR ''(''"
  by (simp add: ascii_upper_def)

lemma ascii_upper_lower [simp]: "ascii_upper (ascii_lower c) = ascii_upper c"
  by (auto simp: ascii_upper_def ascii_lower_def)

text \<open>
  A declared type gives one of six kinds, whatever its text, case, length argument or blanks: the
  kinds \<open>SmallInt\<close>, \<open>Real\<close> and \<open>Null\<close> never come out, so no SQLite column is ever announced as a
  16-bit integer or a 32-bit float; and the kind depends only on the upper-cased text before the
  first parenthesis.
\<close>

theorem affinity_kind_range:
  "sqlite_affinity_kind d \<in> {KBigInt, KInteger, KDouble, KText, KBlob, KBool} \<and>
   sqlite_affinity_kind (to_ascii_uppercase d) = sqlite_affinity_kind d \<and>
   sqlite_affinity_kind (to_ascii_lowercase d) = sqlite_affinity_kind d \<and>
   sqlite_affinity_kind (d @ CHR ''('' # args) = sqlite_affinity_kind d"
proof -
  have "to_ascii_uppercase (to_ascii_lowercase d) = to_ascii_uppercase d"
    by (simp add: to_ascii_uppercase_def to_ascii_lowercase_def comp_def ascii_upper_lower)
  moreover have "hd (split_on CHR ''('' (to_ascii_uppercase (d @ CHR ''('' # args))) =
      hd (split_on CHR ''('' (to_ascii_uppercase d))"
    using split_on_append [of "CHR ''(''" "map ascii_upper d" "map ascii_upper args"]
    by (simp add: to_ascii_uppercase_def paren_upper)
  ultimately show ?thesis by (simp add: sqlite_affinity_kind_def Let_def)
qed

section \<open>Names of tables\<close>

lemma token_buffer_word:
  assumes "\<forall>c \<in> set w. is_word_char c"
    "rest = [] \<or> hd rest \<notin> {CHR ''.'', dquote, backtick} \<and> \<not> is_word_char (hd rest)"
  shows "token_buffer (w @ rest) = w"
  using assms(1)
proof (induction w)
  case Nil
  with assms(2) show ?case by (cases rest) auto
qed simp

lemma word_char_plain:
  "is_word_char c \<Longrightarrow> c \<noteq> CHR ''.'' \<and> c \<noteq> dquote \<and> c \<noteq> backtick \<and> \<not> is_whitespace c"
  by (auto simp: is_word_char_def is_alphanumeric_def is_whitespace_def Let_def)

lemma first_token_of_buffer:
  assumes "token_buffer s = b" "s = [] \<or> \<not> is_whitespace (hd s)"
  shows "first_table_token s =
    (let l = last (split_on CHR ''.'' b) in
     if l = [] then None else Some (trim_matches (\<lambda>c. c = dquote \<or> c = backtick) l))"
proof -
  have "trim_start is_whitespace s = s" using assms(2) by (cases s) (simp_all add: trim_start_def)
  with assms(1) show ?thesis by (simp add: first_table_token_def)
qed

lemma length_split_on: "length (split_on c s) = Suc (count_list s c)"
proof (induction s)
  case (Cons d ds)
  then show ?case by (cases "split_on c ds") auto
qed simp

lemma split_on_join: "ws \<noteq> [] \<Longrightarrow> \<forall>w \<in> set ws. c \<notin> set w \<Longrightarrow> split_on c (join [c] ws) = ws"
proof (induction ws)
  case (Cons w ws)
  then show ?case by (cases ws) (simp_all add: split_on_append split_on_id)
qed simp

text \<open>A table name as the proxy's statements write it.\<close>

datatype table_ref = Bare string | InSchema string string | QuotedName char string | QuotedInSchema char string string

fun print_ref :: "table_ref \<Rightarrow> string" where
  "print_ref (Bare n) = n"
| "print_ref (InSchema s n) = s @ CHR ''.'' # n"
| "print_ref (QuotedName q n) = q # n @ [q]"
| "print_ref (QuotedInSchema q s n) = q # s @ [q, CHR ''.'', q] @ n @ [q]"

fun ref_table :: "table_ref \<Rightarrow> string" where
  "ref_table (Bare n) = n"
| "ref_table (InSchema s n) = n"
| "ref_table (QuotedName q n) = n"
| "ref_table (QuotedInSchema q s n) = n"

definition is_name :: "string \<Rightarrow> bool" where
  "is_name n \<longleftrightarrow> n \<noteq> [] \<and> list_all is_word_char n"

text \<open>A quoted name without schema may hold anything but dots and quotes, blanks included.\<close>

fun wf_ref :: "table_ref \<Rightarrow> bool" where
  "wf_ref (Bare n) \<longleftrightarrow> is_name n"
| "wf_ref (InSchema s n) \<longleftrightarrow> is_name s \<and> is_name n"
| "wf_ref (QuotedName q n) \<longleftrightarrow>
     q \<in> {dquote, backtick} \<and> n \<noteq> [] \<and> dquote \<notin> set n \<and> backtick \<notin> set n \<and> CHR ''.'' \<notin> set n"
| "wf_ref (QuotedInSchema q s n) \<longleftrightarrow> q \<in> {dquote, backtick} \<and> q \<notin> set s \<and> is_name n"

definition ends_name :: "string \<Rightarrow> bool" where
  "ends_name rest \<longleftrightarrow>
     rest = [] \<or> hd rest \<notin> {CHR ''.'', dquote, backtick} \<and> \<not> is_word_char (hd rest)"

lemma name_facts:
  assumes "is_name n"
  shows "n \<noteq> []" "\<forall>c \<in> set n. is_word_char c" "CHR ''.'' \<notin> set n" "dquote \<notin> set n" "backtick \<notin> set n"
    "\<not> is_whitespace (hd n)"
  using assms word_char_plain hd_in_set [of n] by (auto simp: is_name_def list_all_iff)

lemma token_buffer_quoted:
  assumes "q \<in> {dquote, backtick}" "q \<notin> set n" "rest = [] \<or> hd rest \<noteq> CHR ''.''"
  shows "token_buffer (q # n @ q # rest) = n"
proof -
  have "takeWhile (\<lambda>d. d \<noteq> q) (n @ q # rest) = n" using assms(2) by (induction n) auto
  moreover have "\<not> is_word_char q" "q \<noteq> CHR ''.''" using assms(1) by (auto simp: is_word_char_def)
  ultimately show ?thesis using assms(1,3) by (cases rest) (auto simp: Let_def split: char.splits bool.splits)
qed

lemma token_buffer_quoted_dot:
  assumes "q \<in> {dquote, backtick}" "q \<notin> set n"
  shows "token_buffer (q # n @ q # CHR ''.'' # r) =
    n @ CHR ''.'' # takeWhile (\<lambda>d. is_word_char d \<or> d = dquote \<or> d = backtick) r"
proof -
  have "takeWhile (\<lambda>d. d \<noteq> q) (n @ q # CHR ''.'' # r) = n" using assms(2) by (induction n) auto
  moreover have "\<not> is_word_char q" "q \<noteq> CHR ''.''" using assms(1) by (auto simp: is_word_char_def)
  ultimately show ?thesis using assms(1) by (auto simp: Let_def)
qed

lemma token_buffer_path:
  assumes "\<forall>c \<in> set s. is_word_char c"
  shows "token_buffer (s @ CHR ''.'' # r) = s @ CHR ''.'' # token_buffer r"
  using assms by (induction s) auto

lemma trim_quotes: "dquote \<notin> set n \<Longrightarrow> backtick \<notin> set n \<Longrightarrow> trim_matches (\<lambda>c. c = dquote \<or> c = backtick) n = n"
  by (rule trim_matches_id) auto

lemma trim_quoted:
  assumes "q \<in> {dquote, backtick}" "n \<noteq> []" "dquote \<notin> set n" "backtick \<notin> set n"
  shows "trim_matches (\<lambda>c. c = dquote \<or> c = backtick) (q # n @ [q]) = n"
proof -
  have "dropWhile (\<lambda>c. c = dquote \<or> c = backtick) (q # n @ [q]) = n @ [q]"
    using assms by (cases n) auto
  moreover have "dropWhile (\<lambda>c. c = dquote \<or> c = backtick) (rev (n @ [q])) = rev n"
    using assms by (cases n rule: rev_cases) auto
  ultimately show ?thesis by (simp add: trim_matches_def trim_start_def trim_end_def)
qed

text \<open>
  The table of a reference is found: for a bare name, a schema-qualified one, and their quoted
  forms in either quote style, followed by any text that does not continue the name, the token is
  the last component without its quotes.
\<close>

theorem first_table_token_of_ref:
  assumes "wf_ref r" "ends_name rest"
  shows "first_table_token (print_ref r @ rest) = Some (ref_table r)"
proof (cases r)
  case (Bare n)
  with assms have n: "is_name n" by simp
  then have "token_buffer (n @ rest) = n"
    using assms(2) by (intro token_buffer_word) (auto simp: name_facts ends_name_def)
  then show ?thesis
    using first_token_of_buffer [of "n @ rest" n] name_facts [OF n] Bare
    by (simp add: split_on_id trim_quotes)
next
  case (InSchema s n)
  with assms have s: "is_name s" and n: "is_name n" by simp_all
  have "token_buffer (n @ rest) = n"
    using assms(2) n by (intro token_buffer_word) (auto simp: name_facts ends_name_def)
  then have "token_buffer (s @ CHR ''.'' # n @ rest) = s @ CHR ''.'' # n"
    using token_buffer_path [of s "n @ rest"] name_facts [OF s] by simp
  then show ?thesis
    using first_token_of_buffer [of "s @ CHR ''.'' # n @ rest"] name_facts [OF n] name_facts [OF s] InSchema
    by (simp add: split_on_append split_on_id trim_quotes)
next
  case (QuotedName q n)
  with assms have q: "q \<in> {dquote, backtick}" "q \<notin> set n"
    and n: "n \<noteq> []" "dquote \<notin> set n" "backtick \<notin> set n" "CHR ''.'' \<notin> set n" by auto
  have "token_buffer (q # n @ q # rest) = n"
    using assms(2) q by (intro token_buffer_quoted) (auto simp: ends_name_def)
  then show ?thesis
    using first_token_of_buffer [of "q # n @ q # rest" n] q n QuotedName
    by (auto simp: split_on_id trim_quotes is_whitespace_def)
next
  case (QuotedInSchema q s n)
  with assms have q: "q \<in> {dquote, backtick}" "q \<notin> set s" and n: "is_name n" by auto
  have "takeWhile (\<lambda>d. is_word_char d \<or> d = dquote \<or> d = backtick) (q # n @ q # rest) = q # n @ [q]"
    using q(1) name_facts [OF n] assms(2) by (cases rest) (auto simp: takeWhile_append ends_name_def)
  then have "token_buffer (q # s @ q # CHR ''.'' # q # n @ q # rest) = s @ CHR ''.'' # q # n @ [q]"
    using token_buffer_quoted_dot [OF q] by simp
  then show ?thesis
    using first_token_of_buffer [of "q # s @ q # CHR ''.'' # q # n @ q # rest"] q name_facts [OF n]
      trim_quoted [OF q(1), of n] QuotedInSchema
    by (auto simp: split_on_append split_on_id is_whitespace_def)
qed

theorem first_table_token_of_ref_witness:
  "first_table_token (print_ref (QuotedInSchema dquote ''main'' ''users'') @ '' WHERE'') = Some ''users''"
proof -
  have "wf_ref (QuotedInSchema dquote ''main'' ''users'')" "ends_name '' WHERE''"
    by (simp_all add: is_name_def is_word_char_def is_alphanumeric_def ends_name_def)
  from first_table_token_of_ref [OF this] show ?thesis by simp
qed

section \<open>Names of result columns\<close>

datatype select_col = ColName string | ColPath string string | ColAs string string

fun print_col :: "select_col \<Rightarrow> string" where
  "print_col (ColName n) = n"
| "print_col (ColPath t n) = t @ CHR ''.'' # n"
| "print_col (ColAs e n) = e @ '' AS '' @ n"

fun col_name_of :: "select_col \<Rightarrow> string" where
  "col_name_of (ColName n) = n"
| "col_name_of (ColPath t n) = n"
| "col_name_of (ColAs e n) = n"

text \<open>An aliased expression may be any text without a comma.\<close>

fun wf_col :: "select_col \<Rightarrow> bool" where
  "wf_col (ColName n) \<longleftrightarrow> is_name n"
| "wf_col (ColPath t n) \<longleftrightarrow> is_name t \<and> is_name n"
| "wf_col (ColAs e n) \<longleftrightarrow> is_name n \<and> e \<noteq> [] \<and> \<not> is_whitespace (hd e) \<and> CHR '','' \<notin> set e"

lemma trim_pad:
  assumes "list_all is_whitespace sp" "p \<noteq> []" "\<not> is_whitespace (hd p)" "\<not> is_whitespace (last p)"
  shows "trim (sp @ p) = p"
proof -
  have "trim_start is_whitespace (sp @ p) = p"
    using assms(1-3) unfolding trim_start_def
    by (induction sp) (cases p; simp)+
  moreover have "trim_end is_whitespace p = p"
    using assms(2,4) unfolding trim_end_def by (cases p rule: rev_cases) auto
  ultimately show ?thesis by (simp add: trim_matches_def)
qed

lemma rfind_sub_Some: "rfind_sub p s = Some i \<Longrightarrow> starts_with p (drop i s)"
proof (induction s arbitrary: i)
  case (Cons c cs)
  then show ?case by (cases "rfind_sub p cs") (auto split: if_splits)
qed (simp add: starts_with_def split: if_splits)

lemma rfind_as_None: "CHR '' '' \<notin> set s \<Longrightarrow> rfind_sub '' AS '' s = None"
proof (rule ccontr)
  assume no: "CHR '' '' \<notin> set s" and "rfind_sub '' AS '' s \<noteq> None"
  then obtain i where "rfind_sub '' AS '' s = Some i" by blast
  then obtain r where "drop i s = '' AS '' @ r" using rfind_sub_Some starts_with_iff by metis
  then have "CHR '' '' \<in> set (drop i s)" by simp
  with no show False by (meson in_set_dropD)
qed

lemma rfind_as_last:
  assumes "CHR '' '' \<notin> set n"
  shows "rfind_sub '' AS '' (a @ '' AS '' @ n) = Some (length a)"
proof (induction a)
  case Nil
  have "\<not> starts_with '' AS '' (CHR '' '' # n)"
    using assms by (auto simp: starts_with_iff)
  then show ?case using rfind_as_None [OF assms] by (simp add: starts_with_def)
qed simp

lemma code_ascii_upper:
  "of_char (ascii_upper c) =
     (if 97 \<le> code_of c \<and> code_of c \<le> (122 :: nat) then code_of c - 32 else code_of c :: nat)"
  by (auto simp: ascii_upper_def of_char_of)

lemma upper_space: "ascii_upper c = CHR '' '' \<Longrightarrow> c = CHR '' ''"
proof -
  assume "ascii_upper c = CHR '' ''"
  then have "of_char (ascii_upper c) = (32 :: nat)" by simp
  then have "of_char c = (32 :: nat)" unfolding code_ascii_upper by (simp split: if_splits)
  then have "of_char c = (of_char CHR '' '' :: nat)" by simp
  then show ?thesis by (simp only: of_char_eq_iff)
qed

lemma no_space_upper: "CHR '' '' \<notin> set s \<Longrightarrow> CHR '' '' \<notin> set (to_ascii_uppercase s)"
proof
  assume no: "CHR '' '' \<notin> set s" and "CHR '' '' \<in> set (to_ascii_uppercase s)"
  then obtain c where "c \<in> set s" "ascii_upper c = CHR '' ''"
    unfolding to_ascii_uppercase_def set_map by (metis imageE)
  with no upper_space show False by blast
qed

lemma name_more:
  assumes "is_name n"
  shows "CHR '' '' \<notin> set n" "CHR '','' \<notin> set n" "CHR ''('' \<notin> set n" "CHR ''*'' \<notin> set n"
    "\<And>c. c \<in> set n \<Longrightarrow> \<not> is_name_quote c" "\<not> is_whitespace (last n)"
    "\<And>c. c \<in> set n \<Longrightarrow> \<not> (c = CHR '' '' \<or> c = CHR '';'')" "\<And>c. c \<in> set n \<Longrightarrow> \<not> is_whitespace c"
proof -
  have w: "is_word_char c" if "c \<in> set n" for c using assms that by (auto simp: is_name_def list_all_iff)
  have no: "\<not> is_word_char CHR '' ''" "\<not> is_word_char CHR '',''" "\<not> is_word_char CHR ''(''"
    "\<not> is_word_char CHR ''*''" "\<not> is_word_char CHR '';''" "\<not> is_word_char squote"
    by (simp_all add: is_word_char_def is_alphanumeric_def)
  show "CHR '' '' \<notin> set n" "CHR '','' \<notin> set n" "CHR ''('' \<notin> set n" "CHR ''*'' \<notin> set n"
    using w no by blast+
  show "\<not> (c = CHR '' '' \<or> c = CHR '';'')" if "c \<in> set n" for c using w [OF that] no by auto
  show ws: "\<not> is_whitespace c" if "c \<in> set n" for c using word_char_plain w that by blast
  show "\<not> is_whitespace (last n)" using ws assms by (auto simp: is_name_def)
  show "\<not> is_name_quote c" if "c \<in> set n" for c
    using w [OF that] word_char_plain [OF w [OF that]] no by (auto simp: is_name_quote_def)
qed

lemma result_column_name_of:
  assumes "wf_col c" "list_all is_whitespace sp"
  shows "result_column_name (sp @ print_col c) = Some (col_name_of c)"
proof (cases c)
  case (ColName n)
  with assms have n: "is_name n" by simp
  have "trim (sp @ n) = n" using name_facts [OF n] name_more [OF n] by (intro trim_pad [OF assms(2)]) auto
  moreover have "trim_end (\<lambda>c. c = CHR '' '' \<or> c = CHR '';'') n = n"
    using name_more(7) [OF n] unfolding trim_end_def by (cases n rule: rev_cases) auto
  ultimately show ?thesis
    using ColName name_facts [OF n] name_more [OF n] rfind_as_None [OF no_space_upper, of n]
    by (simp add: result_column_name_def split_on_id trim_matches_id Let_def)
next
  case (ColPath t n)
  with assms have t: "is_name t" and n: "is_name n" by simp_all
  let ?p = "t @ CHR ''.'' # n"
  have "trim (sp @ ?p) = ?p"
    using name_facts [OF n] name_facts [OF t] name_more [OF n] by (intro trim_pad [OF assms(2)]) auto
  moreover have "trim_end (\<lambda>c. c = CHR '' '' \<or> c = CHR '';'') ?p = ?p"
    using name_more(7) [OF n] name_facts(1) [OF n] unfolding trim_end_def by (cases n rule: rev_cases) auto
  moreover have "rfind_sub '' AS '' (to_ascii_uppercase ?p) = None"
    using name_more(1) [OF n] name_more(1) [OF t] by (intro rfind_as_None no_space_upper) auto
  ultimately show ?thesis
    using ColPath name_facts [OF n] name_facts [OF t] name_more [OF n]
    by (simp add: result_column_name_def split_on_append split_on_id trim_matches_id Let_def)
next
  case (ColAs e n)
  with assms have n: "is_name n" and e: "e \<noteq> []" "\<not> is_whitespace (hd e)" by simp_all
  let ?p = "e @ '' AS '' @ n"
  have "trim (sp @ ?p) = ?p"
    using name_facts [OF n] name_more [OF n] e by (intro trim_pad [OF assms(2)]) auto
  moreover have "rfind_sub '' AS '' (to_ascii_uppercase ?p) = Some (length e)"
    using rfind_as_last [OF no_space_upper [OF name_more(1) [OF n]], of "to_ascii_uppercase e"]
    by (simp add: to_ascii_uppercase_def ascii_upper_def)
  ultimately show ?thesis
    using ColAs name_facts [OF n] name_more [OF n]
    by (simp add: result_column_name_def trim_matches_id Let_def)
qed

lemma find_sub_own:
  assumes "find_sub p (a @ p) = Some (length a)"
  shows "find_sub p (a @ p @ c) = Some (length a)"
  using assms
proof (induction a)
  case Nil
  have "starts_with p (p @ c)" by (auto simp: starts_with_iff)
  then show ?case by (cases "p @ c") auto
next
  case (Cons x a)
  then have no: "\<not> starts_with p (x # a @ p)" and IH: "find_sub p (a @ p @ c) = Some (length a)"
    by (auto split: if_splits)
  have "take (length p) (x # a @ p @ c) = take (length p) (x # a @ p)"
    using take_append [of "length p" "x # a @ p" c] by simp
  with no have "\<not> starts_with p (x # a @ p @ c)" by (simp add: starts_with_def)
  with IH show ?case by simp
qed

text \<open>The list's text ends at the query's own \<open>FROM\<close>.\<close>

definition own_from :: "string \<Rightarrow> bool" where
  "own_from list \<longleftrightarrow>
     find_sub '' FROM '' (to_ascii_uppercase list @ '' FROM '') = Some (length list)"

lemma upper_append: "to_ascii_uppercase (a @ b) = to_ascii_uppercase a @ to_ascii_uppercase b"
  by (simp add: to_ascii_uppercase_def)

lemma result_names_of_list:
  assumes "own_from list" "rest \<noteq> []" "\<not> is_whitespace (last rest)"
  shows "sqlite_result_column_names (''SELECT'' @ list @ '' FROM '' @ rest) =
    map result_column_name (split_on CHR '','' list)"
proof -
  let ?sql = "''SELECT'' @ list @ '' FROM '' @ rest"
  have "\<not> is_whitespace CHR ''S''" by (simp add: is_whitespace_def)
  then have t: "trim ?sql = ?sql" using trim_pad [of "[]" ?sql] assms(2,3) by simp
  have k: "to_ascii_uppercase ''SELECT'' = ''SELECT''" "to_ascii_uppercase '' FROM '' = '' FROM ''"
    by (simp_all add: to_ascii_uppercase_def ascii_upper_def)
  let ?l = "to_ascii_uppercase list" and ?r = "to_ascii_uppercase rest"
  have u: "to_ascii_uppercase ?sql = ''SELECT'' @ ?l @ '' FROM '' @ ?r"
    by (simp only: upper_append k)
  have "find_sub '' FROM '' (?l @ '' FROM '' @ ?r) = Some (length list)"
    using assms(1) find_sub_own [of "'' FROM ''" ?l ?r] by (simp add: own_from_def)
  then have "find_sub '' FROM '' (''SELECT'' @ ?l @ '' FROM '' @ ?r) = Some (6 + length list)"
    by (simp add: starts_with_def)
  moreover have "starts_with ''SELECT'' (''SELECT'' @ ?l @ '' FROM '' @ ?r)" by (simp add: starts_with_def)
  moreover have "drop 6 (take (6 + length list) ?sql) = list" by (simp add: eval_nat_numeral)
  ultimately show ?thesis
    unfolding sqlite_result_column_names_def Let_def t u by (simp del: append_Cons)
qed

definition select_list :: "select_col list \<Rightarrow> string" where
  "select_list cols = join '','' (map (\<lambda>c. '' '' @ print_col c) cols)"

lemma no_comma_col: "wf_col c \<Longrightarrow> CHR '','' \<notin> set (print_col c)"
  using name_more(2) by (cases c) auto

lemma split_select_list:
  assumes "cols \<noteq> []" "list_all wf_col cols"
  shows "map result_column_name (split_on CHR '','' (select_list cols)) = map (\<lambda>c. Some (col_name_of c)) cols"
proof -
  have "CHR '','' \<notin> set (print_col c)" if "c \<in> set cols" for c
    using that assms(2) no_comma_col by (auto simp: list_all_iff)
  then have "split_on CHR '','' (select_list cols) = map (\<lambda>c. '' '' @ print_col c) cols"
    using assms(1) unfolding select_list_def by (intro split_on_join) auto
  moreover have "result_column_name ('' '' @ print_col c) = Some (col_name_of c)" if "c \<in> set cols" for c
    using that assms(2) by (intro result_column_name_of) (auto simp: list_all_iff is_whitespace_def)
  ultimately show ?thesis by simp
qed

text \<open>
  The guess is right for plain lists: when every item of the select list is a column, a qualified
  column or a comma-free expression with an alias, the names are the columns' names or aliases, in
  order, one per result column, whatever follows the query's own \<open>FROM\<close>.
\<close>

theorem result_columns_of_plain_list:
  assumes "cols \<noteq> []" "list_all wf_col cols" "own_from (select_list cols)"
    "rest \<noteq> []" "\<not> is_whitespace (last rest)"
  shows "sqlite_result_column_names (''SELECT'' @ select_list cols @ '' FROM '' @ rest) =
    map (\<lambda>c. Some (col_name_of c)) cols"
  unfolding result_names_of_list [OF assms(3-5)] by (rule split_select_list [OF assms(1,2)])

theorem result_columns_of_plain_list_witness:
  "sqlite_result_column_names
     (''SELECT'' @ select_list [ColName ''id'', ColPath ''u'' ''name'', ColAs ''count(*)'' ''n''] @ '' FROM '' @ ''u'') =
   [Some ''id'', Some ''name'', Some ''n'']"
proof -
  have "list_all wf_col [ColName ''id'', ColPath ''u'' ''name'', ColAs ''count(*)'' ''n'']"
    by (simp add: is_name_def is_word_char_def is_alphanumeric_def is_whitespace_def)
  moreover have "own_from (select_list [ColName ''id'', ColPath ''u'' ''name'', ColAs ''count(*)'' ''n''])"
    by code_simp
  moreover have "\<not> is_whitespace (last ''u'')" by (simp add: is_whitespace_def)
  ultimately show ?thesis
    using result_columns_of_plain_list [of "[ColName ''id'', ColPath ''u'' ''name'', ColAs ''count(*)'' ''n'']" "''u''"]
    by simp
qed

text \<open>
  A comma inside an item shifts every later name: after a first item that holds \<open>k\<close> commas (a call
  of several arguments), the name of the \<open>i\<close>-th following column stands at position \<open>k + 1 + i\<close>
  of the guessed list, not at its position \<open>1 + i\<close> in the result, so for \<open>k > 0\<close> its kind is given to
  another column.
\<close>

theorem comma_shifts_columns:
  assumes "cols \<noteq> []" "list_all wf_col cols" "own_from (item @ CHR '','' # select_list cols)"
    "rest \<noteq> []" "\<not> is_whitespace (last rest)" "i < length cols"
  shows "sqlite_result_column_names (''SELECT'' @ (item @ CHR '','' # select_list cols) @ '' FROM '' @ rest) !
    (count_list item CHR '','' + 1 + i) = Some (col_name_of (cols ! i))"
proof -
  let ?pre = "map result_column_name (split_on CHR '','' item)"
  have "map result_column_name (split_on CHR '','' (item @ CHR '','' # select_list cols)) =
      ?pre @ map (\<lambda>c. Some (col_name_of c)) cols"
    using split_select_list [OF assms(1,2)] by (simp add: split_on_append)
  moreover have "length ?pre = count_list item CHR '','' + 1" by (simp add: length_split_on)
  ultimately show ?thesis
    unfolding result_names_of_list [OF assms(3-5)] using assms(6)
    by (metis (no_types, lifting) length_map nth_append_length_plus nth_map)
qed

theorem comma_shifts_columns_witness:
  "sqlite_result_column_names
     (''SELECT'' @ ('' max(a, b)'' @ CHR '','' # select_list [ColName ''c'', ColName ''d'']) @ '' FROM '' @ ''t'') ! 2 =
   Some ''c''"
proof -
  have "list_all wf_col [ColName ''c'', ColName ''d'']"
    by (simp add: is_name_def is_word_char_def is_alphanumeric_def)
  moreover have "own_from ('' max(a, b)'' @ CHR '','' # select_list [ColName ''c'', ColName ''d''])"
    by code_simp
  moreover have "\<not> is_whitespace (last ''t'')" by (simp add: is_whitespace_def)
  moreover have "count_list '' max(a, b)'' CHR '','' = 1" by simp
  ultimately show ?thesis
    using comma_shifts_columns [of "[ColName ''c'', ColName ''d'']" "'' max(a, b)''" "''t''" 0]
    by (simp add: numeral_2_eq_2)
qed

end
