(* ===== verification/Backend_Exec.thy ===== *)
theory Backend_Exec
  imports Sqlite_Kinds Dialect
begin

text \<open>
  The execution half of \<open>src/backend/mod.rs\<close>: running a statement, fetching and describing rows, and
  the detection of the backend's dialect on a live connection.

  The sqlx driver and the database behind it are the parameter \<open>D\<close>: a connection is a value of the
  type \<open>'db\<close>, and each driver call takes it and returns it changed, with the driver's answer or the
  text of its error.
\<close>

section \<open>The driver\<close>

text \<open>A non-null value as sqlx hands it over: its kind, and its decoding at each Rust type.\<close>

record raw_value =
  rv_null :: bool
  rv_kind :: type_kind
  rv_bool :: "string + bool"
  rv_i16 :: "string + 16 word"
  rv_i32 :: "string + 32 word"
  rv_i64 :: "string + 64 word"
  rv_f32 :: "string + 32 word"
  rv_f64 :: "string + 64 word"
  rv_string :: "string + string"
  rv_bytes :: "string + 8 word list"

text \<open>A row: its column metadata, \<open>try_get_raw(i)\<close>, \<open>try_get::<String>(i)\<close>, \<open>try_get::<i64>(name)\<close>.\<close>

record any_row =
  row_columns :: "(string \<times> type_kind) list"
  row_raw :: "nat \<Rightarrow> string + raw_value"
  row_string :: "nat \<Rightarrow> string + string"
  row_i64 :: "string \<Rightarrow> string + 64 word"

text \<open>The pool's \<open>acquire\<close>, and the four ways the sources run a query.\<close>

record 'db driver =
  dv_acquire :: "string + 'db"
  dv_fetch_all :: "'db \<Rightarrow> string \<Rightarrow> 'db \<times> (string + any_row list)"
  dv_fetch_optional :: "'db \<Rightarrow> string \<Rightarrow> 'db \<times> (string + any_row option)"
  dv_fetch_one :: "'db \<Rightarrow> string \<Rightarrow> 'db \<times> (string + any_row)"
  dv_execute :: "'db \<Rightarrow> string \<Rightarrow> 'db \<times> (string + 64 word \<times> 64 word option)"
    \<comment> \<open>rows affected and the driver's last insert id\<close>

definition acquire_owned :: "'db driver \<Rightarrow> 'db res" where
  "acquire_owned D =
     (case dv_acquire D of
        Inl e \<Rightarrow> Inl (Err (Backend (''cannot acquire backend connection: '' @ e)))
      | Inr c \<Rightarrow> Inr c)"

section \<open>Cells\<close>

definition backend_err :: "string \<Rightarrow> fault" where
  "backend_err e = Err (Backend e)"

definition decode_as :: "('a \<Rightarrow> val) \<Rightarrow> string + 'a \<Rightarrow> val res" where
  "decode_as c r = (case r of Inl e \<Rightarrow> Inl (backend_err e) | Inr a \<Rightarrow> Inr (c a))"

definition decode_cell :: "any_row \<Rightarrow> nat \<Rightarrow> cell res" where
  "decode_cell row idx =
     (case row_raw row idx of
        Inl e \<Rightarrow> Inl (backend_err e)
      | Inr v \<Rightarrow>
          if rv_null v then Inr None
          else map_res Some (case rv_kind v of
              KBool \<Rightarrow> decode_as VBool (rv_bool v)
            | KSmallInt \<Rightarrow> decode_as VSmallInt (rv_i16 v)
            | KInteger \<Rightarrow> decode_as VInteger (rv_i32 v)
            | KBigInt \<Rightarrow> decode_as VBigInt (rv_i64 v)
            | KReal \<Rightarrow> decode_as VReal (rv_f32 v)
            | KDouble \<Rightarrow> decode_as VDouble (rv_f64 v)
            | KText \<Rightarrow> decode_as VText (rv_string v)
            | KBlob \<Rightarrow> decode_as VBlob (rv_bytes v)
            | KNull \<Rightarrow> decode_as VText (rv_string v)))"

fun value_kind :: "cell \<Rightarrow> type_kind" where
  "value_kind None = KNull"
| "value_kind (Some VNull) = KNull"
| "value_kind (Some (VBool b)) = KBool"
| "value_kind (Some (VSmallInt i)) = KSmallInt"
| "value_kind (Some (VInteger i)) = KInteger"
| "value_kind (Some (VBigInt i)) = KBigInt"
| "value_kind (Some (VReal f)) = KReal"
| "value_kind (Some (VDouble f)) = KDouble"
| "value_kind (Some (VText s)) = KText"
| "value_kind (Some (VBlob b)) = KBlob"

definition column_meta :: "any_row \<Rightarrow> field_meta list" where
  "column_meta row = map (\<lambda>(n, k). \<lparr>fm_name = n, fm_kind = k\<rparr>) (row_columns row)"

section \<open>Which database is this?\<close>

definition from_conn :: "'db driver \<Rightarrow> 'db \<Rightarrow> 'db \<times> target_dialect" where
  "from_conn D conn =
     (case dv_fetch_optional D conn ''SELECT count(*) FROM sqlite_master'' of
        (conn1, Inr r) \<Rightarrow> (conn1, Sqlite)
      | (conn1, Inl e) \<Rightarrow>
          (case dv_fetch_optional D conn1 ''SELECT version()'' of
             (conn2, Inr r) \<Rightarrow> (conn2, Postgres)
           | (conn2, Inl e) \<Rightarrow> (conn2, Mysql)))"

section \<open>Statements without rows\<close>

definition sql_snippet :: "string \<Rightarrow> string" where
  "sql_snippet sql = shorten 200 sql"

definition query_error :: "string \<Rightarrow> string \<Rightarrow> fault" where
  "query_error e sql = Err (Backend (e @ '' (sql: '' @ sql_snippet sql @ '')''))"

definition last_rowid :: "'db driver \<Rightarrow> 'db \<Rightarrow> 64 word option \<Rightarrow> 'db \<times> 64 word option" where
  "last_rowid D conn driver_id =
     (case dv_fetch_one D conn ''SELECT last_insert_rowid() AS id'' of
        (conn1, Inr row) \<Rightarrow>
          (conn1, case row_i64 row ''id'' of
                    Inr v \<Rightarrow> if v \<noteq> 0 then Some v else driver_id
                  | Inl e \<Rightarrow> driver_id)
      | (conn1, Inl e) \<Rightarrow> (conn1, driver_id))"

definition execute :: "'db driver \<Rightarrow> 'db \<Rightarrow> string \<Rightarrow> 'db \<times> (64 word \<times> 64 word option) res" where
  "execute D conn sql =
     (case dv_execute D conn sql of
        (conn1, Inl e) \<Rightarrow> (conn1, Inl (query_error e sql))
      | (conn1, Inr (affected, driver_id)) \<Rightarrow>
          (case from_conn D conn1 of (conn2, dialect) \<Rightarrow>
             if dialect = Sqlite then
               (case last_rowid D conn2 driver_id of (conn3, lid) \<Rightarrow> (conn3, Inr (affected, lid)))
             else (conn2, Inr (affected, driver_id))))"

section \<open>Kinds from the SQLite catalog\<close>

definition table_info :: "string \<Rightarrow> string" where
  "table_info table = ''PRAGMA table_info('' @ [dquote] @ double_char dquote table @ [dquote] @ '')''"

definition add_affinity :: "(string \<Rightarrow> type_kind option) \<Rightarrow> any_row \<Rightarrow> string \<Rightarrow> type_kind option" where
  "add_affinity m r =
     (case row_string r 1 of
        Inl e \<Rightarrow> m
      | Inr name \<Rightarrow>
          (case row_string r 2 of
             Inl e \<Rightarrow> m
           | Inr ty \<Rightarrow> m(to_ascii_lowercase name \<mapsto> sqlite_affinity_kind ty)))"

fun table_affinities ::
  "'db driver \<Rightarrow> 'db \<Rightarrow> (string \<Rightarrow> type_kind option) \<Rightarrow> string list \<Rightarrow> 'db \<times> (string \<Rightarrow> type_kind option)" where
  "table_affinities D conn m [] = (conn, m)"
| "table_affinities D conn m (t # ts) =
     (case dv_fetch_all D conn (table_info t) of
        (conn1, Inr rows) \<Rightarrow> table_affinities D conn1 (foldl add_affinity m rows) ts
      | (conn1, Inl e) \<Rightarrow> table_affinities D conn1 m ts)"

definition resolve_sqlite_column_kinds ::
  "'db driver \<Rightarrow> 'db \<Rightarrow> string \<Rightarrow> nat \<Rightarrow> 'db \<times> type_kind option list" where
  "resolve_sqlite_column_kinds D conn sql ncols =
     (let tables = sqlite_tables_in_query sql in
      if tables = [] then (conn, replicate ncols None)
      else case table_affinities D conn Map.empty tables of (conn1, affinity) \<Rightarrow>
        (conn1, map (\<lambda>c. case c of None \<Rightarrow> None | Some n \<Rightarrow> affinity (to_ascii_lowercase n))
                  (sqlite_result_column_names sql)))"

section \<open>Statements with rows\<close>

text \<open>\<open>v.get(i)\<close>.\<close>

definition get :: "'a list \<Rightarrow> nat \<Rightarrow> 'a option" where
  "get xs i = (if i < length xs then Some (xs ! i) else None)"

definition column_kind :: "any_row \<Rightarrow> type_kind option list \<Rightarrow> nat \<Rightarrow> type_kind" where
  "column_kind row affinity idx =
     (let base = snd (row_columns row ! idx);
          known = (if base = KNull
                   then value_kind (case decode_cell row idx of Inr c \<Rightarrow> c | Inl e \<Rightarrow> None)
                   else base)
      in case get affinity idx of
           Some resolved \<Rightarrow> (case resolved of Some k \<Rightarrow> k | None \<Rightarrow> known)
         | None \<Rightarrow> known)"

definition column_field :: "any_row \<Rightarrow> type_kind option list \<Rightarrow> nat \<Rightarrow> field_meta" where
  "column_field row affinity idx =
     \<lparr>fm_name = fst (row_columns row ! idx), fm_kind = column_kind row affinity idx\<rparr>"

definition decode_row :: "nat \<Rightarrow> any_row \<Rightarrow> cell list res" where
  "decode_row ncols row = try_map (decode_cell row) [0..<ncols]"

definition fetch :: "'db driver \<Rightarrow> 'db \<Rightarrow> string \<Rightarrow> 'db \<times> (field_meta list \<times> cell list list) res" where
  "fetch D conn sql =
     (case dv_fetch_all D conn sql of
        (conn1, Inl e) \<Rightarrow> (conn1, Inl (query_error e sql))
      | (conn1, Inr rows) \<Rightarrow>
          (case rows of
             [] \<Rightarrow> (conn1, Inr ([], []))
           | first # others \<Rightarrow>
               (let ncols = length (row_columns first) in
                case from_conn D conn1 of (conn2, dialect) \<Rightarrow>
                case (if dialect = Sqlite then resolve_sqlite_column_kinds D conn2 sql ncols
                      else (conn2, [])) of (conn3, affinity) \<Rightarrow>
                  (conn3, map_res (Pair (map (column_field first affinity) [0..<ncols]))
                            (try_map (decode_row ncols) rows)))))"

section \<open>Describing a statement\<close>

definition override_kind :: "type_kind option list \<Rightarrow> nat \<times> field_meta \<Rightarrow> field_meta" where
  "override_kind resolved ic =
     (case get resolved (fst ic) of Some (Some k) \<Rightarrow> (snd ic)\<lparr>fm_kind := k\<rparr> | _ \<Rightarrow> snd ic)"

definition reapply_sqlite_kinds ::
  "'db driver \<Rightarrow> 'db \<Rightarrow> string \<Rightarrow> field_meta list \<Rightarrow> 'db \<times> field_meta list" where
  "reapply_sqlite_kinds D conn sql cols =
     (case from_conn D conn of (conn1, dialect) \<Rightarrow>
        if dialect \<noteq> Sqlite then (conn1, cols)
        else case resolve_sqlite_column_kinds D conn1 sql (length cols) of (conn2, resolved) \<Rightarrow>
          (conn2, map (override_kind resolved) (enumerate 0 cols)))"

definition probe_sql :: "string \<Rightarrow> string" where
  "probe_sql sql = ''SELECT * FROM ('' @ sql @ '') AS __sqr_probe LIMIT 1''"

definition forced_sql :: "string \<Rightarrow> string" where
  "forced_sql sql = ''SELECT t.* FROM (SELECT 1) AS __sqr_dummy LEFT JOIN ('' @ sql @ '') t ON 0 = 1 LIMIT 1''"

definition describe :: "'db driver \<Rightarrow> 'db \<Rightarrow> string \<Rightarrow> 'db \<times> field_meta list res" where
  "describe D conn sql =
     (case fetch D conn (probe_sql sql) of
        (conn1, Inl f) \<Rightarrow> (conn1, Inl f)
      | (conn1, Inr (cols, rows)) \<Rightarrow>
          (case reapply_sqlite_kinds D conn1 sql cols of (conn2, cols') \<Rightarrow>
             if rows \<noteq> [] then (conn2, Inr cols')
             else case fetch D conn2 (forced_sql sql) of
                (conn3, Inl f) \<Rightarrow> (conn3, Inl f)
              | (conn3, Inr (cols2, rows2)) \<Rightarrow>
                  (case reapply_sqlite_kinds D conn3 sql cols2 of (conn4, cols2') \<Rightarrow>
                     (conn4, Inr (if rows2 \<noteq> [] then cols2' else cols')))))"

section \<open>The shape of a result\<close>

lemma fetch_Inr:
  assumes "fetch D conn sql = (conn', Inr (cols, rows))"
  obtains "dv_fetch_all D conn sql = (conn', Inr [])" "cols = []" "rows = []"
  | conn1 first others affinity where
    "dv_fetch_all D conn sql = (conn1, Inr (first # others))"
    "cols = map (column_field first affinity) [0..<length (row_columns first)]"
    "try_map (decode_row (length (row_columns first))) (first # others) = Inr rows"
    "affinity \<noteq> [] \<Longrightarrow> snd (from_conn D conn1) = Sqlite"
proof (cases "dv_fetch_all D conn sql")
  case (Pair conn1 r)
  show ?thesis
  proof (cases r)
    case (Inl e)
    with Pair assms show ?thesis by (simp add: fetch_def)
  next
    case (Inr brows)
    show ?thesis
    proof (cases brows)
      case Nil
      with Inr Pair assms that(1) show ?thesis by (simp add: fetch_def)
    next
      case (Cons first others)
      obtain conn2 dialect where fc: "from_conn D conn1 = (conn2, dialect)" by (cases "from_conn D conn1")
      obtain conn3 affinity where rs: "(if dialect = Sqlite
          then resolve_sqlite_column_kinds D conn2 sql (length (row_columns first)) else (conn2, [])) = (conn3, affinity)"
        by (cases "if dialect = Sqlite
          then resolve_sqlite_column_kinds D conn2 sql (length (row_columns first)) else (conn2, [])")
      have aff: "snd (from_conn D conn1) = Sqlite" if "affinity \<noteq> []" using rs fc that by (auto split: if_splits)
      have "map_res (Pair (map (column_field first affinity) [0..<length (row_columns first)]))
          (try_map (decode_row (length (row_columns first))) (first # others)) = Inr (cols, rows)"
        using assms Pair Inr Cons fc rs by (simp add: fetch_def Let_def del: try_map.simps)
      then have "cols = map (column_field first affinity) [0..<length (row_columns first)]"
        "try_map (decode_row (length (row_columns first))) (first # others) = Inr rows"
        by (auto simp del: try_map.simps)
      with Pair Inr Cons aff that(2) show ?thesis by blast
    qed
  qed
qed

lemma map_nth_fst: "map (\<lambda>i. fst (xs ! i)) [0..<length xs] = map fst xs"
  by (rule nth_equalityI) simp_all

lemma fetch_empty: "fetch D conn sql = (conn', Inr (cols, [])) \<Longrightarrow> cols = []"
proof (erule fetch_Inr)
  fix conn1 first others affinity
  assume "try_map (decode_row (length (row_columns first))) (first # others) = Inr []"
  then show "cols = []" by (simp only: try_map_Inr) simp
qed

lemma decode_row_Inr:
  "decode_row n row = Inr vals \<Longrightarrow> length vals = n \<and> (\<forall>j < n. decode_cell row j = Inr (vals ! j))"
  by (auto simp: decode_row_def try_map_Inr list_all2_conv_all_nth)

text \<open>
  A fetched result is rectangular and complete: one row per row of the backend, in order, every
  row as long as the column list, cell \<open>j\<close> of row \<open>i\<close> the decoding of that cell, and the columns
  named as in the first row; a result without rows has no columns either.
\<close>

theorem fetch_shape:
  assumes "fetch D conn sql = (conn', Inr (cols, rows))"
  shows "\<exists>conn1 brows. dv_fetch_all D conn sql = (conn1, Inr brows) \<and> length rows = length brows \<and>
    (if brows = [] then cols = [] else map fm_name cols = map fst (row_columns (hd brows))) \<and>
    (\<forall>i < length rows. length (rows ! i) = length cols \<and>
       (\<forall>j < length cols. decode_cell (brows ! i) j = Inr (rows ! i ! j)))"
  using assms
proof (cases rule: fetch_Inr)
  case 1
  then show ?thesis by simp
next
  case (2 conn1 first others affinity)
  let ?n = "length (row_columns first)"
  from 2(3) have l2: "list_all2 (\<lambda>row vals. decode_row ?n row = Inr vals) (first # others) rows"
    by (simp only: try_map_Inr)
  then have "length rows = length (first # others)" by (rule list_all2_lengthD [symmetric])
  moreover have "length (rows ! i) = ?n \<and> (\<forall>j < ?n. decode_cell ((first # others) ! i) j = Inr (rows ! i ! j))"
    if "i < length rows" for i
    using decode_row_Inr list_all2_nthD2 [OF l2 that] by blast
  moreover have "map fm_name cols = map fst (row_columns first)"
    unfolding 2(2) by (simp add: column_field_def comp_def map_nth_fst)
  ultimately show ?thesis using 2(1,2) by auto
qed

text \<open>A raw value of a kind, and a driver over a one-row table, for the concrete instances.\<close>

definition raw_int :: "64 word \<Rightarrow> raw_value" where
  "raw_int n = \<lparr>rv_null = False, rv_kind = KBigInt, rv_bool = Inl ''type'', rv_i16 = Inl ''type'',
     rv_i32 = Inl ''type'', rv_i64 = Inr n, rv_f32 = Inl ''type'', rv_f64 = Inl ''type'',
     rv_string = Inl ''type'', rv_bytes = Inl ''type''\<rparr>"

definition id_row :: "64 word \<Rightarrow> any_row" where
  "id_row n = \<lparr>row_columns = [(''id'', KBigInt)], row_raw = (\<lambda>i. if i = 0 then Inr (raw_int n) else Inl ''index''),
     row_string = (\<lambda>i. Inl ''type''), row_i64 = (\<lambda>c. if c = ''id'' then Inr n else Inl ''no column'')\<rparr>"

text \<open>SQLite with one table of one row, and a server that is not SQLite, with a counter of the statements run.\<close>

definition sample_driver :: "bool \<Rightarrow> nat driver" where
  "sample_driver sqlite = \<lparr>dv_acquire = Inr 0, dv_fetch_all = (\<lambda>c s. (c, Inr [id_row 5])),
     dv_fetch_optional = (\<lambda>c s. (c, if sqlite then Inr None else Inl ''no such table'')),
     dv_fetch_one = (\<lambda>c s. (c, Inr (id_row 5))), dv_execute = (\<lambda>c s. (c + 1, Inr (1, Some 7)))\<rparr>"

lemma fetch_sample:
  "fetch (sample_driver False) c sql =
    (c, Inr ([\<lparr>fm_name = ''id'', fm_kind = KBigInt\<rparr>], [[Some (VBigInt 5)]]))"
  by (simp add: fetch_def sample_driver_def id_row_def from_conn_def column_field_def column_kind_def get_def
      decode_row_def decode_cell_def raw_int_def decode_as_def)

theorem fetch_shape_witness:
  "\<exists>conn1 brows. dv_fetch_all (sample_driver False) 0 ''SELECT id FROM t'' = (conn1, Inr brows) \<and> length brows = 1"
proof -
  have "fetch (sample_driver False) 0 ''SELECT id FROM t'' =
      (0, Inr ([\<lparr>fm_name = ''id'', fm_kind = KBigInt\<rparr>], [[Some (VBigInt 5)]]))"
    by (rule fetch_sample)
  from fetch_shape [OF this] show ?thesis by auto
qed

section \<open>Failures\<close>

lemma decode_cell_fails: "decode_cell row j = Inl f \<Longrightarrow> \<exists>m. f = Err (Backend m)"
  by (auto simp: decode_cell_def decode_as_def backend_err_def split: sum.splits if_splits type_kind.splits)

lemma decode_row_fails: "decode_row n row = Inl f \<Longrightarrow> \<exists>m. f = Err (Backend m)"
  unfolding decode_row_def using try_map_Inl decode_cell_fails by blast

lemma query_error_short: "\<exists>m. query_error e sql = Err (Backend m) \<and> length m \<le> length e + 211"
  using length_shorten [of 200 sql] by (simp add: query_error_def sql_snippet_def)

lemma fetch_fails: "fetch D conn sql = (conn', Inl f) \<Longrightarrow> \<exists>m. f = Err (Backend m)"
proof -
  assume a: "fetch D conn sql = (conn', Inl f)"
  obtain conn1 r where q: "dv_fetch_all D conn sql = (conn1, r)" by (cases "dv_fetch_all D conn sql")
  show ?thesis
  proof (cases r)
    case (Inl e)
    with a q query_error_short [of e sql] show ?thesis by (auto simp: fetch_def)
  next
    case (Inr rows)
    with a q have "\<exists>n. try_map (decode_row n) rows = Inl f"
      by (auto simp: fetch_def Let_def split: list.splits prod.splits simp del: try_map.simps)
    then show ?thesis using try_map_Inl decode_row_fails by blast
  qed
qed

lemma describe_fails: "describe D conn sql = (conn', Inl f) \<Longrightarrow> \<exists>m. f = Err (Backend m)"
  by (auto simp: describe_def split: prod.splits sum.splits if_splits dest: fetch_fails)

lemma execute_fails:
  "execute D conn sql = (conn', Inl f) \<Longrightarrow>
   \<exists>e. dv_execute D conn sql = (conn', Inl e) \<and> f = query_error e sql"
  by (auto simp: execute_def split: prod.splits sum.splits if_splits)

section \<open>The extra statements the proxy runs\<close>

text \<open>
  The proxy's own probes (the dialect test, \<open>last_insert_rowid()\<close>, the catalog pragma) are reads: what
  the proxy relies on is that a database does not change under them.
\<close>

definition quiet_probes :: "'db driver \<Rightarrow> bool" where
  "quiet_probes D \<longleftrightarrow>
     (\<forall>c. fst (dv_fetch_optional D c ''SELECT count(*) FROM sqlite_master'') = c) \<and>
     (\<forall>c. fst (dv_fetch_optional D c ''SELECT version()'') = c) \<and>
     (\<forall>c. fst (dv_fetch_one D c ''SELECT last_insert_rowid() AS id'') = c) \<and>
     (\<forall>c t. fst (dv_fetch_all D c (table_info t)) = c)"

lemma from_conn_quiet: "quiet_probes D \<Longrightarrow> fst (from_conn D c) = c"
  unfolding quiet_probes_def from_conn_def by (auto split: prod.splits sum.splits) (metis fst_conv)+

lemma last_rowid_quiet: "quiet_probes D \<Longrightarrow> fst (last_rowid D c n) = c"
  unfolding quiet_probes_def last_rowid_def by (auto split: prod.splits sum.splits) (metis fst_conv)+

lemma table_affinities_quiet: "quiet_probes D \<Longrightarrow> fst (table_affinities D c m ts) = c"
proof (induction D c m ts rule: table_affinities.induct)
  case (2 D c m t ts)
  obtain c1 r where q: "dv_fetch_all D c (table_info t) = (c1, r)" by (cases "dv_fetch_all D c (table_info t)")
  then have "c1 = c" using 2(3) unfolding quiet_probes_def by (metis fst_conv)
  with q 2 show ?case by (cases r) simp_all
qed simp

lemma resolve_quiet: "quiet_probes D \<Longrightarrow> fst (resolve_sqlite_column_kinds D c sql n) = c"
  using table_affinities_quiet [of D c Map.empty "sqlite_tables_in_query sql"]
  by (auto simp: resolve_sqlite_column_kinds_def Let_def split: prod.splits)

lemma fetch_quiet: "quiet_probes D \<Longrightarrow> fst (fetch D c sql) = fst (dv_fetch_all D c sql)"
proof -
  assume quiet: "quiet_probes D"
  obtain c1 r where q: "dv_fetch_all D c sql = (c1, r)" by (cases "dv_fetch_all D c sql")
  obtain c2 dia where f: "from_conn D c1 = (c2, dia)" by (cases "from_conn D c1")
  then have "c2 = c1" using from_conn_quiet [OF quiet, of c1] by simp
  then show ?thesis
    using q f resolve_quiet [OF quiet, of c1 sql]
    by (auto simp: fetch_def Let_def split: sum.splits list.splits prod.splits) (metis fst_conv)+
qed

lemma reapply_quiet: "quiet_probes D \<Longrightarrow> fst (reapply_sqlite_kinds D c sql cols) = c"
  using from_conn_quiet [of D c] resolve_quiet [of D c sql "length cols"]
  by (auto simp: reapply_sqlite_kinds_def split: prod.splits)

lemma execute_quiet: "quiet_probes D \<Longrightarrow> fst (execute D c sql) = fst (dv_execute D c sql)"
proof -
  assume quiet: "quiet_probes D"
  obtain c1 r where q: "dv_execute D c sql = (c1, r)" by (cases "dv_execute D c sql")
  obtain c2 dia where f: "from_conn D c1 = (c2, dia)" by (cases "from_conn D c1")
  then have c2: "c2 = c1" using from_conn_quiet [OF quiet, of c1] by simp
  show ?thesis
  proof (cases r)
    case (Inl e)
    with q show ?thesis by (simp add: execute_def)
  next
    case (Inr p)
    obtain n lid where p: "p = (n, lid)" by (cases p)
    obtain c3 l where l: "last_rowid D c1 lid = (c3, l)" by (cases "last_rowid D c1 lid")
    then have "c3 = c1" using last_rowid_quiet [OF quiet, of c1 lid] by simp
    then show ?thesis using q f c2 Inr p l by (simp add: execute_def)
  qed
qed

text \<open>
  When the proxy's probes are reads of the database, fetching and executing have on it exactly the
  effect of the one statement they were given, on every backend and whether or not the statement or
  a probe fails; and describing a statement whose two wrapped forms are reads leaves it unchanged.
\<close>

theorem proxy_statements_only_read:
  assumes "quiet_probes D"
  shows "fst (fetch D conn sql) = fst (dv_fetch_all D conn sql) \<and>
    fst (execute D conn sql) = fst (dv_execute D conn sql) \<and>
    ((\<forall>c. fst (dv_fetch_all D c (probe_sql sql)) = c) \<and> (\<forall>c. fst (dv_fetch_all D c (forced_sql sql)) = c) \<longrightarrow>
     fst (describe D conn sql) = conn)"
proof -
  have "fst (describe D conn sql) = conn"
    if "\<forall>c. fst (dv_fetch_all D c (probe_sql sql)) = c" "\<forall>c. fst (dv_fetch_all D c (forced_sql sql)) = c"
    using that fetch_quiet [OF assms, of _ "probe_sql sql"] fetch_quiet [OF assms, of _ "forced_sql sql"]
      reapply_quiet [OF assms, of _ sql]
    unfolding describe_def by (auto split: prod.splits sum.splits) (metis fst_conv)+
  then show ?thesis using fetch_quiet [OF assms] execute_quiet [OF assms] by blast
qed

lemma sample_driver_quiet: "quiet_probes (sample_driver b)"
  by (simp add: quiet_probes_def sample_driver_def)

theorem proxy_statements_only_read_witness:
  "fst (execute (sample_driver True) 3 ''DELETE FROM t'') = 4"
  using proxy_statements_only_read [OF sample_driver_quiet, of True 3 "''DELETE FROM t''"]
  by (simp add: sample_driver_def)

text \<open>
  Every failure of the backend layer is an error value, never a panic: fetching and describing fail
  only with a \<open>Backend\<close> error; executing fails exactly when the driver does, the message quotes at
  most 200 characters of the statement, and the failures of the probes that follow a successful
  statement are never reported as its failure.
\<close>

theorem backend_failures:
  "(\<forall>f. snd (fetch D conn sql) = Inl f \<longrightarrow> (\<exists>m. f = Err (Backend m))) \<and>
   (\<forall>f. snd (describe D conn sql) = Inl f \<longrightarrow> (\<exists>m. f = Err (Backend m))) \<and>
   (case snd (dv_execute D conn sql) of
      Inl e \<Rightarrow> \<exists>m. snd (execute D conn sql) = Inl (Err (Backend m)) \<and> length m \<le> length e + 211
    | Inr (affected, driver_id) \<Rightarrow> \<exists>lid. snd (execute D conn sql) = Inr (affected, lid))"
proof -
  have "case snd (dv_execute D conn sql) of
      Inl e \<Rightarrow> \<exists>m. snd (execute D conn sql) = Inl (Err (Backend m)) \<and> length m \<le> length e + 211
    | Inr (affected, driver_id) \<Rightarrow> \<exists>lid. snd (execute D conn sql) = Inr (affected, lid)"
  proof (cases "dv_execute D conn sql")
    case (Pair c1 r)
    then show ?thesis
      using query_error_short [of _ sql]
      by (cases r) (auto simp: execute_def split: prod.splits)
  qed
  moreover have "\<exists>m. f = Err (Backend m)" if "snd (fetch D conn sql) = Inl f" for f
    using that fetch_fails [of D conn sql "fst (fetch D conn sql)" f] by (cases "fetch D conn sql") simp
  moreover have "\<exists>m. f = Err (Backend m)" if "snd (describe D conn sql) = Inl f" for f
    using that describe_fails [of D conn sql "fst (describe D conn sql)" f] by (cases "describe D conn sql") simp
  ultimately show ?thesis by blast
qed

theorem backend_failures_witness:
  "\<exists>m. snd (execute (sample_driver False\<lparr>dv_execute := \<lambda>c s. (c, Inl ''locked'')\<rparr>) 0 ''DELETE FROM t'') =
     Inl (Err (Backend m))"
  using backend_failures [of "sample_driver False\<lparr>dv_execute := \<lambda>c s. (c, Inl ''locked'')\<rparr>" 0 "''DELETE FROM t''"]
  by simp blast

text \<open>
  The generated id of a statement is SQLite's \<open>last_insert_rowid()\<close> when the backend is SQLite and
  that id can be read and is not zero, and the driver's own id in every other case. The dialect test
  answers SQLite exactly when the catalog table can be read; MySQL needs \<open>version()\<close> to fail, so a MySQL
  server, which has that function, is taken for PostgreSQL.
\<close>

theorem execute_last_insert_id:
  assumes "dv_execute D conn sql = (conn1, Inr (affected, driver_id))"
    "dv_fetch_optional D conn1 ''SELECT count(*) FROM sqlite_master'' = (conn2, catalog)"
  shows "(case catalog of
      Inr r \<Rightarrow> from_conn D conn1 = (conn2, Sqlite) \<and>
        (case dv_fetch_one D conn2 ''SELECT last_insert_rowid() AS id'' of (conn3, answer) \<Rightarrow>
           execute D conn sql = (conn3, Inr (affected,
             case answer of
               Inr row \<Rightarrow> (case row_i64 row ''id'' of Inr v \<Rightarrow> if v \<noteq> 0 then Some v else driver_id | Inl e \<Rightarrow> driver_id)
             | Inl e \<Rightarrow> driver_id)))
    | Inl e \<Rightarrow> snd (execute D conn sql) = Inr (affected, driver_id) \<and>
        (snd (from_conn D conn1) = Mysql \<longleftrightarrow> (\<exists>e. snd (dv_fetch_optional D conn2 ''SELECT version()'') = Inl e)))"
  using assms
  by (auto simp: execute_def from_conn_def last_rowid_def split: sum.splits prod.splits)

theorem execute_last_insert_id_witness:
  "snd (execute (sample_driver True) 0 ''INSERT INTO t VALUES (1)'') = Inr (1, Some 5)"
proof -
  have e: "dv_execute (sample_driver True) 0 ''INSERT INTO t VALUES (1)'' = (1, Inr (1, Some 7))"
    and f: "dv_fetch_optional (sample_driver True) 1 ''SELECT count(*) FROM sqlite_master'' = (1, Inr None)"
    by (simp_all add: sample_driver_def)
  from execute_last_insert_id [OF e f] show ?thesis by (simp add: sample_driver_def id_row_def)
qed

section \<open>Kinds of columns\<close>

lemma names_reapply: "map fm_name (snd (reapply_sqlite_kinds D conn sql cols)) = map fm_name cols"
proof -
  have "map fm_name (map (override_kind resolved) (enumerate 0 cols)) = map fm_name cols" for resolved
    by (rule nth_equalityI)
      (auto simp: override_kind_def nth_enumerate_eq split: option.splits)
  then show ?thesis by (auto simp: reapply_sqlite_kinds_def split: prod.splits)
qed

text \<open>
  A description lists the columns of one of its two probes: those of the wrapped query when it has
  a row, otherwise those of the forced all-null row, with the names as the backend reports them; the
  kinds are the catalog's where it resolves them. When neither probe has a row there are no columns.
\<close>

theorem describe_columns:
  assumes "describe D conn sql = (conn', Inr cols)"
  shows "\<exists>conn1 cols1 rows1. fetch D conn (probe_sql sql) = (conn1, Inr (cols1, rows1)) \<and>
    (if rows1 \<noteq> [] then cols = snd (reapply_sqlite_kinds D conn1 sql cols1) \<and> map fm_name cols = map fm_name cols1
     else \<exists>conn2 conn3 cols2 rows2. fetch D conn2 (forced_sql sql) = (conn3, Inr (cols2, rows2)) \<and>
       cols = snd (reapply_sqlite_kinds D conn3 sql cols2) \<and> map fm_name cols = map fm_name cols2 \<and>
       (rows2 = [] \<longrightarrow> cols = []))"
proof -
  obtain c1 r1 where f1: "fetch D conn (probe_sql sql) = (c1, r1)" by (cases "fetch D conn (probe_sql sql)")
  with assms obtain cols1 rows1 where r1: "r1 = Inr (cols1, rows1)"
    by (cases r1) (auto simp: describe_def)
  obtain c2 cols1' where re1: "reapply_sqlite_kinds D c1 sql cols1 = (c2, cols1')"
    by (cases "reapply_sqlite_kinds D c1 sql cols1")
  note n1 = names_reapply [of D c1 sql cols1]
  show ?thesis
  proof (cases "rows1 = []")
    case False
    then show ?thesis using assms f1 r1 re1 n1 by (auto simp: describe_def)
  next
    case True
    then have e1: "cols1 = []" using f1 r1 fetch_empty [of D conn "probe_sql sql" c1 cols1] by simp
    obtain c3 r2 where f2: "fetch D c2 (forced_sql sql) = (c3, r2)" by (cases "fetch D c2 (forced_sql sql)")
    with assms f1 r1 re1 True obtain cols2 rows2 where r2: "r2 = Inr (cols2, rows2)"
      by (cases r2) (auto simp: describe_def)
    obtain c4 cols2' where re2: "reapply_sqlite_kinds D c3 sql cols2 = (c4, cols2')"
      by (cases "reapply_sqlite_kinds D c3 sql cols2")
    note n2 = names_reapply [of D c3 sql cols2]
    have "rows2 = [] \<Longrightarrow> cols2 = []" using f2 r2 fetch_empty [of D c2 "forced_sql sql" c3 cols2] by simp
    then have "cols = cols2'"
      using assms f1 r1 re1 True f2 r2 re2 n1 n2 e1 by (auto simp: describe_def split: if_splits)
    then have "fetch D c2 (forced_sql sql) = (c3, Inr (cols2, rows2)) \<and>
       cols = snd (reapply_sqlite_kinds D c3 sql cols2) \<and> map fm_name cols = map fm_name cols2 \<and>
       (rows2 = [] \<longrightarrow> cols = [])"
      using f2 r2 re2 n2 \<open>rows2 = [] \<Longrightarrow> cols2 = []\<close> by auto
    then have "\<exists>conn2 conn3 cols2 rows2. fetch D conn2 (forced_sql sql) = (conn3, Inr (cols2, rows2)) \<and>
       cols = snd (reapply_sqlite_kinds D conn3 sql cols2) \<and> map fm_name cols = map fm_name cols2 \<and>
       (rows2 = [] \<longrightarrow> cols = [])"
      by (intro exI)
    with True show ?thesis by (intro exI [of _ c1] exI [of _ cols1] exI [of _ rows1]) (simp add: f1 r1)
  qed
qed

theorem describe_columns_witness:
  "\<exists>c1 cols1 rows1. fetch (sample_driver False) 0 (probe_sql ''SELECT id FROM t'') = (c1, Inr (cols1, rows1)) \<and>
     map fm_name cols1 = [''id'']"
proof -
  have d: "describe (sample_driver False) 0 ''SELECT id FROM t'' =
      (0, Inr [\<lparr>fm_name = ''id'', fm_kind = KBigInt\<rparr>])"
    by (simp add: describe_def fetch_sample reapply_sqlite_kinds_def from_conn_def) (simp add: sample_driver_def)
  from describe_columns [OF d] show ?thesis by (force simp: fetch_sample)
qed

end
