(* ===== verification/Session.thy ===== *)
theory Session
  imports Backend_Exec
begin

text \<open>
  The session half of \<open>src/server/common.rs\<close>: the state of one wire connection, its lazily acquired
  backend connection, the last insert id, and the outcome of a statement. The mutex and the atomic
  are sequential here: a handler holds the connection's lock for a whole script.
\<close>

section \<open>Outcomes\<close>

datatype outcome =
    Rows "field_meta list" "cell list list"
  | Affected "64 word" "64 word option" string
      \<comment> \<open>rows_affected, last_insert_id, command\<close>

fun is_rows :: "outcome \<Rightarrow> bool" where
  "is_rows (Rows cols rows) \<longleftrightarrow> True"
| "is_rows (Affected n lid command) \<longleftrightarrow> False"

section \<open>Sessions\<close>

record 'db session =
  ss_dialect :: target_dialect   \<comment> \<open>\<open>session.backend.dialect()\<close>\<close>
  ss_conn :: "'db option"
  ss_translator :: translator
  ss_last_insert_id :: "64 word"

definition new_session :: "target_dialect \<Rightarrow> translator \<Rightarrow> 'db session" where
  "new_session dialect tr =
     \<lparr>ss_dialect = dialect, ss_conn = None, ss_translator = tr, ss_last_insert_id = 0\<rparr>"

definition connection :: "'db driver \<Rightarrow> 'db session \<Rightarrow> 'db session \<times> 'db res" where
  "connection D s =
     (case ss_conn s of
        Some conn \<Rightarrow> (s, Inr conn)
      | None \<Rightarrow>
          (case acquire_owned D of
             Inl f \<Rightarrow> (s, Inl f)
           | Inr conn \<Rightarrow> (s\<lparr>ss_conn := Some conn\<rparr>, Inr conn)))"

definition set_last_insert_id :: "'db session \<Rightarrow> 64 word \<Rightarrow> 'db session" where
  "set_last_insert_id s n = (if 0 < sint n then s\<lparr>ss_last_insert_id := n\<rparr> else s)"

definition get_last_insert_id :: "'db session \<Rightarrow> 64 word" where
  "get_last_insert_id s = ss_last_insert_id s"

lemma set_last_insert_id_frame [simp]:
  "ss_dialect (set_last_insert_id s n) = ss_dialect s"
  "ss_conn (set_last_insert_id s n) = ss_conn s"
  "ss_translator (set_last_insert_id s n) = ss_translator s"
  by (simp_all add: set_last_insert_id_def)

lemma set_last_insert_id_get:
  "get_last_insert_id (set_last_insert_id s n) = (if 0 < sint n then n else get_last_insert_id s)"
  by (simp add: set_last_insert_id_def get_last_insert_id_def)

section \<open>Running a list of commands\<close>

text \<open>
  \<open>for c in commands { outcomes.push(step(c)?) }\<close> over a state: the outcomes in order, or the first
  failure, with the state as the steps left it.
\<close>

fun run_steps :: "('s \<Rightarrow> 'c \<Rightarrow> 's \<times> 'o res) \<Rightarrow> 's \<Rightarrow> 'c list \<Rightarrow> 's \<times> 'o list res" where
  "run_steps step s [] = (s, Inr [])"
| "run_steps step s (c # cs) =
     (case step s c of
        (s1, Inl f) \<Rightarrow> (s1, Inl f)
      | (s1, Inr out) \<Rightarrow>
          (case run_steps step s1 cs of
             (s2, Inl f) \<Rightarrow> (s2, Inl f)
           | (s2, Inr outs) \<Rightarrow> (s2, Inr (out # outs))))"

text \<open>
  What a step function promises a script: it keeps an invariant of the state, and each outcome it
  gives fits its command.
\<close>

locale stepper =
  fixes step :: "'s \<Rightarrow> 'c \<Rightarrow> 's \<times> 'o res"
    and inv :: "'s \<Rightarrow> bool"
    and fits :: "'c \<Rightarrow> 'o \<Rightarrow> bool"
  assumes step_inv: "inv s \<Longrightarrow> inv (fst (step s c))"
    and step_fits: "inv s \<Longrightarrow> snd (step s c) = Inr out \<Longrightarrow> fits c out"
begin

lemma run_inv: "inv s \<Longrightarrow> inv (fst (run_steps step s cs))"
proof (induction cs arbitrary: s)
  case (Cons c cs)
  obtain s1 r where st: "step s c = (s1, r)" by (cases "step s c")
  then have i: "inv s1" using step_inv [OF Cons.prems, of c] by simp
  with Cons.IH [OF i] st show ?case by (auto split: sum.splits prod.splits)
qed simp

lemma run_fits: "inv s \<Longrightarrow> snd (run_steps step s cs) = Inr outs \<Longrightarrow> list_all2 fits cs outs"
proof (induction cs arbitrary: s outs)
  case (Cons c cs)
  obtain s1 r where st: "step s c = (s1, r)" by (cases "step s c")
  then have i: "inv s1" using step_inv [OF Cons.prems(1), of c] by simp
  from Cons.prems(2) st obtain out outs' where
    o: "r = Inr out" "snd (run_steps step s1 cs) = Inr outs'" "outs = out # outs'"
    by (auto split: sum.splits prod.splits)
  then show ?case using Cons.IH [OF i o(2)] step_fits [OF Cons.prems(1), of c out] st by simp
qed simp

lemma run_append:
  "run_steps step s (cs @ ds) =
     (case run_steps step s cs of
        (s1, Inl f) \<Rightarrow> (s1, Inl f)
      | (s1, Inr outs) \<Rightarrow>
          (case run_steps step s1 ds of (s2, Inl f) \<Rightarrow> (s2, Inl f) | (s2, Inr outs') \<Rightarrow> (s2, Inr (outs @ outs'))))"
  by (induction cs arbitrary: s) (auto split: sum.splits prod.splits)

text \<open>A failing script stops at a command: those before it ran, those after it did not.\<close>

lemma run_fails:
  "inv s \<Longrightarrow> snd (run_steps step s cs) = Inl f \<Longrightarrow>
   \<exists>done c rest s1 outs. cs = done @ c # rest \<and> run_steps step s done = (s1, Inr outs) \<and> inv s1 \<and>
     step s1 c = (fst (run_steps step s cs), Inl f) \<and> list_all2 fits done outs"
proof (induction cs arbitrary: s)
  case (Cons c cs)
  obtain s1 r where st: "step s c = (s1, r)" by (cases "step s c")
  show ?case
  proof (cases r)
    case (Inl g)
    with st Cons.prems have "step s c = (fst (run_steps step s (c # cs)), Inl f)" by simp
    with Cons.prems(1) show ?thesis by (intro exI [of _ "[]"]) auto
  next
    case (Inr out)
    have i: "inv s1" using st step_inv [OF Cons.prems(1), of c] by simp
    have fl: "snd (run_steps step s1 cs) = Inl f" and
      eq: "fst (run_steps step s (c # cs)) = fst (run_steps step s1 cs)"
      using Cons.prems(2) st Inr by (auto split: sum.splits prod.splits)
    from Cons.IH [OF i fl] obtain "done" d rest s2 outs where
      h: "cs = done @ d # rest" "run_steps step s1 done = (s2, Inr outs)" "inv s2"
      "step s2 d = (fst (run_steps step s1 cs), Inl f)" "list_all2 fits done outs" by blast
    have "run_steps step s (c # done) = (s2, Inr (out # outs))" using st Inr h(2) by simp
    moreover have "fits c out" using step_fits [OF Cons.prems(1), of c out] st Inr by simp
    ultimately show ?thesis unfolding eq
      using h by (intro exI [of _ "c # done"] exI [of _ d] exI [of _ rest] exI [of _ s2] exI [of _ "out # outs"]) simp
  qed
qed simp

end

end
