(* ===== verification/Ast_Names.thy ===== *)
theory Ast_Names
  imports Prelude
begin

text \<open>Identifiers and object names of sqlparser's tree.\<close>

record ident =
  id_value :: string
  id_quote :: "char option"

definition ident_new :: "string \<Rightarrow> ident" where
  "ident_new s = \<lparr>id_value = s, id_quote = None\<rparr>"

type_synonym object_name = "ident list"

definition object_name_from :: "ident \<Rightarrow> object_name" where
  "object_name_from i = [i]"

end
