(* ===== verification/Ast_Expr.thy ===== *)
theory Ast_Expr
  imports Ast_Names
begin

text \<open>
  The part of sqlparser's syntax tree the sources look at or build. sqlparser is not under src/; the
  constructors and fields here are those the sources name, and everything else of a node is a value
  of the type variable \<open>'x\<close>: the sources carry it, and no definition can inspect it. A variant the
  sources do not name is an \<open>Other\<close> constructor with its payload and its direct subexpressions.

  What sqlparser computes (parsing, printing, traversal) is a record of functions, \<open>sqlparser\<close>, an
  argument of the definitions that use it.
\<close>

section \<open>Expressions\<close>

datatype (dead 'x) sql_value =
    Number string bool
  | NullValue
  | Placeholder string
  | OtherValue 'x

datatype (dead 'x) binary_operator =
    StringConcat | Eq | NotEq | Lt | LtEq | Gt | GtEq | OtherBinary 'x

datatype (dead 'x) cast_kind = Cast | DoubleColon | OtherCast 'x

datatype (dead 'x) expr =
    Identifier ident
  | CompoundIdentifier "ident list"
  | ValueExpr "'x sql_value"
  | BinaryOp "'x expr" "'x binary_operator" "'x expr"
  | UnaryOp 'x "'x expr"
  | Nested "'x expr"
  | CastExpr "'x cast_kind" "'x expr" 'x "'x option" bool
      \<comment> \<open>kind, expr, data_type, format, array\<close>
  | Like bool bool "'x expr" "'x expr" "'x option"
      \<comment> \<open>negated, any, expr, pattern, escape_char\<close>
  | ILike bool bool "'x expr" "'x expr" "'x option"
  | InList "'x expr" "'x expr list" 'x
  | Between "'x expr" "'x expr" "'x expr" 'x
      \<comment> \<open>expr, low, high\<close>
  | Function "'x func"
  | OtherExpr 'x "'x expr list"
and (dead 'x) func =
    Func object_name bool "'x fn_args" "'x fn_args" "'x expr option" "'x option" "'x option" "'x list"
      \<comment> \<open>name, uses_odbc_syntax, parameters, args, filter, null_treatment, over, within_group\<close>
and (dead 'x) fn_args =
    NoArgs
  | SubqueryArgs 'x
  | ListArgs "'x option" "'x fn_arg list" "'x list"
      \<comment> \<open>duplicate_treatment, args, clauses\<close>
and (dead 'x) fn_arg =
    Unnamed "'x expr"
      \<comment> \<open>\<open>FunctionArg::Unnamed(FunctionArgExpr::Expr(e))\<close>\<close>
  | OtherArg 'x "'x expr list"

fun fn_name :: "'x func \<Rightarrow> object_name" where
  "fn_name (Func n odbc ps args fl nt ov wg) = n"

fun fn_arguments :: "'x func \<Rightarrow> 'x fn_args" where
  "fn_arguments (Func n odbc ps args fl nt ov wg) = args"

text \<open>\<open>expr_all P e\<close>: \<open>P\<close> holds of \<open>e\<close> and of every expression inside it.\<close>

fun expr_all :: "('x expr \<Rightarrow> bool) \<Rightarrow> 'x expr \<Rightarrow> bool"
  and func_all :: "('x expr \<Rightarrow> bool) \<Rightarrow> 'x func \<Rightarrow> bool"
  and args_all :: "('x expr \<Rightarrow> bool) \<Rightarrow> 'x fn_args \<Rightarrow> bool"
  and arg_all :: "('x expr \<Rightarrow> bool) \<Rightarrow> 'x fn_arg \<Rightarrow> bool"
where
  "expr_all P (Identifier i) \<longleftrightarrow> P (Identifier i)"
| "expr_all P (CompoundIdentifier is) \<longleftrightarrow> P (CompoundIdentifier is)"
| "expr_all P (ValueExpr v) \<longleftrightarrow> P (ValueExpr v)"
| "expr_all P (BinaryOp l oper r) \<longleftrightarrow> P (BinaryOp l oper r) \<and> expr_all P l \<and> expr_all P r"
| "expr_all P (UnaryOp oper e) \<longleftrightarrow> P (UnaryOp oper e) \<and> expr_all P e"
| "expr_all P (Nested e) \<longleftrightarrow> P (Nested e) \<and> expr_all P e"
| "expr_all P (CastExpr k e dt fmt arr) \<longleftrightarrow> P (CastExpr k e dt fmt arr) \<and> expr_all P e"
| "expr_all P (Like n a e p c) \<longleftrightarrow> P (Like n a e p c) \<and> expr_all P e \<and> expr_all P p"
| "expr_all P (ILike n a e p c) \<longleftrightarrow> P (ILike n a e p c) \<and> expr_all P e \<and> expr_all P p"
| "expr_all P (InList e es x) \<longleftrightarrow> P (InList e es x) \<and> expr_all P e \<and> (\<forall>d \<in> set es. expr_all P d)"
| "expr_all P (Between e lo hi x) \<longleftrightarrow>
     P (Between e lo hi x) \<and> expr_all P e \<and> expr_all P lo \<and> expr_all P hi"
| "expr_all P (Function f) \<longleftrightarrow> P (Function f) \<and> func_all P f"
| "expr_all P (OtherExpr x es) \<longleftrightarrow> P (OtherExpr x es) \<and> (\<forall>d \<in> set es. expr_all P d)"
| "func_all P (Func n odbc ps args fl nt ov wg) \<longleftrightarrow>
     args_all P ps \<and> args_all P args \<and> (\<forall>e \<in> set_option fl. expr_all P e)"
| "args_all P NoArgs \<longleftrightarrow> True"
| "args_all P (SubqueryArgs x) \<longleftrightarrow> True"
| "args_all P (ListArgs dup as cl) \<longleftrightarrow> (\<forall>a \<in> set as. arg_all P a)"
| "arg_all P (Unnamed e) \<longleftrightarrow> expr_all P e"
| "arg_all P (OtherArg x es) \<longleftrightarrow> (\<forall>d \<in> set es. expr_all P d)"

lemma expr_all_head: "expr_all P e \<Longrightarrow> P e"
  by (cases e) simp_all

text \<open>
  sqlparser documents \<open>VisitorMut::post_visit_expr\<close> as called on every expression after its
  children. \<open>bottom_up f\<close> states that contract on the expressions of the model; it is the
  specification a traversal is assumed to meet, not a translation of sqlparser.
\<close>

fun bottom_up :: "('x expr \<Rightarrow> 'x expr) \<Rightarrow> 'x expr \<Rightarrow> 'x expr"
  and bottom_up_func :: "('x expr \<Rightarrow> 'x expr) \<Rightarrow> 'x func \<Rightarrow> 'x func"
  and bottom_up_args :: "('x expr \<Rightarrow> 'x expr) \<Rightarrow> 'x fn_args \<Rightarrow> 'x fn_args"
  and bottom_up_arg :: "('x expr \<Rightarrow> 'x expr) \<Rightarrow> 'x fn_arg \<Rightarrow> 'x fn_arg"
where
  "bottom_up f (Identifier i) = f (Identifier i)"
| "bottom_up f (CompoundIdentifier is) = f (CompoundIdentifier is)"
| "bottom_up f (ValueExpr v) = f (ValueExpr v)"
| "bottom_up f (BinaryOp l oper r) = f (BinaryOp (bottom_up f l) oper (bottom_up f r))"
| "bottom_up f (UnaryOp oper e) = f (UnaryOp oper (bottom_up f e))"
| "bottom_up f (Nested e) = f (Nested (bottom_up f e))"
| "bottom_up f (CastExpr k e dt fmt arr) = f (CastExpr k (bottom_up f e) dt fmt arr)"
| "bottom_up f (Like n a e p c) = f (Like n a (bottom_up f e) (bottom_up f p) c)"
| "bottom_up f (ILike n a e p c) = f (ILike n a (bottom_up f e) (bottom_up f p) c)"
| "bottom_up f (InList e es x) = f (InList (bottom_up f e) (map (bottom_up f) es) x)"
| "bottom_up f (Between e lo hi x) = f (Between (bottom_up f e) (bottom_up f lo) (bottom_up f hi) x)"
| "bottom_up f (Function fn) = f (Function (bottom_up_func f fn))"
| "bottom_up f (OtherExpr x es) = f (OtherExpr x (map (bottom_up f) es))"
| "bottom_up_func f (Func n odbc ps args fl nt ov wg) =
     Func n odbc (bottom_up_args f ps) (bottom_up_args f args) (map_option (bottom_up f) fl) nt ov wg"
| "bottom_up_args f NoArgs = NoArgs"
| "bottom_up_args f (SubqueryArgs x) = SubqueryArgs x"
| "bottom_up_args f (ListArgs dup as cl) = ListArgs dup (map (bottom_up_arg f) as) cl"
| "bottom_up_arg f (Unnamed e) = Unnamed (bottom_up f e)"
| "bottom_up_arg f (OtherArg x es) = OtherArg x (map (bottom_up f) es)"

text \<open>The direct parts of an expression, and \<open>expr_all\<close> one level at a time.\<close>

fun arg_parts :: "'x fn_arg \<Rightarrow> 'x expr list" where
  "arg_parts (Unnamed e) = [e]"
| "arg_parts (OtherArg x es) = es"

fun args_parts :: "'x fn_args \<Rightarrow> 'x expr list" where
  "args_parts (ListArgs dup as cl) = concat (map arg_parts as)"
| "args_parts as = []"

fun func_parts :: "'x func \<Rightarrow> 'x expr list" where
  "func_parts (Func n odbc ps args fl nt ov wg) =
     args_parts ps @ args_parts args @ (case fl of None \<Rightarrow> [] | Some e \<Rightarrow> [e])"

fun parts :: "'x expr \<Rightarrow> 'x expr list" where
  "parts (BinaryOp l oper r) = [l, r]"
| "parts (UnaryOp oper e) = [e]"
| "parts (Nested e) = [e]"
| "parts (CastExpr k e dt fmt arr) = [e]"
| "parts (Like n a e p c) = [e, p]"
| "parts (ILike n a e p c) = [e, p]"
| "parts (InList e es x) = e # es"
| "parts (Between e lo hi x) = [e, lo, hi]"
| "parts (Function f) = func_parts f"
| "parts (OtherExpr x es) = es"
| "parts e = []"

lemma arg_all_parts: "arg_all P a \<longleftrightarrow> (\<forall>d \<in> set (arg_parts a). expr_all P d)"
  by (cases a) simp_all

lemma args_all_parts: "args_all P as \<longleftrightarrow> (\<forall>d \<in> set (args_parts as). expr_all P d)"
  by (cases as) (auto simp: arg_all_parts)

lemma func_all_parts: "func_all P f \<longleftrightarrow> (\<forall>d \<in> set (func_parts f). expr_all P d)"
  by (cases f) (auto simp: args_all_parts split: option.splits)

lemma expr_all_parts: "expr_all P e \<longleftrightarrow> P e \<and> (\<forall>d \<in> set (parts e). expr_all P d)"
  by (cases e) (auto simp: func_all_parts)

text \<open>
  The rule every bottom-up rewrite is checked with: it is enough that one step turns an expression
  whose parts are good into a good one.
\<close>

lemma bottom_up_all:
  assumes step: "\<And>e. (\<forall>d \<in> set (parts e). expr_all P d) \<Longrightarrow> expr_all P (f e)"
  shows "expr_all P (bottom_up f e)"
    and "func_all P (bottom_up_func f fn)"
    and "args_all P (bottom_up_args f as)"
    and "arg_all P (bottom_up_arg f a)"
  by (induction e and fn and as and a)
    (auto intro!: step simp: func_all_parts args_all_parts arg_all_parts)

end
