(* ===== verification/Ast_Table.thy ===== *)
theory Ast_Table
  imports Ast_Names
begin

text \<open>
  The part of sqlparser's tree under \<open>CREATE TABLE\<close>: data types, column options, constraints. As in
  \<open>Ast_Expr\<close>, the variants and fields are those the sources name and \<open>'x\<close> is the rest.
\<close>

section \<open>CREATE TABLE\<close>

text \<open>
  The data types \<open>map_type\<close> names. A variant \<open>T(_)\<close> of \<open>DataType\<close>, whose length, precision or
  modifiers the sources never look at, is \<open>Sized T x\<close>; a variant without arguments is \<open>Plain T\<close>.
\<close>

datatype plain_type =
    Bool | Boolean
  | Float4 | Float32 | Float64 | Float8
  | DoublePrecision | DoublePrecisionUnsigned | Real | RealUnsigned
  | Text | TinyText | MediumText | LongText
  | TinyBlob | MediumBlob | LongBlob
  | JSON | JSONB | Bytea | Date | Uuid

datatype sized_type =
    IntType | Int4 | Integer | Int2 | SmallInt | TinyInt | MediumInt | Int8 | BigInt
  | IntUnsigned | Int4Unsigned | IntegerUnsigned | Int2Unsigned | SmallIntUnsigned
  | Int8Unsigned | BigIntUnsigned
  | Float | Double | DoubleUnsigned
  | Varchar | Char | Character | CharacterVarying | CharVarying | StringType | Clob
  | Binary | Varbinary | Blob | Bytes | Bit | BitVarying | VarBit
  | Numeric | Decimal | Dec | BigDecimal
  | Time | Datetime | Timestamp | TimestampNtz | Interval

datatype (dead 'x) data_type =
    Custom object_name "string list"
  | Plain plain_type
  | Sized sized_type 'x
  | OtherType 'x

datatype (dead 'x) token = TokWord string | OtherToken 'x

record 'x primary_key =
  pk_name :: "ident option"
  pk_index_name :: "ident option"
  pk_index_type :: "'x option"
  pk_columns :: "'x list"
  pk_index_options :: "'x list"
  pk_characteristics :: "'x option"

datatype (dead 'x) column_option =
    DialectSpecific "'x token list"
  | CommentOption 'x | CharacterSet 'x | Collation 'x | OnUpdate 'x
  | Check 'x | Generated 'x | DefaultOption 'x
  | PrimaryKey "'x primary_key"
  | NotNull | NullOption | Unique 'x | ForeignKey 'x
  | OtherOption 'x

record 'x column_option_def =
  opt_name :: "ident option"
  opt_option :: "'x column_option"

record 'x column_def =
  col_name :: ident
  col_data_type :: "'x data_type"
  col_options :: "'x column_option_def list"

datatype (dead 'x) table_constraint = PrimaryKeyConstraint "'x primary_key" | OtherConstraint 'x

record 'x create_table =
  ct_table_options :: "'x option"   \<comment> \<open>\<open>None\<close> is \<open>CreateTableOptions::None\<close>\<close>
  ct_or_replace :: bool
  ct_columns :: "'x column_def list"
  ct_constraints :: "'x table_constraint list"
  ct_rest :: 'x

end
