(* ===== verification/Ast.thy ===== *)
theory Ast
  imports Ast_Expr Ast_Table Dialect
begin

text \<open>
  Statements of sqlparser's tree, and the functions of the crate the sources call. As in
  \<open>Ast_Expr\<close>, the variants and fields are those the sources name and \<open>'x\<close> is the rest.
\<close>

section \<open>Statements\<close>

datatype (dead 'x) assignment_target = ColumnName object_name | TupleTarget 'x

record 'x assignment =
  as_target :: "'x assignment_target"
  as_value :: "'x expr"

record 'x offset_clause =
  off_value :: "'x expr"
  off_rows :: "'x option"   \<comment> \<open>\<open>None\<close> is \<open>OffsetRows::None\<close>\<close>

datatype (dead 'x) limit_clause =
    LimitOffset "'x expr option" "'x expr list" "'x offset_clause option"
      \<comment> \<open>limit, limit_by, offset\<close>
  | OffsetCommaLimit "'x expr" "'x expr"
      \<comment> \<open>offset, limit\<close>

datatype (dead 'x) select_item = UnnamedExpr "'x expr" | ExprWithAlias "'x expr" ident | OtherItem 'x

datatype (dead 'x) table_factor = TableFactor object_name 'x | OtherFactor 'x

record 'x table_with_joins =
  twj_relation :: "'x table_factor"
  twj_joins :: "'x table_factor list"
  twj_rest :: 'x

record 'x select =
  sel_projection :: "'x select_item list"
  sel_from :: "'x table_with_joins list"
  sel_selection :: "'x expr option"
  sel_rest :: 'x

datatype (dead 'x) set_expr = Select "'x select" | Values "'x expr list list" | OtherSetExpr 'x

record 'x query =
  q_body :: "'x set_expr"
  q_limit_clause :: "'x limit_clause option"
  q_rest :: 'x

datatype (dead 'x) conflict_target = Columns "ident list" | OtherConflictTarget 'x

datatype (dead 'x) on_conflict_action = DoNothing | DoUpdate "'x assignment list" "'x expr option"
      \<comment> \<open>assignments, selection\<close>

datatype (dead 'x) on_insert =
    DuplicateKeyUpdate "'x assignment list"
  | OnConflict "'x conflict_target option" "'x on_conflict_action"
      \<comment> \<open>conflict_target, action\<close>
  | OtherOnInsert 'x

datatype (dead 'x) table_object = TableName object_name | OtherTableObject 'x

record 'x insert =
  ins_or :: "'x option"
  ins_ignore :: bool
  ins_table :: "'x table_object"
  ins_columns :: "object_name list"
  ins_source :: "'x query option"
  ins_on :: "'x on_insert option"
  ins_returning :: "'x option"
  ins_rest :: 'x

record 'x update =
  upd_table :: "'x table_with_joins"
  upd_assignments :: "'x assignment list"
  upd_selection :: "'x expr option"
  upd_returning :: "'x option"
  upd_or :: "'x option"
  upd_rest :: 'x

datatype (dead 'x) from_table =
    WithFromKeyword "'x table_with_joins list"
  | WithoutKeyword "'x table_with_joins list"

record 'x delete =
  del_tables :: "object_name list"
  del_from :: "'x from_table"
  del_selection :: "'x expr option"
  del_returning :: "'x option"
  del_rest :: 'x

subsection \<open>SHOW statements and the statement type\<close>

datatype (dead 'x) show_filter = FilterLike string | FilterILike string | OtherFilter 'x

datatype (dead 'x) filter_position = Suffix "'x show_filter" | Infix "'x show_filter"

record 'x show_options =
  so_parent_name :: "object_name option option"   \<comment> \<open>\<open>show_in\<close>, and its \<open>parent_name\<close>\<close>
  so_filter_position :: "'x filter_position option"
  so_rest :: 'x

datatype (dead 'x) show_create_object = TableObject | OtherObject 'x

datatype (dead 'x) statement =
    Query "'x query"
  | Insert "'x insert"
  | Update "'x update"
  | Delete "'x delete"
  | CreateTable "'x create_table"
  | SetStmt 'x
  | Use 'x
  | ShowVariable "ident list"
  | ShowTables "'x show_options" 'x
  | ShowSchemas 'x
  | ShowDatabases 'x
  | ShowColumns "'x show_options" 'x
  | ShowFunctions 'x
  | ShowCollation 'x
  | ExplainTable object_name 'x
  | ShowCreate "'x show_create_object" object_name
  | Drop 'x
  | StartTransaction 'x
  | Commit 'x
  | Rollback 'x
  | CreateIndex 'x
  | OtherStmt 'x

section \<open>The parser crate\<close>

text \<open>
  \<open>Parser::parse_sql\<close> for a front dialect (the error is what \<open>ParserError\<close> displays), the
  \<open>Display\<close> of statements, names, expressions and index columns, and \<open>visit\<close> with a
  \<open>post_visit_expr\<close>.
\<close>

record 'x sqlparser =
  parse_sql :: "front_dialect \<Rightarrow> string \<Rightarrow> string + 'x statement list"
  show_stmt :: "'x statement \<Rightarrow> string"
  show_name :: "object_name \<Rightarrow> string"
  show_expr :: "'x expr \<Rightarrow> string"
  show_index_column :: "'x \<Rightarrow> string"
  visit_exprs :: "('x expr \<Rightarrow> 'x expr) \<Rightarrow> 'x statement \<Rightarrow> 'x statement"

text \<open>The expressions at the top of a statement that the model can see.\<close>

fun item_exprs :: "'x select_item \<Rightarrow> 'x expr list" where
  "item_exprs (UnnamedExpr e) = [e]"
| "item_exprs (ExprWithAlias e i) = [e]"
| "item_exprs (OtherItem x) = []"

fun set_expr_exprs :: "'x set_expr \<Rightarrow> 'x expr list" where
  "set_expr_exprs (Select s) =
     concat (map item_exprs (sel_projection s)) @ (case sel_selection s of None \<Rightarrow> [] | Some e \<Rightarrow> [e])"
| "set_expr_exprs (Values rows) = concat rows"
| "set_expr_exprs (OtherSetExpr x) = []"

fun on_insert_exprs :: "'x on_insert \<Rightarrow> 'x expr list" where
  "on_insert_exprs (DuplicateKeyUpdate as) = map as_value as"
| "on_insert_exprs (OnConflict ct DoNothing) = []"
| "on_insert_exprs (OnConflict ct (DoUpdate as sel)) =
     map as_value as @ (case sel of None \<Rightarrow> [] | Some e \<Rightarrow> [e])"
| "on_insert_exprs (OtherOnInsert x) = []"

fun stmt_exprs :: "'x statement \<Rightarrow> 'x expr list" where
  "stmt_exprs (Query q) = set_expr_exprs (q_body q)"
| "stmt_exprs (Insert i) =
     (case ins_source i of None \<Rightarrow> [] | Some q \<Rightarrow> set_expr_exprs (q_body q)) @
     (case ins_on i of None \<Rightarrow> [] | Some on \<Rightarrow> on_insert_exprs on)"
| "stmt_exprs (Update u) =
     map as_value (upd_assignments u) @ (case upd_selection u of None \<Rightarrow> [] | Some e \<Rightarrow> [e])"
| "stmt_exprs (Delete d) = (case del_selection d of None \<Rightarrow> [] | Some e \<Rightarrow> [e])"
| "stmt_exprs s = []"

text \<open>
  A parser crate that prints names by joining their parts and nothing else: the concrete instance the
  witnesses start from.
\<close>

definition sample_parser :: "unit sqlparser" where
  "sample_parser = \<lparr>parse_sql = (\<lambda>f s. Inr []), show_stmt = (\<lambda>s. []),
     show_name = (\<lambda>n. join ''.'' (map id_value n)), show_expr = (\<lambda>e. []),
     show_index_column = (\<lambda>x. []), visit_exprs = (\<lambda>f s. s)\<rparr>"

end
