(* ===== verification/Sql_Text.thy ===== *)
theory Sql_Text
  imports Dialect
begin

text \<open>
  What the SQL text scanners share. \<open>fix_quoting\<close> (\<open>src/translate/rewrite.rs\<close>) and
  \<open>substitute_placeholders\<close> (\<open>src/translate/mod.rs\<close>) both walk a text once and skip spans: string
  literals, quoted identifiers, comments, dollar-quoted strings. Each skip is a function from the
  text after the opening character to the span it consumes and the rest; the locale \<open>scanner\<close> is
  that interface, and every skip of the program is an interpretation of it.

  The second half states what a printed SQL text means: a list of tokens, and the text that prints
  them in a given quoting style. It is the specification the scanners are checked against.
\<close>

section \<open>Scanners\<close>

locale scanner =
  fixes scan :: "string \<Rightarrow> string \<times> string"
  assumes scan_lossless: "scan s = (a, b) \<Longrightarrow> a @ b = s"
begin

lemma fst_snd_scan: "fst (scan s) @ snd (scan s) = s"
  by (rule scan_lossless) simp

lemma scan_shrinks: "length (snd (scan s)) \<le> length s"
  using fst_snd_scan [of s] by (metis length_append le_add2)

lemma scan_shrinks_less: "length (snd (scan s)) < Suc (length s)"
  using scan_shrinks [of s] by simp

lemma set_scan: "set (fst (scan s)) \<subseteq> set s" "set (snd (scan s)) \<subseteq> set s"
  using fst_snd_scan [of s] by (metis set_append Un_upper1, metis set_append Un_upper2)

lemma scan_rest_is_suffix: "\<exists>n. snd (scan s) = drop n s"
  using fst_snd_scan [of s] by (metis append_eq_conv_conj)

end

subsection \<open>A quoted span, with the quote doubled inside\<close>

text \<open>
  The text after an opening quote \<open>q\<close>: everything up to and including the closing quote, where two
  quotes in a row do not close. An unterminated span runs to the end. This is the inner loop of
  both programs, for string literals and (in \<open>fix_quoting\<close>) for quoted identifiers.
\<close>

fun scan_quoted :: "char \<Rightarrow> string \<Rightarrow> string \<times> string" where
  "scan_quoted q [] = ([], [])"
| "scan_quoted q [c] = ([c], [])"
| "scan_quoted q (c # d # cs) =
     (if c = q then
        (if d = q then (let (a, b) = scan_quoted q cs in (c # d # a, b))
         else ([c], d # cs))
      else (let (a, b) = scan_quoted q (d # cs) in (c # a, b)))"

interpretation quoted: scanner "scan_quoted q" for q
proof
  show "scan_quoted q s = (a, b) \<Longrightarrow> a @ b = s" for s a b
    by (induction q s arbitrary: a b rule: scan_quoted.induct) (auto split: if_splits prod.splits)
qed

lemma scan_quoted_nonempty: "s \<noteq> [] \<Longrightarrow> fst (scan_quoted q s) \<noteq> []"
  by (induction q s rule: scan_quoted.induct) (auto split: prod.splits)

text \<open>The span of an escaped body is exactly that body and its closing quote.\<close>

lemma scan_quoted_body:
  assumes "rest = [] \<or> hd rest \<noteq> q"
  shows "scan_quoted q (double_char q v @ q # rest) = (double_char q v @ [q], rest)"
proof (induction v)
  case Nil
  show ?case using assms by (cases rest) auto
next
  case (Cons c v)
  then show ?case by (cases "double_char q v @ q # rest") auto
qed

subsection \<open>Comments\<close>

definition scan_line :: "string \<Rightarrow> string \<times> string" where
  "scan_line s = (takeWhile (\<lambda>c. c \<noteq> newline) s, dropWhile (\<lambda>c. c \<noteq> newline) s)"

fun scan_block :: "string \<Rightarrow> string \<times> string" where
  "scan_block [] = ([], [])"
| "scan_block [c] = ([c], [])"
| "scan_block (c # d # cs) =
     (if c = CHR ''*'' \<and> d = CHR ''/'' then ([c, d], cs)
      else (let (a, b) = scan_block (d # cs) in (c # a, b)))"

interpretation line: scanner scan_line
  by unfold_locales (auto simp: scan_line_def)

interpretation block: scanner scan_block
proof
  show "scan_block s = (a, b) \<Longrightarrow> a @ b = s" for s a b
    by (induction s arbitrary: a b rule: scan_block.induct) (auto split: if_splits prod.splits)
qed

section \<open>String literals\<close>

text \<open>
  \<open>quote_string_literal\<close> of \<open>src/translate/mod.rs\<close>; its target argument is discarded there
  (\<open>let _ = target\<close>), as it is here.
\<close>

definition quote_string_literal :: "string \<Rightarrow> target_dialect \<Rightarrow> string" where
  "quote_string_literal v target = squote # double_char squote v @ [squote]"

text \<open>Reading a literal back: the inverse of the doubling.\<close>

fun undouble :: "char \<Rightarrow> string \<Rightarrow> string" where
  "undouble q (c # d # cs) = (if c = q \<and> d = q then q # undouble q cs else c # undouble q (d # cs))"
| "undouble q s = s"

lemma undouble_double [simp]: "undouble q (double_char q v) = v"
proof (induction v)
  case (Cons c v)
  show ?case
  proof (cases "c = q")
    case True
    with Cons show ?thesis by simp
  next
    case False
    with Cons show ?thesis by (cases "double_char q v") auto
  qed
qed simp

text \<open>
  A standard-conforming reader of a literal at the front of a text: its value and what follows.
\<close>

definition read_literal :: "string \<Rightarrow> (string \<times> string) option" where
  "read_literal s =
     (case s of
        [] \<Rightarrow> None
      | c # cs \<Rightarrow>
          (let (a, b) = scan_quoted squote cs in
           if c = squote \<and> a \<noteq> [] \<and> last a = squote then Some (undouble squote (butlast a), b) else None))"

text \<open>A span that ends before the text does is an escaped body and its closing quote, and so is a literal that is read.\<close>

lemma scan_quoted_inverse: "scan_quoted q s = (a, b) \<Longrightarrow> b \<noteq> [] \<Longrightarrow> \<exists>v. a = double_char q v @ [q]"
proof (induction q s arbitrary: a b rule: scan_quoted.induct)
  case (3 q c d cs)
  show ?case
  proof (cases "c = q")
    case True
    show ?thesis
    proof (cases "d = q")
      case d: True
      obtain a' where a': "scan_quoted q cs = (a', b)" "a = q # q # a'"
        using 3(3) True d by (cases "scan_quoted q cs") auto
      from 3(1) [OF True d a'(1) 3(4)] obtain v where "a' = double_char q v @ [q]" by blast
      then have "a = double_char q (q # v) @ [q]" using a'(2) by simp
      then show ?thesis by blast
    next
      case False
      then have "a = double_char q [] @ [q]" using 3(3) True by simp
      then show ?thesis by blast
    qed
  next
    case False
    obtain a' where a': "scan_quoted q (d # cs) = (a', b)" "a = c # a'"
      using 3(3) False by (cases "scan_quoted q (d # cs)") auto
    from 3(2) [OF False a'(1) 3(4)] obtain v where "a' = double_char q v @ [q]" by blast
    then have "a = double_char q (c # v) @ [q]" using a'(2) False by simp
    then show ?thesis by blast
  qed
qed auto

lemma read_literal_inverse:
  assumes "read_literal s = Some (v, r)" "r \<noteq> []"
  shows "s = squote # double_char squote v @ squote # r"
proof -
  obtain c cs where s: "s = c # cs" using assms(1) by (cases s) (auto simp: read_literal_def)
  obtain a b where ab: "scan_quoted squote cs = (a, b)" by (cases "scan_quoted squote cs")
  with assms(1) s have c: "c = squote" "b = r" "v = undouble squote (butlast a)"
    by (auto simp: read_literal_def split: if_splits)
  from scan_quoted_inverse [OF ab] c(2) assms(2) obtain w where "a = double_char squote w @ [squote]" by blast
  with c(3) have "a = double_char squote v @ [squote]" by simp
  moreover have "cs = a @ b" using quoted.scan_lossless [OF ab] by simp
  ultimately show ?thesis using s c by simp
qed

lemma read_literal_escaped:
  assumes "rest = [] \<or> hd rest \<noteq> squote"
  shows "read_literal (squote # double_char squote v @ squote # rest) = Some (v, rest)"
  using scan_quoted_body [OF assms, of v] by (simp add: read_literal_def)

text \<open>A text put between quotes as it is reads as itself exactly when it has no quote.\<close>

lemma lone_quote_tail:
  assumes "c \<noteq> q"
  shows "b @ q # c # post \<noteq> replicate (Suc m) q @ double_char q b @ q # rest"
proof (induction b arbitrary: m)
  case Nil
  then show ?case using assms by (cases m) auto
next
  case (Cons x b)
  show ?case
  proof (cases "x = q")
    case True
    with Cons.IH [of "Suc m"] show ?thesis by (simp add: replicate_app_Cons_same)
  qed simp
qed

lemma read_unescaped:
  assumes "c \<noteq> squote"
  shows "(\<exists>rest. rest \<noteq> [] \<and> read_literal (squote # h @ squote # c # post) = Some (h, rest)) \<longleftrightarrow> squote \<notin> set h"
proof
  assume "squote \<notin> set h"
  then have "double_char squote h = h" by (simp add: double_char_id)
  then have "read_literal (squote # h @ squote # c # post) = Some (h, c # post)"
    using read_literal_escaped [of "c # post" h] assms by simp
  then show "\<exists>rest. rest \<noteq> [] \<and> read_literal (squote # h @ squote # c # post) = Some (h, rest)" by blast
next
  assume "\<exists>rest. rest \<noteq> [] \<and> read_literal (squote # h @ squote # c # post) = Some (h, rest)"
  then obtain rest where "rest \<noteq> []" "read_literal (squote # h @ squote # c # post) = Some (h, rest)" by blast
  then have eq: "h @ squote # c # post = double_char squote h @ squote # rest"
    using read_literal_inverse by blast
  show "squote \<notin> set h"
  proof
    assume "squote \<in> set h"
    then obtain a b where h: "h = a @ squote # b" and a: "squote \<notin> set a" by (meson split_list_first)
    then have "double_char squote h = a @ squote # squote # double_char squote b" by (simp add: double_char_id)
    with eq h have "b @ squote # c # post = replicate (Suc 0) squote @ double_char squote b @ squote # rest" by simp
    with lone_quote_tail [OF assms] show False by blast
  qed
qed

section \<open>Printed SQL as tokens\<close>

datatype sql_token =
    Word string    \<comment> \<open>a run of unquoted text: keywords, operators, numbers, spaces\<close>
  | Lit string     \<comment> \<open>a string literal, by its value\<close>
  | Quoted string  \<comment> \<open>a quoted identifier, by its name\<close>

fun print_token :: "char \<Rightarrow> sql_token \<Rightarrow> string" where
  "print_token q (Word w) = w"
| "print_token q (Lit v) = squote # double_char squote v @ [squote]"
| "print_token q (Quoted v) = q # double_char q v @ [q]"

definition print_sql :: "char \<Rightarrow> sql_token list \<Rightarrow> string" where
  "print_sql q ts = concat (map (print_token q) ts)"

lemma print_sql_simps [simp]:
  "print_sql q [] = []" "print_sql q (t # ts) = print_token q t @ print_sql q ts"
  by (simp_all add: print_sql_def)

text \<open>Unquoted text: no quote, no dollar sign, no comment opener.\<close>

fun plain_word :: "string \<Rightarrow> bool" where
  "plain_word [] \<longleftrightarrow> True"
| "plain_word (c # cs) \<longleftrightarrow>
     c \<notin> {squote, dquote, backtick, CHR ''$''} \<and>
     \<not> (c = CHR ''-'' \<and> starts_with ''-'' cs) \<and> \<not> (c = CHR ''/'' \<and> starts_with ''*'' cs) \<and>
     plain_word cs"

fun is_word :: "sql_token \<Rightarrow> bool" where "is_word (Word w) \<longleftrightarrow> True" | "is_word t \<longleftrightarrow> False"
fun is_lit :: "sql_token \<Rightarrow> bool" where "is_lit (Lit v) \<longleftrightarrow> True" | "is_lit t \<longleftrightarrow> False"
fun is_quoted :: "sql_token \<Rightarrow> bool" where "is_quoted (Quoted v) \<longleftrightarrow> True" | "is_quoted t \<longleftrightarrow> False"

text \<open>
  A token list that prints unambiguously: words are non-empty and plain, and no two tokens of the
  same kind touch (two literals side by side would read as one literal with an embedded quote).
\<close>

fun wf_sql :: "sql_token list \<Rightarrow> bool" where
  "wf_sql [] \<longleftrightarrow> True"
| "wf_sql (t # ts) \<longleftrightarrow>
     (case t of Word w \<Rightarrow> w \<noteq> [] \<and> plain_word w | _ \<Rightarrow> True) \<and>
     (case ts of [] \<Rightarrow> True
      | u # _ \<Rightarrow> \<not> (is_word t \<and> is_word u) \<and> \<not> (is_lit t \<and> is_lit u) \<and> \<not> (is_quoted t \<and> is_quoted u)) \<and>
     wf_sql ts"

lemma wf_sql_tail: "wf_sql (t # ts) \<Longrightarrow> wf_sql ts"
  by simp

lemma plain_word_hd: "plain_word w \<Longrightarrow> w \<noteq> [] \<Longrightarrow> hd w \<notin> {squote, dquote, backtick, CHR ''$''}"
  by (cases w) auto

text \<open>What can follow each kind of token in a printed text.\<close>

lemma print_sql_after_word:
  assumes "wf_sql (Word w # ts)" "q \<in> {dquote, backtick}"
  shows "print_sql q ts = [] \<or> hd (print_sql q ts) \<in> {squote, q}"
  using assms by (cases ts; cases "hd ts") auto

lemma print_sql_after_lit:
  assumes "wf_sql (Lit v # ts)" "q \<in> {dquote, backtick}"
  shows "print_sql q ts = [] \<or> hd (print_sql q ts) \<noteq> squote"
proof (cases ts)
  case (Cons u us)
  with assms show ?thesis by (cases u) (auto dest: plain_word_hd)
qed simp

lemma print_sql_after_quoted:
  assumes "wf_sql (Quoted v # ts)" "q \<in> {dquote, backtick}"
  shows "print_sql q ts = [] \<or> hd (print_sql q ts) \<noteq> q"
proof (cases ts)
  case (Cons u us)
  with assms show ?thesis by (cases u) (auto dest: plain_word_hd)
qed simp

section \<open>Literals cannot be broken out of\<close>

text \<open>
  Reading a quoted literal back gives the value, for every value and every target: whatever
  characters the value holds, the literal is read to exactly its own closing quote, and the text
  that follows it is untouched, provided that text does not begin with a quote itself.
\<close>

theorem string_literal_roundtrip:
  assumes "rest = [] \<or> hd rest \<noteq> squote"
  shows "read_literal (quote_string_literal v target @ rest) = Some (v, rest)"
  using scan_quoted_body [OF assms, of v]
  by (simp add: read_literal_def quote_string_literal_def)

theorem string_literal_roundtrip_witness:
  "read_literal (quote_string_literal ([squote] @ '' OR 1=1 --'') Sqlite @ '' LIMIT 1'') =
     Some ([squote] @ '' OR 1=1 --'', '' LIMIT 1'')"
  by (rule string_literal_roundtrip) simp

end
