(* ===== verification/Intercept.thy ===== *)
theory Intercept
  imports Session Ast Sql_Text
begin

text \<open>
  \<open>src/server/intercept.rs\<close>: the statements the proxy answers itself. \<open>LAST_INSERT_ID()\<close> and session
  variables are answered from the session; \<open>SHOW\<close> and \<open>DESCRIBE\<close> become queries of the target's
  catalog. The connection is passed and returned; \<open>None\<close> means "not intercepted".
\<close>

section \<open>Answers from the session\<close>

definition ok_outcome :: "string \<Rightarrow> outcome" where
  "ok_outcome command = Affected 0 None command"

fun no_arguments :: "'x fn_args \<Rightarrow> bool" where
  "no_arguments NoArgs \<longleftrightarrow> True"
| "no_arguments (ListArgs dup args clauses) \<longleftrightarrow> args = []"
| "no_arguments (SubqueryArgs x) \<longleftrightarrow> False"

fun is_last_insert_id :: "'x sqlparser \<Rightarrow> 'x expr \<Rightarrow> bool" where
  "is_last_insert_id P (Function f) \<longleftrightarrow>
     to_ascii_lowercase (show_name P (fn_name f)) = ''last_insert_id'' \<and> no_arguments (fn_arguments f)"
| "is_last_insert_id P e \<longleftrightarrow> False"

text \<open>The column name of a projection that is the function call.\<close>

fun last_insert_id_column :: "'x sqlparser \<Rightarrow> 'x select_item \<Rightarrow> string option" where
  "last_insert_id_column P (UnnamedExpr e) =
     (if is_last_insert_id P e then Some ''LAST_INSERT_ID()'' else None)"
| "last_insert_id_column P (ExprWithAlias e alias) =
     (if is_last_insert_id P e then Some (id_value alias) else None)"
| "last_insert_id_column P (OtherItem x) = None"

definition last_insert_id_outcome :: "'x sqlparser \<Rightarrow> 'db session \<Rightarrow> 'x statement \<Rightarrow> outcome option" where
  "last_insert_id_outcome P s stmt =
     (case stmt of
        Query q \<Rightarrow>
          (case q_body q of
             Select sel \<Rightarrow>
               (case sel_projection sel of
                  [item] \<Rightarrow>
                    (case last_insert_id_column P item of
                       None \<Rightarrow> None
                     | Some name \<Rightarrow>
                         Some (Rows [\<lparr>fm_name = name, fm_kind = KBigInt\<rparr>]
                                 [[Some (VBigInt (get_last_insert_id s))]]))
                | _ \<Rightarrow> None)
           | _ \<Rightarrow> None)
      | _ \<Rightarrow> None)"

definition variable_default :: "string \<Rightarrow> string" where
  "variable_default name =
     (if name \<in> {''server_version'', ''server_version_num''} then ''15.0''
      else if name \<in> {''client_encoding'', ''server_encoding''} then ''UTF8''
      else if name \<in> {''timezone'', ''time_zone''} then ''UTC''
      else if name = ''standard_conforming_strings'' then ''on''
      else if name = ''integer_datetimes'' then ''on''
      else if name \<in> {''max_identifier_length'', ''max_index_keys''} then ''63''
      else [])"

definition show_variable_outcome :: "ident list \<Rightarrow> outcome" where
  "show_variable_outcome variable =
     (let name = join ''.'' (map (\<lambda>i. to_ascii_lowercase (id_value i)) variable) in
      Rows [\<lparr>fm_name = to_ascii_uppercase name, fm_kind = KText\<rparr>]
        [[Some (VText (variable_default name))]])"

section \<open>Catalog queries\<close>

text \<open>Text in single and in double quotes, as the format strings of the sources write it.\<close>

definition sq :: "string \<Rightarrow> string" where "sq t = squote # t @ [squote]"
definition dq :: "string \<Rightarrow> string" where "dq t = dquote # t @ [dquote]"

fun filter_pattern :: "'x show_filter \<Rightarrow> string option" where
  "filter_pattern (FilterLike p) = Some p"
| "filter_pattern (FilterILike p) = Some p"
| "filter_pattern (OtherFilter x) = None"

fun like_pattern :: "'x show_options \<Rightarrow> string option" where
  "like_pattern opts =
     (case so_filter_position opts of
        None \<Rightarrow> None
      | Some (Suffix f) \<Rightarrow> filter_pattern f
      | Some (Infix f) \<Rightarrow> filter_pattern f)"

definition run_rows :: "'db driver \<Rightarrow> 'db \<Rightarrow> string \<Rightarrow> 'db \<times> outcome option res" where
  "run_rows D conn sql =
     (case fetch D conn sql of
        (conn1, Inl f) \<Rightarrow> (conn1, Inl f)
      | (conn1, Inr (cols, rows)) \<Rightarrow> (conn1, Inr (Some (Rows cols rows))))"

definition like_clause :: "string option \<Rightarrow> string \<Rightarrow> string" where
  "like_clause pattern column =
     (case pattern of
        Some p \<Rightarrow> '' AND '' @ column @ '' LIKE '' @ sq (double_char squote p)
      | None \<Rightarrow> [])"

definition show_tables_sql :: "target_dialect \<Rightarrow> string option \<Rightarrow> string option" where
  "show_tables_sql dialect pattern =
     (case dialect of
        Sqlite \<Rightarrow> Some (''SELECT name AS '' @ dq ''Tables_in_main'' @ '' FROM sqlite_master WHERE type = '' @ sq ''table'' @
          '' AND name NOT LIKE '' @ sq ''sqlite_%'' @ like_clause pattern ''name'' @ '' ORDER BY name'')
      | Postgres \<Rightarrow> Some (''SELECT tablename AS '' @ dq ''Tables_in_public'' @ '' FROM pg_tables WHERE schemaname = '' @
          sq ''public'' @ like_clause pattern ''tablename'' @ '' ORDER BY tablename'')
      | Mysql \<Rightarrow> None)"

definition show_tables :: "'db driver \<Rightarrow> 'db session \<Rightarrow> 'db \<Rightarrow> 'x show_options \<Rightarrow> 'db \<times> outcome option res" where
  "show_tables D s conn opts =
     (case show_tables_sql (ss_dialect s) (like_pattern opts) of
        Some sql \<Rightarrow> run_rows D conn sql
      | None \<Rightarrow> (conn, Inr None))"

definition show_databases :: "'db driver \<Rightarrow> 'db session \<Rightarrow> 'db \<Rightarrow> 'db \<times> outcome option res" where
  "show_databases D s conn =
     (case ss_dialect s of
        Sqlite \<Rightarrow> (conn, Inr (Some (Rows [\<lparr>fm_name = ''Database'', fm_kind = KText\<rparr>] [[Some (VText ''main'')]])))
      | Postgres \<Rightarrow> run_rows D conn
          (''SELECT datname AS '' @ dq ''Database'' @ '' FROM pg_database WHERE datallowconn ORDER BY datname'')
      | Mysql \<Rightarrow> (conn, Inr None))"

definition show_target_table :: "'x sqlparser \<Rightarrow> 'x show_options \<Rightarrow> string option" where
  "show_target_table P opts =
     (case so_parent_name opts of
        None \<Rightarrow> None
      | Some parent_name \<Rightarrow> map_option (show_name P) parent_name)"

section \<open>Columns\<close>

text \<open>\<open>r.get(i).cloned().flatten()\<close>.\<close>

definition cell_at :: "cell list \<Rightarrow> nat \<Rightarrow> cell" where
  "cell_at r i = (case get r i of None \<Rightarrow> None | Some c \<Rightarrow> c)"

fun int_cell :: "cell \<Rightarrow> int option" where
  "int_cell (Some (VSmallInt n)) = Some (sint n)"
| "int_cell (Some (VInteger n)) = Some (sint n)"
| "int_cell (Some (VBigInt n)) = Some (sint n)"
| "int_cell c = None"

definition nonzero_cell :: "cell \<Rightarrow> bool" where
  "nonzero_cell c \<longleftrightarrow> (case int_cell c of Some n \<Rightarrow> n \<noteq> 0 | None \<Rightarrow> False)"

definition sqlite_column_row :: "cell list \<Rightarrow> cell list" where
  "sqlite_column_row r =
     (let name = (case cell_at r 1 of Some v \<Rightarrow> v | None \<Rightarrow> VNull);
          ty = (case cell_at r 2 of Some (VText t) \<Rightarrow> if t \<noteq> [] then VText t else VText [] | _ \<Rightarrow> VText []);
          notnull = nonzero_cell (cell_at r 3);
          pk = nonzero_cell (cell_at r 5);
          dflt = cell_at r 4
      in [Some name, Some ty, Some (VText (if notnull then ''NO'' else ''YES'')),
          Some (VText (if pk then ''PRI'' else [])), dflt, Some (VText [])])"

definition show_columns_fields :: "string list" where
  "show_columns_fields = [''Field'', ''Type'', ''Null'', ''Key'', ''Default'', ''Extra'']"

definition columns_meta :: "field_meta list" where
  "columns_meta = map (\<lambda>f. \<lparr>fm_name = f, fm_kind = KText\<rparr>) show_columns_fields"

definition text_rows :: "cell list list \<Rightarrow> outcome" where
  "text_rows rows = Rows columns_meta rows"

definition plain_table_name :: "string \<Rightarrow> string" where
  "plain_table_name name =
     trim_matches (\<lambda>c. c = backtick \<or> c = dquote \<or> c = squote \<or> c = CHR '' '') (last (split_on CHR ''.'' name))"

definition pg_columns_sql :: "string \<Rightarrow> string" where
  "pg_columns_sql table =
     ''SELECT column_name AS field, udt_name AS type, CASE WHEN is_nullable = '' @ sq ''YES'' @ '' THEN '' @ sq ''YES'' @
     '' ELSE '' @ sq ''NO'' @ '' END AS null, '' @ sq [] @ '' AS key, column_default, '' @ sq [] @
     '' AS extra FROM information_schema.columns WHERE table_schema = '' @ sq ''public'' @ '' AND table_name = '' @
     sq (double_char squote table) @ '' ORDER BY ordinal_position''"

definition column_listing :: "'db driver \<Rightarrow> 'db session \<Rightarrow> 'db \<Rightarrow> string \<Rightarrow> 'db \<times> outcome option res" where
  "column_listing D s conn raw_table =
     (let table = plain_table_name raw_table in
      case ss_dialect s of
        Sqlite \<Rightarrow>
          (case fetch D conn (table_info table) of
             (conn1, Inl f) \<Rightarrow> (conn1, Inl f)
           | (conn1, Inr (cols, rows)) \<Rightarrow> (conn1, Inr (Some (text_rows (map sqlite_column_row rows)))))
      | Postgres \<Rightarrow>
          (case fetch D conn (pg_columns_sql table) of
             (conn1, Inl f) \<Rightarrow> (conn1, Inl f)
           | (conn1, Inr (cols, rows)) \<Rightarrow> (conn1, Inr (Some (text_rows rows))))
      | Mysql \<Rightarrow> (conn, Inr None))"

definition show_columns ::
  "'db driver \<Rightarrow> 'x sqlparser \<Rightarrow> 'db session \<Rightarrow> 'db \<Rightarrow> 'x show_options \<Rightarrow> 'db \<times> outcome option res" where
  "show_columns D P s conn opts =
     (case show_target_table P opts of
        Some t \<Rightarrow> column_listing D s conn t
      | None \<Rightarrow> (conn, Inr None))"

definition describe_table ::
  "'db driver \<Rightarrow> 'x sqlparser \<Rightarrow> 'db session \<Rightarrow> 'db \<Rightarrow> object_name \<Rightarrow> 'db \<times> outcome option res" where
  "describe_table D P s conn table_name = column_listing D s conn (show_name P table_name)"

section \<open>SHOW CREATE TABLE\<close>

definition create_table_fields :: "field_meta list" where
  "create_table_fields = [\<lparr>fm_name = ''Table'', fm_kind = KText\<rparr>, \<lparr>fm_name = ''Create Table'', fm_kind = KText\<rparr>]"

definition create_table_outcome :: "string \<Rightarrow> string option \<Rightarrow> outcome" where
  "create_table_outcome table ddl =
     Rows create_table_fields
       (case ddl of Some s \<Rightarrow> [[Some (VText table), Some (VText s)]] | None \<Rightarrow> [])"

text \<open>\<open>text_of\<close>: a text is itself, any other value its MySQL text form.\<close>

fun text_of :: "runtime \<Rightarrow> val \<Rightarrow> string" where
  "text_of R (VText s) = s"
| "text_of R v = (case as_mysql_text R v of Some s \<Rightarrow> s | None \<Rightarrow> [])"

definition first_text :: "runtime \<Rightarrow> cell list list \<Rightarrow> string option" where
  "first_text R rows =
     (case rows of
        (c # _) # _ \<Rightarrow> map_option (text_of R) c
      | _ \<Rightarrow> None)"

definition sqlite_ddl_sql :: "string \<Rightarrow> string" where
  "sqlite_ddl_sql table =
     ''SELECT sql FROM sqlite_master WHERE type = '' @ sq ''table'' @ '' AND name = '' @ sq (double_char squote table)"

definition pg_ddl_sql :: "string \<Rightarrow> string" where
  "pg_ddl_sql table =
     ''SELECT '' @ sq (''CREATE TABLE '' @ dq (double_char dquote table) @ '' ('') @
     '' || string_agg( column_name || '' @ sq '' '' @ '' || data_type || CASE WHEN is_nullable = '' @ sq ''NO'' @
     '' THEN '' @ sq '' NOT NULL'' @ '' ELSE '' @ sq [] @ '' END, '' @ sq '', '' @
     '' ORDER BY ordinal_position) || '' @ sq '')'' @
     '' FROM information_schema.columns WHERE table_schema = '' @ sq ''public'' @ '' AND table_name = '' @
     sq (double_char squote table)"

definition show_create_table ::
  "runtime \<Rightarrow> 'db driver \<Rightarrow> 'x sqlparser \<Rightarrow> 'db session \<Rightarrow> 'db \<Rightarrow> object_name \<Rightarrow> 'db \<times> outcome option res" where
  "show_create_table R D P s conn obj_name =
     (let table = plain_table_name (show_name P obj_name) in
      case ss_dialect s of
        Mysql \<Rightarrow> (conn, Inr None)
      | dialect \<Rightarrow>
          (case fetch D conn (if dialect = Sqlite then sqlite_ddl_sql table else pg_ddl_sql table) of
             (conn1, Inl f) \<Rightarrow> (conn1, Inl f)
           | (conn1, Inr (cols, rows)) \<Rightarrow>
               (conn1, Inr (Some (create_table_outcome table (first_text R rows))))))"

section \<open>The dispatcher\<close>

definition intercept_statement ::
  "runtime \<Rightarrow> 'db driver \<Rightarrow> 'x sqlparser \<Rightarrow> 'db session \<Rightarrow> 'db \<Rightarrow> 'x statement \<Rightarrow> 'db \<times> outcome option res" where
  "intercept_statement R D P s conn stmt =
     (case last_insert_id_outcome P s stmt of
        Some out \<Rightarrow> (conn, Inr (Some out))
      | None \<Rightarrow>
          (case stmt of
             SetStmt x \<Rightarrow>
               (conn, Inr (if front_dialect_matches_target (ss_translator s) then None else Some (ok_outcome ''SET'')))
           | Use x \<Rightarrow> (conn, Inr (Some (ok_outcome ''USE'')))
           | ShowVariable variable \<Rightarrow>
               (conn, Inr (if ss_dialect s \<noteq> Postgres then Some (show_variable_outcome variable) else None))
           | ShowTables opts x \<Rightarrow> show_tables D s conn opts
           | ShowSchemas x \<Rightarrow> show_databases D s conn
           | ShowDatabases x \<Rightarrow> show_databases D s conn
           | ShowColumns opts x \<Rightarrow> show_columns D P s conn opts
           | ExplainTable table_name x \<Rightarrow> describe_table D P s conn table_name
           | ShowCreate obj_type obj_name \<Rightarrow>
               (case obj_type of TableObject \<Rightarrow> show_create_table R D P s conn obj_name | OtherObject x \<Rightarrow> (conn, Inr None))
           | _ \<Rightarrow> (conn, Inr None)))"

section \<open>What is answered, and what is forwarded\<close>

text \<open>The statements the proxy answers, by statement and session; the others go to the backend.\<close>

fun intercepted_kind :: "'db session \<Rightarrow> 'x statement \<Rightarrow> bool" where
  "intercepted_kind s (SetStmt x) \<longleftrightarrow> \<not> front_dialect_matches_target (ss_translator s)"
| "intercepted_kind s (Use x) \<longleftrightarrow> True"
| "intercepted_kind s (ShowVariable v) \<longleftrightarrow> ss_dialect s \<noteq> Postgres"
| "intercepted_kind s (ShowTables opts x) \<longleftrightarrow> ss_dialect s \<noteq> Mysql"
| "intercepted_kind s (ShowSchemas x) \<longleftrightarrow> ss_dialect s \<noteq> Mysql"
| "intercepted_kind s (ShowDatabases x) \<longleftrightarrow> ss_dialect s \<noteq> Mysql"
| "intercepted_kind s (ShowColumns opts x) \<longleftrightarrow>
     ss_dialect s \<noteq> Mysql \<and> (case so_parent_name opts of Some (Some n) \<Rightarrow> True | _ \<Rightarrow> False)"
| "intercepted_kind s (ExplainTable t x) \<longleftrightarrow> ss_dialect s \<noteq> Mysql"
| "intercepted_kind s (ShowCreate TableObject n) \<longleftrightarrow> ss_dialect s \<noteq> Mysql"
| "intercepted_kind s stmt \<longleftrightarrow> False"

definition intercepted :: "'x sqlparser \<Rightarrow> 'db session \<Rightarrow> 'x statement \<Rightarrow> bool" where
  "intercepted P s stmt \<longleftrightarrow> last_insert_id_outcome P s stmt \<noteq> None \<or> intercepted_kind s stmt"

text \<open>The statements answered from the session alone.\<close>

fun session_kind :: "'x statement \<Rightarrow> bool" where
  "session_kind (SetStmt x) \<longleftrightarrow> True"
| "session_kind (Use x) \<longleftrightarrow> True"
| "session_kind (ShowVariable v) \<longleftrightarrow> True"
| "session_kind stmt \<longleftrightarrow> False"

lemma run_rows_outcome:
  "snd (run_rows D conn sql) \<noteq> Inr None" "snd (run_rows D conn sql) = Inl f \<Longrightarrow> \<exists>m. f = Err (Backend m)"
  by (auto simp: run_rows_def split: prod.splits sum.splits dest: fetch_fails)

lemma show_tables_outcome:
  "snd (show_tables D s conn opts) = Inr None \<longleftrightarrow> ss_dialect s = Mysql"
  "ss_dialect s = Mysql \<Longrightarrow> show_tables D s conn opts = (conn, Inr None)"
  "snd (show_tables D s conn opts) = Inl f \<Longrightarrow> \<exists>m. f = Err (Backend m)"
  by (cases "ss_dialect s"; simp add: show_tables_def show_tables_sql_def run_rows_outcome)+

lemma show_databases_outcome:
  "snd (show_databases D s conn) = Inr None \<longleftrightarrow> ss_dialect s = Mysql"
  "ss_dialect s = Mysql \<Longrightarrow> show_databases D s conn = (conn, Inr None)"
  "snd (show_databases D s conn) = Inl f \<Longrightarrow> \<exists>m. f = Err (Backend m)"
  by (cases "ss_dialect s"; simp add: show_databases_def run_rows_outcome)+

lemma column_listing_outcome:
  "snd (column_listing D s conn t) = Inr None \<longleftrightarrow> ss_dialect s = Mysql"
  "ss_dialect s = Mysql \<Longrightarrow> column_listing D s conn t = (conn, Inr None)"
  "snd (column_listing D s conn t) = Inl f \<Longrightarrow> \<exists>m. f = Err (Backend m)"
  by (cases "ss_dialect s"; auto simp: column_listing_def Let_def split: prod.splits sum.splits dest: fetch_fails)+

lemma show_create_outcome:
  "snd (show_create_table R D P s conn t) = Inr None \<longleftrightarrow> ss_dialect s = Mysql"
  "ss_dialect s = Mysql \<Longrightarrow> show_create_table R D P s conn t = (conn, Inr None)"
  "snd (show_create_table R D P s conn t) = Inl f \<Longrightarrow> \<exists>m. f = Err (Backend m)"
  by (cases "ss_dialect s"; auto simp: show_create_table_def Let_def split: prod.splits sum.splits dest: fetch_fails)+

lemmas catalog_answer =
  show_tables_outcome(1,2) show_databases_outcome(1,2) column_listing_outcome(1,2) show_create_outcome(1,2)

lemmas catalog_fails =
  show_tables_outcome(3) show_databases_outcome(3) column_listing_outcome(3) show_create_outcome(3)

lemma intercept_kinds:
  assumes "last_insert_id_outcome P s stmt = None"
  shows "(snd (intercept_statement R D P s conn stmt) = Inr None \<longleftrightarrow> \<not> intercepted_kind s stmt) \<and>
    (\<not> intercepted_kind s stmt \<longrightarrow> fst (intercept_statement R D P s conn stmt) = conn) \<and>
    (\<forall>f. snd (intercept_statement R D P s conn stmt) = Inl f \<longrightarrow> (\<exists>m. f = Err (Backend m))) \<and>
    (session_kind stmt \<longrightarrow> fst (intercept_statement R D P s conn stmt) = conn)"
proof (cases stmt)
  case (ShowColumns opts x)
  show ?thesis
  proof (cases "show_target_table P opts")
    case None
    with ShowColumns assms show ?thesis
      by (auto simp: intercept_statement_def show_columns_def show_target_table_def split: option.splits)
  next
    case (Some t)
    then have "\<exists>n. so_parent_name opts = Some (Some n)"
      by (auto simp: show_target_table_def split: option.splits)
    with ShowColumns Some assms show ?thesis
      by (auto simp: intercept_statement_def show_columns_def catalog_answer dest: catalog_fails)
  qed
next
  case (ShowCreate obj n)
  with assms show ?thesis
    by (cases obj) (auto simp: intercept_statement_def catalog_answer dest: catalog_fails)
next
  case (ExplainTable t x)
  with assms show ?thesis
    by (auto simp: intercept_statement_def describe_table_def catalog_answer dest: catalog_fails)
next
  case (ShowTables opts x)
  with assms show ?thesis by (auto simp: intercept_statement_def catalog_answer dest: catalog_fails)
next
  case (ShowSchemas x)
  with assms show ?thesis by (auto simp: intercept_statement_def catalog_answer dest: catalog_fails)
next
  case (ShowDatabases x)
  with assms show ?thesis by (auto simp: intercept_statement_def catalog_answer dest: catalog_fails)
qed (use assms in \<open>auto simp: intercept_statement_def\<close>)

lemma last_insert_id_query: "last_insert_id_outcome P s stmt = Some out \<Longrightarrow> \<exists>q. stmt = Query q"
  by (auto simp: last_insert_id_outcome_def split: statement.splits)

text \<open>
  C23. The dispatcher is total: a statement is left to the backend exactly when it is not one of the
  intercepted kinds for the session's dialects, and the connection is then untouched; the answers from
  session state (\<open>LAST_INSERT_ID()\<close>, \<open>SET\<close>, \<open>USE\<close>, \<open>SHOW\<close> of a variable) never touch the database
  either; and the only failures are backend errors of a catalog query.
\<close>

theorem intercept_decides:
  "(snd (intercept_statement R D P s conn stmt) = Inr None \<longleftrightarrow> \<not> intercepted P s stmt) \<and>
   (\<not> intercepted P s stmt \<or> session_kind stmt \<or> last_insert_id_outcome P s stmt \<noteq> None \<longrightarrow>
      fst (intercept_statement R D P s conn stmt) = conn) \<and>
   (\<forall>f. snd (intercept_statement R D P s conn stmt) = Inl f \<longrightarrow> (\<exists>m. f = Err (Backend m)))"
proof (cases "last_insert_id_outcome P s stmt")
  case None
  from intercept_kinds [OF None, of R D conn] None show ?thesis unfolding intercepted_def by blast
next
  case (Some out)
  then show ?thesis by (simp add: intercepted_def intercept_statement_def)
qed

theorem intercept_decides_witness:
  "fst (intercept_statement sample_runtime (sample_driver True) sample_parser
     (new_session Sqlite (new_translator FrontMysql Sqlite)) 3 (SetStmt ())) = 3"
  using intercept_decides [of sample_runtime "sample_driver True" sample_parser
    "new_session Sqlite (new_translator FrontMysql Sqlite)" 3 "SetStmt ()"]
  by simp

section \<open>Names in catalog queries\<close>

text \<open>A text that is some fixed text, then a literal that reads as the value, then the rest.\<close>

definition holds_literal :: "string \<Rightarrow> string \<Rightarrow> string \<Rightarrow> string \<Rightarrow> bool" where
  "holds_literal sql before v rest \<longleftrightarrow>
     starts_with before sql \<and> read_literal (drop (length before) sql) = Some (v, rest)"

lemma holds_literalI:
  assumes "rest = [] \<or> hd rest \<noteq> squote"
  shows "holds_literal (before @ sq (double_char squote v) @ rest) before v rest"
  using read_literal_escaped [OF assms, of v] by (simp add: holds_literal_def sq_def starts_with_def)

definition pg_columns_before :: string where
  "pg_columns_before = ''SELECT column_name AS field, udt_name AS type, CASE WHEN is_nullable = '' @ sq ''YES'' @
     '' THEN '' @ sq ''YES'' @ '' ELSE '' @ sq ''NO'' @ '' END AS null, '' @ sq [] @ '' AS key, column_default, '' @ sq [] @
     '' AS extra FROM information_schema.columns WHERE table_schema = '' @ sq ''public'' @ '' AND table_name = ''"

definition sqlite_ddl_before :: string where
  "sqlite_ddl_before = ''SELECT sql FROM sqlite_master WHERE type = '' @ sq ''table'' @ '' AND name = ''"



text \<open>
  The exception is \<open>SHOW CREATE TABLE\<close> on PostgreSQL: its first literal, meant to be the head of the
  table's definition, holds the name with only its double quotes escaped, so it reads as that head
  exactly when the name has no single quote; a name with one ends the literal early and the rest of
  the name is read as SQL.
\<close>

theorem pg_show_create_literal:
  "(\<exists>rest. rest \<noteq> [] \<and>
      holds_literal (pg_ddl_sql t) ''SELECT '' (''CREATE TABLE '' @ dq (double_char dquote t) @ '' ('') rest) \<longleftrightarrow>
   squote \<notin> set t"
proof -
  let ?head = "''CREATE TABLE '' @ dq (double_char dquote t) @ '' (''"
  obtain post where sql: "pg_ddl_sql t = ''SELECT '' @ (squote # ?head @ squote # CHR '' '' # post)"
    by (simp add: pg_ddl_sql_def sq_def)
  then have "holds_literal (pg_ddl_sql t) ''SELECT '' ?head rest \<longleftrightarrow>
      read_literal (squote # ?head @ squote # CHR '' '' # post) = Some (?head, rest)" for rest
    unfolding holds_literal_def sql starts_with_def by simp
  moreover have "squote \<in> set ?head \<longleftrightarrow> squote \<in> set t" by (simp add: dq_def)
  moreover have "(\<exists>rest. rest \<noteq> [] \<and> read_literal (squote # ?head @ squote # CHR '' '' # post) = Some (?head, rest)) \<longleftrightarrow>
      squote \<notin> set ?head"
    by (rule read_unescaped) simp
  ultimately show ?thesis by (simp only:)
qed

section \<open>Column listings\<close>

text \<open>A row of \<open>PRAGMA table_info\<close>: cid, name, type, notnull, dflt_value, pk, with integers of any width.\<close>

definition pragma_row :: "cell \<Rightarrow> string \<Rightarrow> string \<Rightarrow> cell \<Rightarrow> cell \<Rightarrow> cell \<Rightarrow> cell list" where
  "pragma_row cid name ty notnull dflt pk = [cid, Some (VText name), Some (VText ty), notnull, dflt, pk]"

lemma sqlite_column_row_pragma:
  "sqlite_column_row (pragma_row cid name ty notnull dflt pk) =
     [Some (VText name), Some (VText ty), Some (VText (if nonzero_cell notnull then ''NO'' else ''YES'')),
      Some (VText (if nonzero_cell pk then ''PRI'' else [])), dflt, Some (VText [])]"
  by (simp add: sqlite_column_row_def pragma_row_def cell_at_def get_def Let_def)

lemma fetch_sample_sqlite: "\<exists>cols rows. fetch (sample_driver True) c sql = (c, Inr (cols, rows))"
proof -
  obtain c' a where r: "resolve_sqlite_column_kinds (sample_driver True) c sql (Suc 0) = (c', a)"
    by (cases "resolve_sqlite_column_kinds (sample_driver True) c sql (Suc 0)")
  then have "c' = c" using resolve_quiet [OF sample_driver_quiet, of True c sql "Suc 0"] by simp
  moreover have "dv_fetch_all (sample_driver True) c sql = (c, Inr [id_row 5])"
    "from_conn (sample_driver True) c = (c, Sqlite)"
    by (simp_all add: sample_driver_def from_conn_def)
  moreover have "length (row_columns (id_row 5)) = Suc 0" "decode_row (Suc 0) (id_row 5) = Inr [Some (VBigInt 5)]"
    by (simp_all add: id_row_def decode_row_def decode_cell_def raw_int_def decode_as_def)
  ultimately show ?thesis using r by (simp add: fetch_def)
qed

text \<open>
  A column listing on SQLite has MySQL's shape: the six fields, and one row of six cells per column
  of the table, in order, whatever the catalog returned. A catalog row gives the column's name and
  declared type, \<open>NO\<close> or \<open>YES\<close> for its \<open>NOT NULL\<close> flag, \<open>PRI\<close> for a non-zero key position, and its
  default, at every integer width.
\<close>

theorem sqlite_column_listing:
  assumes "ss_dialect s = Sqlite" "snd (column_listing D s conn t) = Inr (Some out)"
  shows "\<exists>cols rows conn1. fetch D conn (table_info (plain_table_name t)) = (conn1, Inr (cols, rows)) \<and>
    out = Rows columns_meta (map sqlite_column_row rows) \<and>
    list_all (\<lambda>r. length r = length columns_meta) (map sqlite_column_row rows) \<and>
    (\<forall>cid name ty notnull dflt pk. pragma_row cid name ty notnull dflt pk \<in> set rows \<longrightarrow>
       [Some (VText name), Some (VText ty), Some (VText (if nonzero_cell notnull then ''NO'' else ''YES'')),
        Some (VText (if nonzero_cell pk then ''PRI'' else [])), dflt, Some (VText [])]
         \<in> set (map sqlite_column_row rows))"
proof -
  obtain conn1 cols rows where f: "fetch D conn (table_info (plain_table_name t)) = (conn1, Inr (cols, rows))"
    and out: "out = Rows columns_meta (map sqlite_column_row rows)"
    using assms by (auto simp: column_listing_def Let_def text_rows_def split: prod.splits sum.splits)
  have "length (sqlite_column_row r) = length columns_meta" for r
    by (simp add: sqlite_column_row_def columns_meta_def show_columns_fields_def Let_def)
  then have "list_all (\<lambda>r. length r = length columns_meta) (map sqlite_column_row rows)"
    by (simp add: list_all_iff)
  moreover have "[Some (VText name), Some (VText ty), Some (VText (if nonzero_cell notnull then ''NO'' else ''YES'')),
       Some (VText (if nonzero_cell pk then ''PRI'' else [])), dflt, Some (VText [])] \<in> set (map sqlite_column_row rows)"
    if "pragma_row cid name ty notnull dflt pk \<in> set rows" for cid name ty notnull dflt pk
    unfolding sqlite_column_row_pragma [symmetric, of name ty notnull pk dflt cid] set_map
    using that by (rule imageI)
  ultimately show ?thesis using f out by blast
qed

theorem sqlite_column_listing_witness:
  "\<exists>rows. column_listing (sample_driver True) (new_session Sqlite (new_translator FrontMysql Sqlite)) 0 ''t'' =
      (0, Inr (Some (Rows columns_meta rows))) \<and> list_all (\<lambda>r. length r = length columns_meta) rows"
proof -
  let ?s = "new_session Sqlite (new_translator FrontMysql Sqlite)"
  obtain cols rows where f: "fetch (sample_driver True) 0 (table_info (plain_table_name ''t'')) = (0, Inr (cols, rows))"
    using fetch_sample_sqlite by blast
  then have c: "column_listing (sample_driver True) ?s 0 ''t'' = (0, Inr (Some (text_rows (map sqlite_column_row rows))))"
    by (simp add: column_listing_def new_session_def Let_def)
  have "ss_dialect ?s = Sqlite" "snd (column_listing (sample_driver True) ?s 0 ''t'') = Inr (Some (text_rows (map sqlite_column_row rows)))"
    using c by (simp_all add: new_session_def)
  from sqlite_column_listing [OF this] c show ?thesis by (auto simp: text_rows_def)
qed

end
