(* ===== verification/Rewrite_Expr.thy ===== *)
theory Rewrite_Expr
  imports Ast
begin

text \<open>
  The expression rewrites of \<open>src/translate/rewrite.rs\<close>: the visitor \<open>ExprRewriter\<close> with its
  \<open>post_visit_expr\<close>, and \<open>rewrite_values_ref\<close>, which turns MySQL's \<open>VALUES(col)\<close> into
  \<open>excluded.col\<close>.
\<close>

section \<open>The visitor's step\<close>

definition fn_call :: "string \<Rightarrow> 'x expr list \<Rightarrow> 'x expr" where
  "fn_call name args =
     Function (Func (object_name_from (ident_new name)) False NoArgs
       (ListArgs None (map Unnamed args) []) None None None [])"

definition lower_expr :: "'x expr \<Rightarrow> 'x expr" where
  "lower_expr e = fn_call ''LOWER'' [e]"

definition now_names :: "string list" where
  "now_names = [''now'', ''current_timestamp'']"

definition uuid_names :: "string list" where
  "uuid_names = [''uuid_generate_v4'', ''gen_random_uuid'']"

definition rewrite_sqlite_function :: "'x sqlparser \<Rightarrow> 'x func \<Rightarrow> 'x expr" where
  "rewrite_sqlite_function P f =
     (let name = to_ascii_lowercase (show_name P (fn_name f)) in
      if name \<in> set now_names then Identifier (ident_new ''CURRENT_TIMESTAMP'')
      else if name \<in> set uuid_names then
        fn_call ''lower'' [fn_call ''hex'' [fn_call ''randomblob'' [ValueExpr (Number ''16'' False)]]]
      else if name = ''rand'' then
        ValueExpr (Number ''((random() / 18446744073709551616) + 1) / 2 * -1'' False)
      else Function f)"

fun post_visit_expr :: "'x sqlparser \<Rightarrow> target_dialect \<Rightarrow> 'x expr \<Rightarrow> 'x expr" where
  "post_visit_expr P target (ILike negated any lhs pattern escape_char) =
     (if target = Mysql \<or> target = Sqlite
      then Like negated any (lower_expr lhs) (lower_expr pattern) escape_char
      else ILike negated any lhs pattern escape_char)"
| "post_visit_expr P target (BinaryOp left oper right) =
     (if oper = StringConcat \<and> target = Mysql then fn_call ''CONCAT'' [left, right]
      else BinaryOp left oper right)"
| "post_visit_expr P target (CastExpr kind e data_type format array) =
     (if kind = DoubleColon \<and> target \<noteq> Postgres then CastExpr Cast e data_type format array
      else CastExpr kind e data_type format array)"
| "post_visit_expr P target (Function f) =
     (if target = Sqlite then rewrite_sqlite_function P f else Function f)"
| "post_visit_expr P target e = e"

section \<open>What the target accepts\<close>

text \<open>One node the target has no syntax or no function for.\<close>

fun portable_node :: "'x sqlparser \<Rightarrow> target_dialect \<Rightarrow> 'x expr \<Rightarrow> bool" where
  "portable_node P target (ILike n a l p c) \<longleftrightarrow> target = Postgres"
| "portable_node P target (BinaryOp l oper r) \<longleftrightarrow> \<not> (oper = StringConcat \<and> target = Mysql)"
| "portable_node P target (CastExpr k e dt fmt arr) \<longleftrightarrow> \<not> (k = DoubleColon \<and> target \<noteq> Postgres)"
| "portable_node P target (Function f) \<longleftrightarrow>
     \<not> (target = Sqlite \<and>
        to_ascii_lowercase (show_name P (fn_name f)) \<in> set (now_names @ uuid_names @ [''rand'']))"
| "portable_node P target e \<longleftrightarrow> True"

text \<open>
  The \<open>Display\<close> of an unquoted one-part name is its text; needed for the five names the rewrites
  introduce.
\<close>

definition introduced_names :: "string list" where
  "introduced_names = [''LOWER'', ''CONCAT'', ''lower'', ''hex'', ''randomblob'']"

definition shows_bare_names :: "'x sqlparser \<Rightarrow> bool" where
  "shows_bare_names P \<longleftrightarrow>
     (\<forall>s \<in> set introduced_names. show_name P (object_name_from (ident_new s)) = s)"

lemma introduced_names_harmless:
  "\<forall>s \<in> set introduced_names. to_ascii_lowercase s \<notin> set (now_names @ uuid_names @ [''rand''])"
  by code_simp

lemma introduced_portable:
  assumes "shows_bare_names P" "s \<in> set introduced_names" "\<forall>a \<in> set args. expr_all (portable_node P target) a"
  shows "expr_all (portable_node P target) (fn_call s args)"
  using assms introduced_names_harmless by (auto simp: fn_call_def shows_bare_names_def)

lemma post_visit_portable:
  assumes "shows_bare_names P" "\<forall>d \<in> set (parts e). expr_all (portable_node P target) d"
  shows "expr_all (portable_node P target) (post_visit_expr P target e)"
proof -
  note intro = introduced_portable [OF assms(1)]
  show ?thesis
  proof (cases e)
    case (Function f)
    have "expr_all (portable_node P target) (Function f)" if "portable_node P target (Function f)"
      using that assms(2) Function by (simp add: func_all_parts)
    moreover have "expr_all (portable_node P target)
        (fn_call ''lower'' [fn_call ''hex'' [fn_call ''randomblob'' [ValueExpr (Number ''16'' False)]]])"
      by (intro intro ballI) (auto simp: introduced_names_def intro!: intro)
    ultimately show ?thesis
      using Function by (auto simp: rewrite_sqlite_function_def Let_def)
  next
    case (ILike n a l p c)
    with assms(2) show ?thesis
      by (cases target) (auto simp: lower_expr_def introduced_names_def intro!: intro)
  next
    case (BinaryOp l oper r)
    with assms(2) show ?thesis
      by (auto simp: introduced_names_def intro!: intro)
  qed (use assms(2) in auto)
qed

lemma post_visit_id: "portable_node P target e \<Longrightarrow> post_visit_expr P target e = e"
  by (cases e; cases target) (auto simp: rewrite_sqlite_function_def Let_def)

text \<open>A step that fixes every good node makes a traversal that fixes every good tree.\<close>

lemma map_option_idI: "(\<And>x. y = Some x \<Longrightarrow> f x = x) \<Longrightarrow> map_option f y = y"
  by (cases y) auto

lemma bottom_up_id:
  assumes "\<And>e. P e \<Longrightarrow> f e = e"
  shows "expr_all P e \<Longrightarrow> bottom_up f e = e"
    and "func_all P fn \<Longrightarrow> bottom_up_func f fn = fn"
    and "args_all P as \<Longrightarrow> bottom_up_args f as = as"
    and "arg_all P a \<Longrightarrow> bottom_up_arg f a = a"
  by (induction e and fn and as and a) (auto simp: assms map_idI map_option_idI)

lemma expr_all_True:
  fixes e :: "'x expr" and fn :: "'x func" and as :: "'x fn_args" and a :: "'x fn_arg"
  shows "expr_all (\<lambda>_. True) e" and "func_all (\<lambda>_. True) fn"
    and "args_all (\<lambda>_. True) as" and "arg_all (\<lambda>_. True) a"
  by (induction e and fn and as and a) auto

lemma postgres_portable: "portable_node P Postgres e"
  by (cases e) simp_all

lemma normaliser_exprs:
  assumes "shows_bare_names P"
  shows "normaliser (bottom_up (post_visit_expr P target)) (expr_all (portable_node P target))"
proof
  show "expr_all (portable_node P target) (bottom_up (post_visit_expr P target) e)" for e
    by (rule bottom_up_all) (rule post_visit_portable [OF assms])
  show "expr_all (portable_node P target) e \<Longrightarrow> bottom_up (post_visit_expr P target) e = e" for e
    by (rule bottom_up_id) (rule post_visit_id)
qed

text \<open>
  C25. For a traversal that visits every expression after its children, the rewriting leaves no node
  the target lacks, at any depth: no \<open>ILIKE\<close> and no \<open>::\<close> cast for MySQL and SQLite, no \<open>||\<close> for
  MySQL, no \<open>now\<close>, UUID or \<open>rand\<close> function for SQLite. An expression without such nodes is returned
  as it is, so rewriting twice is rewriting once, and the PostgreSQL target changes nothing at all.
\<close>

theorem expression_rewriting_portable:
  assumes "shows_bare_names P"
  shows "expr_all (portable_node P target) (bottom_up (post_visit_expr P target) e) \<and>
         (bottom_up (post_visit_expr P target) e = e \<longleftrightarrow> expr_all (portable_node P target) e) \<and>
         bottom_up (post_visit_expr P target) (bottom_up (post_visit_expr P target) e) =
           bottom_up (post_visit_expr P target) e \<and>
         bottom_up (post_visit_expr P Postgres) e = e"
proof -
  note nf = normaliser_exprs [OF assms]
  have "bottom_up (post_visit_expr P Postgres) e = e"
    by (rule bottom_up_id(1) [of "\<lambda>_. True"]) (auto intro: post_visit_id simp: postgres_portable expr_all_True)
  then show ?thesis
    using normaliser.ok_norm [OF nf] normaliser.norm_fixed_iff [OF nf] normaliser.norm_idem [OF nf]
    by blast
qed

lemma sample_parser_bare: "shows_bare_names sample_parser"
  by (simp add: shows_bare_names_def introduced_names_def sample_parser_def object_name_from_def ident_new_def)

theorem expression_rewriting_portable_witness:
  "expr_all (portable_node sample_parser Sqlite)
     (bottom_up (post_visit_expr sample_parser Sqlite)
       (ILike False False (Identifier (ident_new ''a'')) (fn_call ''NOW'' []) None))"
  using expression_rewriting_portable [OF sample_parser_bare] by blast

section \<open>VALUES(col)\<close>

text \<open>A call \<open>VALUES(col)\<close> with one unnamed argument that is a plain identifier.\<close>

fun values_column :: "'x sqlparser \<Rightarrow> 'x func \<Rightarrow> ident option" where
  "values_column P (Func n odbc ps args fl nt ov wg) =
     (if to_ascii_uppercase (show_name P n) = ''VALUES''
      then (case args of ListArgs dup [Unnamed (Identifier col)] cl \<Rightarrow> Some col | _ \<Rightarrow> None)
      else None)"

fun rewrite_values_ref :: "'x sqlparser \<Rightarrow> 'x expr \<Rightarrow> 'x expr"
  and rewrite_values_func :: "'x sqlparser \<Rightarrow> 'x func \<Rightarrow> 'x func"
  and rewrite_values_args :: "'x sqlparser \<Rightarrow> 'x fn_args \<Rightarrow> 'x fn_args"
  and rewrite_values_arg :: "'x sqlparser \<Rightarrow> 'x fn_arg \<Rightarrow> 'x fn_arg"
where
  "rewrite_values_ref P (Function f) =
     (case values_column P f of
        Some col \<Rightarrow> CompoundIdentifier [ident_new ''excluded'', col]
      | None \<Rightarrow> Function (rewrite_values_func P f))"
| "rewrite_values_ref P (BinaryOp left oper right) =
     BinaryOp (rewrite_values_ref P left) oper (rewrite_values_ref P right)"
| "rewrite_values_ref P (UnaryOp oper e) = UnaryOp oper (rewrite_values_ref P e)"
| "rewrite_values_ref P (Nested e) = Nested (rewrite_values_ref P e)"
| "rewrite_values_ref P (CastExpr kind e data_type format array) =
     CastExpr kind (rewrite_values_ref P e) data_type format array"
| "rewrite_values_ref P e = e"
| "rewrite_values_func P (Func n odbc ps args fl nt ov wg) =
     Func n odbc ps (rewrite_values_args P args) fl nt ov wg"
| "rewrite_values_args P (ListArgs dup as cl) = ListArgs dup (map (rewrite_values_arg P) as) cl"
| "rewrite_values_args P args = args"
| "rewrite_values_arg P (Unnamed e) = Unnamed (rewrite_values_ref P e)"
| "rewrite_values_arg P a = a"

text \<open>No such call in the positions the rewrite descends into.\<close>

fun values_free :: "'x sqlparser \<Rightarrow> 'x expr \<Rightarrow> bool"
  and values_free_func :: "'x sqlparser \<Rightarrow> 'x func \<Rightarrow> bool"
  and values_free_args :: "'x sqlparser \<Rightarrow> 'x fn_args \<Rightarrow> bool"
  and values_free_arg :: "'x sqlparser \<Rightarrow> 'x fn_arg \<Rightarrow> bool"
where
  "values_free P (Function f) \<longleftrightarrow> values_column P f = None \<and> values_free_func P f"
| "values_free P (BinaryOp left oper right) \<longleftrightarrow> values_free P left \<and> values_free P right"
| "values_free P (UnaryOp oper e) \<longleftrightarrow> values_free P e"
| "values_free P (Nested e) \<longleftrightarrow> values_free P e"
| "values_free P (CastExpr kind e data_type format array) \<longleftrightarrow> values_free P e"
| "values_free P e \<longleftrightarrow> True"
| "values_free_func P (Func n odbc ps args fl nt ov wg) \<longleftrightarrow> values_free_args P args"
| "values_free_args P (ListArgs dup as cl) \<longleftrightarrow> (\<forall>a \<in> set as. values_free_arg P a)"
| "values_free_args P args \<longleftrightarrow> True"
| "values_free_arg P (Unnamed e) \<longleftrightarrow> values_free P e"
| "values_free_arg P a \<longleftrightarrow> True"

text \<open>The rewrite makes an identifier only of itself, so no call becomes a new \<open>VALUES(col)\<close>.\<close>

lemma rewrite_values_ref_identifier [simp]:
  "rewrite_values_ref P e = Identifier i \<longleftrightarrow> e = Identifier i"
  by (cases e) (auto split: option.splits)

lemma rewrite_values_arg_identifier [simp]:
  "rewrite_values_arg P a = Unnamed (Identifier i) \<longleftrightarrow> a = Unnamed (Identifier i)"
  by (cases a) simp_all

lemma values_column_Some:
  "values_column P (Func n odbc ps args fl nt ov wg) = Some col \<longleftrightarrow>
   to_ascii_uppercase (show_name P n) = ''VALUES'' \<and> (\<exists>dup cl. args = ListArgs dup [Unnamed (Identifier col)] cl)"
  by (auto split: fn_args.splits list.splits fn_arg.splits expr.splits)

lemma rewrite_values_args_single:
  "rewrite_values_args P args = ListArgs dup [Unnamed (Identifier col)] cl \<longleftrightarrow>
   args = ListArgs dup [Unnamed (Identifier col)] cl"
  by (cases args) auto

lemma values_column_rewrite [simp]:
  "values_column P (rewrite_values_func P f) = values_column P f"
proof (cases f)
  case (Func n odbc ps args fl nt ov wg)
  have "values_column P (rewrite_values_func P f) = Some col \<longleftrightarrow> values_column P f = Some col" for col
    unfolding Func rewrite_values_func.simps values_column_Some rewrite_values_args_single by (rule refl)
  then show ?thesis by (metis not_None_eq)
qed

lemma values_free_rewrite:
  "values_free P (rewrite_values_ref P e)"
  "values_free_func P (rewrite_values_func P f)"
  "values_free_args P (rewrite_values_args P as)"
  "values_free_arg P (rewrite_values_arg P a)"
  by (induction P e and P f and P as and P a
      rule: rewrite_values_ref_rewrite_values_func_rewrite_values_args_rewrite_values_arg.induct)
    (auto split: option.splits)

lemma rewrite_values_id:
  "values_free P e \<Longrightarrow> rewrite_values_ref P e = e"
  "values_free_func P f \<Longrightarrow> rewrite_values_func P f = f"
  "values_free_args P as \<Longrightarrow> rewrite_values_args P as = as"
  "values_free_arg P a \<Longrightarrow> rewrite_values_arg P a = a"
  by (induction P e and P f and P as and P a
      rule: rewrite_values_ref_rewrite_values_func_rewrite_values_args_rewrite_values_arg.induct)
    (auto simp: map_idI)

interpretation vals: normaliser "rewrite_values_ref P" "values_free P" for P
  by unfold_locales (rule values_free_rewrite(1), rule rewrite_values_id(1))

text \<open>
  Rewriting \<open>VALUES(col)\<close> is a normalisation: afterwards no such call is left in the positions it
  descends into (operands, parentheses, casts, function arguments, at any depth), an expression is
  unchanged exactly when it held none, and a second pass changes nothing.
\<close>

theorem rewrite_values_ref_normalises:
  "values_free P (rewrite_values_ref P e) \<and>
   (rewrite_values_ref P e = e \<longleftrightarrow> values_free P e) \<and>
   rewrite_values_ref P (rewrite_values_ref P e) = rewrite_values_ref P e"
  using vals.ok_norm vals.norm_fixed_iff vals.norm_idem by blast

end
