(* ===== verification/Create_Table.thy ===== *)
theory Create_Table
  imports Ast
begin

text \<open>
  \<open>src/translate/types.rs\<close>: the data type mapping, the recognition of auto-increment columns, the
  rewriting of a column's options and of a whole \<open>CREATE TABLE\<close>.
\<close>

section \<open>Auto-increment widths\<close>

datatype auto_inc = AutoSmall | AutoInt | AutoBig

instantiation auto_inc :: linorder
begin

fun less_eq_auto_inc :: "auto_inc \<Rightarrow> auto_inc \<Rightarrow> bool" where
  "less_eq_auto_inc AutoSmall w = True"
| "less_eq_auto_inc AutoInt w = (w \<noteq> AutoSmall)"
| "less_eq_auto_inc AutoBig w = (w = AutoBig)"

definition less_auto_inc :: "auto_inc \<Rightarrow> auto_inc \<Rightarrow> bool" where
  "less_auto_inc v w \<longleftrightarrow> v \<le> w \<and> \<not> w \<le> v"

instance
proof
  fix u v w :: auto_inc
  show "v < w \<longleftrightarrow> v \<le> w \<and> \<not> w \<le> v" by (rule less_auto_inc_def)
  show "v \<le> v" by (cases v) auto
  show "u \<le> v \<Longrightarrow> v \<le> w \<Longrightarrow> u \<le> w" by (cases u; cases v; cases w) auto
  show "v \<le> w \<Longrightarrow> w \<le> v \<Longrightarrow> v = w" by (cases v; cases w) auto
  show "v \<le> w \<or> w \<le> v" by (cases v; cases w) auto
qed

end

section \<open>Data types\<close>

definition obj :: "string \<Rightarrow> object_name" where
  "obj name = object_name_from (ident_new name)"

abbreviation named_type :: "string \<Rightarrow> 'x data_type" where
  "named_type name \<equiv> Custom (obj name) []"

text \<open>The groups of variants the three arms of \<open>map_type\<close> share.\<close>

definition text_types :: "sized_type set" where
  "text_types = {Varchar, Char, Character, CharacterVarying, CharVarying, StringType, Clob}"

definition blob_types :: "sized_type set" where
  "blob_types = {Binary, Varbinary, Blob, Bytes, Bit, BitVarying, VarBit}"

definition numeric_types :: "sized_type set" where
  "numeric_types = {Numeric, Decimal, Dec, BigDecimal}"

definition integer_types :: "sized_type set" where
  "integer_types = {IntType, Int4, Integer, Int2, SmallInt, TinyInt, MediumInt, Int8, BigInt, IntUnsigned,
     Int4Unsigned, IntegerUnsigned, Int2Unsigned, SmallIntUnsigned, Int8Unsigned, BigIntUnsigned}"

lemmas type_groups = text_types_def blob_types_def numeric_types_def integer_types_def

fun mysql_type :: "'x data_type \<Rightarrow> 'x data_type" where
  "mysql_type (Plain t) =
     (if t \<in> {Bool, Boolean} then named_type ''BOOLEAN''
      else if t \<in> {Float4, Float32} then named_type ''FLOAT''
      else if t \<in> {Float64, DoublePrecision, DoublePrecisionUnsigned, Float8} then named_type ''DOUBLE''
      else if t \<in> {Real, RealUnsigned} then named_type ''FLOAT''
      else if t = TinyText then named_type ''TINYTEXT''
      else if t = MediumText then named_type ''MEDIUMTEXT''
      else if t = LongText then named_type ''LONGTEXT''
      else if t \<in> {JSON, JSONB} then named_type ''JSON''
      else if t = Bytea then named_type ''BLOB''
      else if t = Date then named_type ''DATE''
      else if t = Uuid then named_type ''CHAR(36)''
      else Plain t)"
| "mysql_type (Sized t x) =
     (if t \<in> integer_types then Sized t x
      else if t = Float then named_type ''FLOAT''
      else if t \<in> {Double, DoubleUnsigned} then named_type ''DOUBLE''
      else if t \<in> text_types then Sized t x
      else if t \<in> blob_types then named_type ''BLOB''
      else if t \<in> numeric_types then Sized t x
      else if t = Time then named_type ''TIME''
      else if t = Datetime then named_type ''DATETIME''
      else if t \<in> {Timestamp, TimestampNtz} then named_type ''TIMESTAMP''
      else if t = Interval then named_type ''TEXT''
      else Sized t x)"
| "mysql_type dt = dt"

fun sqlite_type :: "'x data_type \<Rightarrow> 'x data_type" where
  "sqlite_type (Plain t) =
     (if t \<in> {Bool, Boolean} then named_type ''BOOLEAN''
      else if t \<in> {Float4, Float32, Float8, Float64, DoublePrecision, DoublePrecisionUnsigned, Real, RealUnsigned}
      then named_type ''REAL''
      else if t \<in> {TinyText, MediumText, LongText, Text} then named_type ''TEXT''
      else if t \<in> {JSON, JSONB} then named_type ''TEXT''
      else if t = Bytea then named_type ''BLOB''
      else if t = Date then named_type ''TEXT''
      else if t = Uuid then named_type ''TEXT''
      else Plain t)"
| "sqlite_type (Sized t x) =
     (if t \<in> {BigInt, Int8, BigIntUnsigned, Int8Unsigned} then named_type ''BIGINT''
      else if t \<in> {SmallInt, Int2, SmallIntUnsigned, Int2Unsigned, TinyInt} then named_type ''SMALLINT''
      else if t \<in> {IntType, Int4, Integer, MediumInt, IntUnsigned, Int4Unsigned, IntegerUnsigned}
      then named_type ''INTEGER''
      else if t \<in> {Float, Double, DoubleUnsigned} then named_type ''REAL''
      else if t \<in> text_types then named_type ''TEXT''
      else if t \<in> blob_types then named_type ''BLOB''
      else if t \<in> numeric_types then named_type ''NUMERIC''
      else if t \<in> {Time, Datetime, Timestamp, TimestampNtz} then named_type ''TEXT''
      else if t = Interval then named_type ''TEXT''
      else Sized t x)"
| "sqlite_type dt = dt"

fun postgres_type :: "'x data_type \<Rightarrow> 'x data_type" where
  "postgres_type (Plain t) =
     (if t \<in> {Bool, Boolean} then named_type ''BOOLEAN''
      else if t \<in> {Float4, Float32, Real, RealUnsigned} then named_type ''REAL''
      else if t \<in> {Float64, DoublePrecision, DoublePrecisionUnsigned, Float8} then named_type ''DOUBLE PRECISION''
      else if t \<in> {Text, TinyText, MediumText, LongText} then named_type ''TEXT''
      else if t = JSON then named_type ''JSON''
      else if t = JSONB then named_type ''JSONB''
      else if t \<in> {Bytea, TinyBlob, MediumBlob, LongBlob} then named_type ''BYTEA''
      else if t = Date then named_type ''DATE''
      else if t = Uuid then named_type ''UUID''
      else Plain t)"
| "postgres_type (Sized t x) =
     (if t \<in> {IntType, Int4, Integer, MediumInt} then named_type ''INTEGER''
      else if t \<in> {TinyInt, SmallInt, Int2, SmallIntUnsigned, Int2Unsigned} then named_type ''SMALLINT''
      else if t \<in> {Int8, BigInt, BigIntUnsigned, Int8Unsigned} then named_type ''BIGINT''
      else if t \<in> {IntUnsigned, Int4Unsigned, IntegerUnsigned} then named_type ''INTEGER''
      else if t = Float then named_type ''REAL''
      else if t \<in> {Double, DoubleUnsigned} then named_type ''DOUBLE PRECISION''
      else if t \<in> text_types then named_type ''TEXT''
      else if t \<in> blob_types then named_type ''BYTEA''
      else if t \<in> numeric_types then Sized t x
      else if t = Time then named_type ''TIME''
      else if t \<in> {Datetime, Timestamp, TimestampNtz} then named_type ''TIMESTAMP''
      else Sized t x)"
| "postgres_type dt = dt"

fun mapped_type :: "target_dialect \<Rightarrow> 'x data_type \<Rightarrow> 'x data_type" where
  "mapped_type Mysql dt = mysql_type dt"
| "mapped_type Sqlite dt = sqlite_type dt"
| "mapped_type Postgres dt = postgres_type dt"

definition map_type :: "'x data_type \<Rightarrow> target_dialect \<Rightarrow> 'x data_type res" where
  "map_type dt target = Inr (mapped_type target dt)"

text \<open>The types a target keeps as they are, written as what is left of the source's enumeration.\<close>

fun native_type :: "target_dialect \<Rightarrow> 'x data_type \<Rightarrow> bool" where
  "native_type target (Custom n args) \<longleftrightarrow> True"
| "native_type target (OtherType x) \<longleftrightarrow> True"
| "native_type Postgres (Plain t) \<longleftrightarrow> False"
| "native_type Sqlite (Plain t) \<longleftrightarrow> t \<in> {TinyBlob, MediumBlob, LongBlob}"
| "native_type Mysql (Plain t) \<longleftrightarrow> t \<in> {Text, TinyBlob, MediumBlob, LongBlob}"
| "native_type Postgres (Sized t x) \<longleftrightarrow> t \<in> numeric_types \<union> {Interval}"
| "native_type Sqlite (Sized t x) \<longleftrightarrow> False"
| "native_type Mysql (Sized t x) \<longleftrightarrow> t \<in> integer_types \<union> text_types \<union> numeric_types"

lemma native_mapped_type: "native_type target (mapped_type target dt)"
proof (cases dt)
  case (Plain t)
  then show ?thesis by (cases target; cases t) simp_all
next
  case (Sized t x)
  then show ?thesis by (cases target; cases t) (simp_all add: type_groups)
qed (cases target; simp)+

lemma mapped_type_id: "native_type target dt \<Longrightarrow> mapped_type target dt = dt"
proof (cases dt)
  case (Plain t)
  then show "native_type target dt \<Longrightarrow> mapped_type target dt = dt"
    by (cases target; cases t) simp_all
next
  case (Sized t x)
  then show "native_type target dt \<Longrightarrow> mapped_type target dt = dt"
    by (cases target; cases t) (simp_all add: type_groups)
qed (cases target; simp)+

interpretation types: normaliser "mapped_type target" "native_type target" for target
  by unfold_locales (rule native_mapped_type, rule mapped_type_id)


section \<open>Columns\<close>

definition auto_keywords :: "string list" where
  "auto_keywords = [''AUTO_INCREMENT'', ''AUTOINCREMENT'']"

definition stripped_keywords :: "string list" where
  "stripped_keywords = [''ENGINE'', ''COMMENT'', ''CHARSET'', ''COLLATE'']"

fun token_in :: "string list \<Rightarrow> 'x token \<Rightarrow> bool" where
  "token_in ws (TokWord w) \<longleftrightarrow> to_ascii_uppercase w \<in> set ws"
| "token_in ws (OtherToken x) \<longleftrightarrow> False"

fun is_auto_option :: "'x column_option \<Rightarrow> bool" where
  "is_auto_option (DialectSpecific tokens) \<longleftrightarrow> list_ex (token_in auto_keywords) tokens"
| "is_auto_option opt \<longleftrightarrow> False"

definition serial_width :: "string \<Rightarrow> auto_inc option" where
  "serial_width n =
     (if n = ''serial'' \<or> n = ''serial4'' then Some AutoInt
      else if n = ''bigserial'' \<or> n = ''serial8'' then Some AutoBig
      else if n = ''smallserial'' \<or> n = ''serial2'' then Some AutoSmall
      else None)"

fun integer_width :: "'x data_type \<Rightarrow> auto_inc" where
  "integer_width (Sized t x) =
     (if t \<in> {SmallInt, Int2, TinyInt} then AutoSmall
      else if t \<in> {BigInt, Int8} then AutoBig
      else AutoInt)"
| "integer_width dt = AutoInt"

definition detect_auto_increment :: "'x sqlparser \<Rightarrow> 'x column_def \<Rightarrow> auto_inc option" where
  "detect_auto_increment P col =
     (case (case col_data_type col of
              Custom name args \<Rightarrow> serial_width (to_ascii_lowercase (show_name P name))
            | _ \<Rightarrow> None) of
        Some width \<Rightarrow> Some width
      | None \<Rightarrow>
          if list_ex (\<lambda>d. is_auto_option (opt_option d)) (col_options col)
          then Some (integer_width (col_data_type col)) else None)"

definition int_type :: "auto_inc \<Rightarrow> string \<Rightarrow> 'x data_type" where
  "int_type width dialect =
     (let name =
        (if dialect = ''SQLITE'' then ''INTEGER''
         else case width of AutoSmall \<Rightarrow> ''SMALLINT'' | AutoInt \<Rightarrow> ''INTEGER'' | AutoBig \<Rightarrow> ''BIGINT'')
      in named_type name)"

definition column_option :: "'x column_option \<Rightarrow> 'x column_option_def" where
  "column_option option = \<lparr>opt_name = None, opt_option = option\<rparr>"

definition auto_option :: "string \<Rightarrow> 'x column_option_def" where
  "auto_option keyword = column_option (DialectSpecific [TokWord keyword])"

definition bare_primary_key :: "'x column_option_def" where
  "bare_primary_key = column_option (PrimaryKey \<lparr>pk_name = None, pk_index_name = None, pk_index_type = None,
     pk_columns = [], pk_index_options = [], pk_characteristics = None\<rparr>)"

fun is_primary_key :: "'x column_option \<Rightarrow> bool" where
  "is_primary_key (PrimaryKey pk) \<longleftrightarrow> True"
| "is_primary_key opt \<longleftrightarrow> False"

text \<open>One turn of the loop over the options: whether the option is pushed to \<open>kept\<close>.\<close>

fun keep_option :: "target_dialect \<Rightarrow> 'x column_option \<Rightarrow> bool" where
  "keep_option target (DialectSpecific tokens) \<longleftrightarrow>
     \<not> list_ex (token_in auto_keywords) tokens \<and>
     \<not> (list_ex (token_in stripped_keywords) tokens \<and> target \<noteq> Mysql)"
| "keep_option target (CommentOption x) \<longleftrightarrow> target = Mysql"
| "keep_option target (CharacterSet x) \<longleftrightarrow> target = Mysql"
| "keep_option target (Collation x) \<longleftrightarrow> target = Mysql"
| "keep_option target (OnUpdate x) \<longleftrightarrow> target = Mysql"
| "keep_option target opt \<longleftrightarrow> True"

definition kept_options :: "target_dialect \<Rightarrow> 'x column_option_def list \<Rightarrow> 'x column_option_def list" where
  "kept_options target opts = filter (\<lambda>d. keep_option target (opt_option d)) opts"

definition serial_name :: "auto_inc \<Rightarrow> string" where
  "serial_name width =
     (case width of AutoSmall \<Rightarrow> ''SMALLSERIAL'' | AutoInt \<Rightarrow> ''SERIAL'' | AutoBig \<Rightarrow> ''BIGSERIAL'')"

definition rewrite_column_options ::
  "'x column_def \<Rightarrow> target_dialect \<Rightarrow> auto_inc option \<Rightarrow> 'x column_def res" where
  "rewrite_column_options col target auto =
     (let kept = kept_options target (col_options col) in
      Inr (case auto of
             None \<Rightarrow> col\<lparr>col_options := kept\<rparr>
           | Some width \<Rightarrow>
               (case target of
                  Mysql \<Rightarrow>
                    col\<lparr>col_data_type := int_type width ''MYSQL'',
                        col_options := kept @ [auto_option ''AUTO_INCREMENT'']\<rparr>
                | Sqlite \<Rightarrow>
                    col\<lparr>col_data_type := int_type width ''SQLITE'',
                        col_options :=
                          kept @ (if list_ex (\<lambda>d. is_primary_key (opt_option d)) kept then []
                                  else [bare_primary_key]) @
                          [auto_option ''AUTOINCREMENT'']\<rparr>
                | Postgres \<Rightarrow>
                    col\<lparr>col_data_type := named_type (serial_name width), col_options := kept\<rparr>)))"

text \<open>The body of the loop over the columns: the column, and the name it records if any.\<close>

definition rewrite_column ::
  "'x sqlparser \<Rightarrow> target_dialect \<Rightarrow> 'x column_def \<Rightarrow> ('x column_def \<times> string option) res" where
  "rewrite_column P target col =
     (case map_type (col_data_type col) target of
        Inl f \<Rightarrow> Inl f
      | Inr dt \<Rightarrow>
          (let col1 = col\<lparr>col_data_type := dt\<rparr>; auto = detect_auto_increment P col1 in
           case rewrite_column_options col1 target auto of
             Inl f \<Rightarrow> Inl f
           | Inr col2 \<Rightarrow> Inr (col2, if auto = None then None else Some (id_value (col_name col2)))))"

fun rewrite_columns ::
  "'x sqlparser \<Rightarrow> target_dialect \<Rightarrow> string option \<Rightarrow> 'x column_def list \<Rightarrow> ('x column_def list \<times> string option) res" where
  "rewrite_columns P target autoincr [] = Inr ([], autoincr)"
| "rewrite_columns P target autoincr (col # cols) =
     (case rewrite_column P target col of
        Inl f \<Rightarrow> Inl f
      | Inr (col', found) \<Rightarrow>
          (case rewrite_columns P target (case found of None \<Rightarrow> autoincr | Some n \<Rightarrow> Some n) cols of
             Inl f \<Rightarrow> Inl f
           | Inr (cols', autoincr') \<Rightarrow> Inr (col' # cols', autoincr')))"

section \<open>Tables\<close>

fun mentions_column :: "'x sqlparser \<Rightarrow> string \<Rightarrow> 'x table_constraint \<Rightarrow> bool" where
  "mentions_column P name (PrimaryKeyConstraint pk) \<longleftrightarrow>
     list_ex (\<lambda>n. n = to_ascii_lowercase name)
       (map (\<lambda>c. to_ascii_lowercase (show_index_column P c)) (pk_columns pk))"
| "mentions_column P name (OtherConstraint x) \<longleftrightarrow> False"

definition rewrite_create_table ::
  "'x sqlparser \<Rightarrow> 'x create_table \<Rightarrow> target_dialect \<Rightarrow> 'x create_table res" where
  "rewrite_create_table P ct target =
     (let ct1 = (if target \<noteq> Mysql then ct\<lparr>ct_table_options := None\<rparr> else ct);
          ct2 = (if target \<noteq> Postgres \<and> ct_or_replace ct1 then ct1\<lparr>ct_or_replace := False\<rparr> else ct1)
      in case rewrite_columns P target None (ct_columns ct2) of
           Inl f \<Rightarrow> Inl f
         | Inr (cols, autoincr) \<Rightarrow>
             (let ct3 = ct2\<lparr>ct_columns := cols\<rparr> in
              Inr (if target = Sqlite then
                     (case autoincr of
                        None \<Rightarrow> ct3
                      | Some name \<Rightarrow>
                          ct3\<lparr>ct_constraints :=
                                filter (\<lambda>c. \<not> mentions_column P name c) (ct_constraints ct3)\<rparr>)
                   else ct3)))"

section \<open>Auto-increment columns\<close>

text \<open>The width the loop body detects: on the column with its type already mapped.\<close>

definition detected :: "'x sqlparser \<Rightarrow> target_dialect \<Rightarrow> 'x column_def \<Rightarrow> auto_inc option" where
  "detected P target col =
     detect_auto_increment P (col\<lparr>col_data_type := mapped_type target (col_data_type col)\<rparr>)"

text \<open>What a rewritten column looks like, by target and detected width.\<close>

definition no_auto :: "'x column_option_def list \<Rightarrow> bool" where
  "no_auto opts \<longleftrightarrow> (\<forall>d \<in> set opts. \<not> is_auto_option (opt_option d))"

fun auto_column_ok :: "target_dialect \<Rightarrow> auto_inc option \<Rightarrow> 'x column_def \<Rightarrow> bool" where
  "auto_column_ok target None col \<longleftrightarrow> no_auto (col_options col)"
| "auto_column_ok Mysql (Some w) col \<longleftrightarrow>
     col_data_type col = int_type w ''MYSQL'' \<and>
     (\<exists>opts. col_options col = opts @ [auto_option ''AUTO_INCREMENT''] \<and> no_auto opts)"
| "auto_column_ok Sqlite (Some w) col \<longleftrightarrow>
     col_data_type col = named_type ''INTEGER'' \<and>
     (\<exists>opts. col_options col = opts @ [auto_option ''AUTOINCREMENT''] \<and> no_auto opts \<and>
        (\<exists>d \<in> set opts. is_primary_key (opt_option d)))"
| "auto_column_ok Postgres (Some w) col \<longleftrightarrow>
     col_data_type col = named_type (serial_name w) \<and> no_auto (col_options col)"

lemma keep_not_auto: "keep_option target opt \<Longrightarrow> \<not> is_auto_option opt"
  by (cases opt) auto

lemma no_auto_kept: "no_auto (kept_options target opts)"
  by (auto simp: no_auto_def kept_options_def dest: keep_not_auto)

lemma no_auto_append [simp]: "no_auto (a @ b) \<longleftrightarrow> no_auto a \<and> no_auto b"
  by (auto simp: no_auto_def)

lemma no_auto_bare_pk [simp]: "no_auto [bare_primary_key]" "no_auto []"
  by (simp_all add: no_auto_def bare_primary_key_def column_option_def)

lemma bare_primary_key_is [simp]: "is_primary_key (opt_option bare_primary_key)"
  by (simp add: bare_primary_key_def column_option_def)

lemma rewrite_column_ok:
  "\<exists>col'. rewrite_column P target col =
     Inr (col', map_option (\<lambda>_. id_value (col_name col)) (detected P target col)) \<and>
     auto_column_ok target (detected P target col) col' \<and> col_name col' = col_name col"
proof (cases "detected P target col")
  case None
  then show ?thesis
    by (auto simp: rewrite_column_def rewrite_column_options_def map_type_def detected_def Let_def no_auto_kept)
next
  case (Some w)
  then show ?thesis
    by (cases target)
      (auto simp: rewrite_column_def rewrite_column_options_def map_type_def detected_def Let_def
        no_auto_kept int_type_def list_ex_iff)
qed

lemma rewrite_column_kept:
  assumes "rewrite_column P target col = Inr (col', n)"
  shows "native_type target (col_data_type col')"
    "\<exists>added. col_options col' = kept_options target (col_options col) @ added \<and>
       (detected P target col = None \<longrightarrow> added = [])"
proof -
  show "native_type target (col_data_type col')"
    using assms native_mapped_type [of target "col_data_type col"]
    by (cases target)
      (auto simp: rewrite_column_def rewrite_column_options_def map_type_def Let_def int_type_def
        split: option.splits)
  show "\<exists>added. col_options col' = kept_options target (col_options col) @ added \<and>
       (detected P target col = None \<longrightarrow> added = [])"
    using assms
    by (cases target)
      (auto simp: rewrite_column_def rewrite_column_options_def map_type_def detected_def Let_def
        split: option.splits)
qed

text \<open>The name the loop leaves in \<open>autoincr_col_name\<close>: that of the last auto-increment column.\<close>

fun last_auto :: "'x sqlparser \<Rightarrow> target_dialect \<Rightarrow> string option \<Rightarrow> 'x column_def list \<Rightarrow> string option" where
  "last_auto P target n [] = n"
| "last_auto P target n (col # cols) =
     last_auto P target (if detected P target col = None then n else Some (id_value (col_name col))) cols"

text \<open>The options only MySQL reads.\<close>

fun mysql_only :: "'x column_option \<Rightarrow> bool" where
  "mysql_only (DialectSpecific tokens) \<longleftrightarrow> (\<exists>t \<in> set tokens. token_in stripped_keywords t)"
| "mysql_only (CommentOption x) \<longleftrightarrow> True"
| "mysql_only (CharacterSet x) \<longleftrightarrow> True"
| "mysql_only (Collation x) \<longleftrightarrow> True"
| "mysql_only (OnUpdate x) \<longleftrightarrow> True"
| "mysql_only opt \<longleftrightarrow> False"

lemma keep_option_iff:
  "keep_option target opt \<longleftrightarrow> \<not> is_auto_option opt \<and> (target = Mysql \<or> \<not> mysql_only opt)"
  by (cases opt) (auto simp: list_ex_iff)

definition column_rel :: "'x sqlparser \<Rightarrow> target_dialect \<Rightarrow> 'x column_def \<Rightarrow> 'x column_def \<Rightarrow> bool" where
  "column_rel P target col col' \<longleftrightarrow>
     auto_column_ok target (detected P target col) col' \<and> col_name col' = col_name col \<and>
     native_type target (col_data_type col') \<and>
     (\<exists>added. col_options col' =
        filter (\<lambda>d. \<not> is_auto_option (opt_option d) \<and> (target = Mysql \<or> \<not> mysql_only (opt_option d)))
          (col_options col) @ added \<and>
        (detected P target col = None \<longrightarrow> added = []))"

lemma rewrite_columns_ok:
  "\<exists>cols'. rewrite_columns P target n cols = Inr (cols', last_auto P target n cols) \<and>
     list_all2 (column_rel P target) cols cols'"
proof (induction cols arbitrary: n)
  case (Cons col cols)
  from rewrite_column_ok [of P target col] obtain col' where c0:
    "rewrite_column P target col =
       Inr (col', map_option (\<lambda>_. id_value (col_name col)) (detected P target col))"
    "auto_column_ok target (detected P target col) col'" "col_name col' = col_name col"
    by blast
  with rewrite_column_kept [OF c0(1)] have c:
    "rewrite_column P target col =
       Inr (col', map_option (\<lambda>_. id_value (col_name col)) (detected P target col))"
    "column_rel P target col col'"
    by (simp_all add: column_rel_def kept_options_def keep_option_iff)
  let ?n = "if detected P target col = None then n else Some (id_value (col_name col))"
  from Cons.IH [of ?n] obtain cols' where
    "rewrite_columns P target ?n cols = Inr (cols', last_auto P target ?n cols)"
    "list_all2 (column_rel P target) cols cols'"
    by blast
  with c show ?case by (cases "detected P target col") auto
qed simp

lemma create_table_ok: "\<exists>ct'. rewrite_create_table P ct target = Inr ct'"
proof -
  from rewrite_columns_ok [of P target None "ct_columns ct"] obtain cols' where
    "rewrite_columns P target None (ct_columns ct) = Inr (cols', last_auto P target None (ct_columns ct))"
    by blast
  then show ?thesis
    by (cases target) (simp_all add: rewrite_create_table_def Let_def)
qed

text \<open>
  A table-level primary key of which one column is written as the name alone: what the parser crate
  prints for the column is the name, upper and lower case aside.
\<close>

definition bare_key_on :: "'x sqlparser \<Rightarrow> string \<Rightarrow> 'x table_constraint \<Rightarrow> bool" where
  "bare_key_on P name con \<longleftrightarrow>
     (\<exists>pk c. con = PrimaryKeyConstraint pk \<and> c \<in> set (pk_columns pk) \<and>
        to_ascii_lowercase (show_index_column P c) = to_ascii_lowercase name)"

lemma mentions_column_iff: "mentions_column P name con \<longleftrightarrow> bare_key_on P name con"
  by (cases con) (auto simp: bare_key_on_def list_ex_iff intro: image_eqI [OF sym])

text \<open>
  C17. Rewriting a \<open>CREATE TABLE\<close> always succeeds and keeps the columns' number, order and names. Every
  column ends with a type that the type mapping leaves as it is for the target and keeps its options in their order, save the auto-increment
  keywords and, outside MySQL, the options only MySQL reads; a column that is not auto-increment gets no
  option. An auto-increment column becomes a \<open>SERIAL\<close> type without a keyword on PostgreSQL, an integer
  type with \<open>AUTO_INCREMENT\<close> last on MySQL, and an \<open>INTEGER\<close> with a primary key somewhere before a final
  \<open>AUTOINCREMENT\<close> on SQLite. Table options survive only for MySQL, \<open>OR REPLACE\<close> only for PostgreSQL. On
  SQLite, when a column is auto-increment, the table-level primary keys that list the last such column by
  its bare name are removed; every other constraint stays, a primary key that lists the column in quotes
  or with a direction included (\<open>quoted_key_stays\<close> shows the table that then has two primary keys).
\<close>

theorem create_table_rewritten:
  "\<exists>ct'. rewrite_create_table P ct target = Inr ct' \<and>
     list_all2 (column_rel P target) (ct_columns ct) (ct_columns ct') \<and>
     ct_table_options ct' = (if target = Mysql then ct_table_options ct else None) \<and>
     ct_or_replace ct' = (target = Postgres \<and> ct_or_replace ct) \<and>
     ct_constraints ct' =
       (case last_auto P target None (ct_columns ct) of
          Some name \<Rightarrow>
            if target = Sqlite then filter (\<lambda>c. \<not> bare_key_on P name c) (ct_constraints ct)
            else ct_constraints ct
        | None \<Rightarrow> ct_constraints ct) \<and>
     ct_rest ct' = ct_rest ct"
proof -
  from rewrite_columns_ok [of P target None "ct_columns ct"] obtain cols' where
    "rewrite_columns P target None (ct_columns ct) = Inr (cols', last_auto P target None (ct_columns ct))"
    "list_all2 (column_rel P target) (ct_columns ct) cols'"
    by blast
  then show ?thesis
    by (cases target; cases "last_auto P target None (ct_columns ct)")
      (simp_all add: rewrite_create_table_def Let_def mentions_column_iff)
qed

text \<open>
  \<open>CREATE TABLE t (id INT AUTO_INCREMENT, PRIMARY KEY (`id`))\<close> for SQLite, with a parser crate that prints
  the key column in the quotes it was written with: the column becomes a primary key and the table-level
  key is not removed, so the statement declares two primary keys, which SQLite refuses.
\<close>

lemma quoted_key_stays:
  fixes P :: "unit sqlparser"
  assumes shows_quotes: "show_index_column P () = ''`id`''"
    and col: "col = \<lparr>col_name = ident_new ''id'', col_data_type = Sized IntType (),
       col_options = [auto_option ''AUTO_INCREMENT'']\<rparr>"
    and key: "key = PrimaryKeyConstraint \<lparr>pk_name = None, pk_index_name = None, pk_index_type = None,
       pk_columns = [()], pk_index_options = [], pk_characteristics = None\<rparr>"
    and ct: "ct_columns ct = [col]" "ct_constraints ct = [key]"
    and names: "show_name P (obj ''INTEGER'') = ''INTEGER''"
  shows "\<exists>ct' col'. rewrite_create_table P ct Sqlite = Inr ct' \<and> ct_constraints ct' = [key] \<and>
           ct_columns ct' = [col'] \<and> (\<exists>d \<in> set (col_options col'). is_primary_key (opt_option d))"
proof -
  have auto: "is_auto_option (opt_option (auto_option ''AUTO_INCREMENT''))" by code_simp
  have width: "serial_width (to_ascii_lowercase ''INTEGER'') = None" by code_simp
  have d: "detected P Sqlite col = Some AutoInt"
    using auto names width by (simp add: col detected_def detect_auto_increment_def type_groups)
  have id: "id_value (col_name col) = ''id''" by (simp add: col ident_new_def)
  have "to_ascii_lowercase ''`id`'' \<noteq> to_ascii_lowercase ''id''" by code_simp
  then have k: "\<not> bare_key_on P ''id'' key" by (simp add: bare_key_on_def key shows_quotes)
  from rewrite_columns_ok [of P Sqlite None "[col]"] d id obtain cols' where
    "rewrite_columns P Sqlite None [col] = Inr (cols', Some ''id'')" "list_all2 (column_rel P Sqlite) [col] cols'"
    by auto
  then obtain col' where c: "rewrite_columns P Sqlite None [col] = Inr ([col'], Some ''id'')"
    "column_rel P Sqlite col col'"
    by (auto simp: list_all2_Cons1)
  from c(2) d have "\<exists>d \<in> set (col_options col'). is_primary_key (opt_option d)"
    by (auto simp: column_rel_def)
  with c(1) k show ?thesis
    by (simp add: rewrite_create_table_def Let_def ct mentions_column_iff del: rewrite_columns.simps)
qed

section \<open>What is lost on the way\<close>

text \<open>The names the mapping gives integer types, and that the printer shows them as they are.\<close>

definition integer_names :: "string list" where
  "integer_names = [''BIGINT'', ''INTEGER'', ''SMALLINT'']"

definition shows_type_names :: "'x sqlparser \<Rightarrow> bool" where
  "shows_type_names P \<longleftrightarrow> (\<forall>s \<in> set integer_names. show_name P (obj s) = s)"

lemma obj_eq_iff [simp]: "obj s = obj t \<longleftrightarrow> s = t"
  by (simp add: obj_def object_name_from_def ident_new_def)

lemma integer_postgres_type:
  "t \<in> integer_types \<Longrightarrow> list_ex (\<lambda>s. postgres_type (Sized t x) = named_type s) integer_names"
  by (cases t) (simp_all add: type_groups integer_names_def)

lemma serial_width_integer:
  "\<forall>s \<in> set integer_names. serial_width (to_ascii_lowercase s) = None"
  by code_simp

text \<open>
  On a PostgreSQL target the width of a MySQL auto-increment column is lost: because the loop maps
  the type before it looks for the width, every integer type with \<open>AUTO_INCREMENT\<close>, \<open>BIGINT\<close> and
  \<open>SMALLINT\<close> included, becomes \<open>SERIAL\<close>, the 32-bit sequence.
\<close>

theorem auto_increment_width_lost:
  assumes "shows_type_names P" "col_data_type col = Sized t x" "t \<in> integer_types"
    "d \<in> set (col_options col)" "is_auto_option (opt_option d)"
  shows "\<exists>col'. rewrite_column P Postgres col = Inr (col', Some (id_value (col_name col))) \<and>
           col_data_type col' = named_type ''SERIAL''"
proof -
  from integer_postgres_type [OF assms(3), of x] obtain s where
    s: "s \<in> set integer_names" "postgres_type (Sized t x) = named_type s"
    unfolding list_ex_iff by blast
  have "show_name P (obj s) = s"
    using s(1) assms(1) unfolding shows_type_names_def by blast
  then have "detected P Postgres col = Some AutoInt"
    using assms(2,4,5) s(2) bspec [OF serial_width_integer s(1)]
    by (auto simp: detected_def detect_auto_increment_def list_ex_iff)
  with rewrite_column_ok [of P Postgres col] show ?thesis by (auto simp: serial_name_def)
qed

theorem auto_increment_width_lost_witness:
  "\<exists>col'. rewrite_column sample_parser Postgres
      \<lparr>col_name = ident_new ''id'', col_data_type = Sized BigInt (),
       col_options = [auto_option ''AUTO_INCREMENT'']\<rparr> = Inr (col', Some ''id'') \<and>
     col_data_type col' = named_type ''SERIAL''"
proof -
  let ?col = "\<lparr>col_name = ident_new ''id'', col_data_type = Sized BigInt (),
       col_options = [auto_option ''AUTO_INCREMENT'']\<rparr>"
  have p: "shows_type_names sample_parser"
    by (simp add: shows_type_names_def integer_names_def sample_parser_def obj_def object_name_from_def ident_new_def)
  have a: "is_auto_option (opt_option (auto_option ''AUTO_INCREMENT''))"
    by code_simp
  from auto_increment_width_lost [OF p, of ?col BigInt "()" "auto_option ''AUTO_INCREMENT''"] a
  show ?thesis by (simp add: type_groups ident_new_def)
qed

text \<open>
  On a SQLite target \<open>AUTOINCREMENT\<close> comes right after the primary key clause, as SQLite's
  grammar wants, exactly when no kept option follows that clause: with the source's order
  \<open>PRIMARY KEY NOT NULL\<close> the keyword ends up after \<open>NOT NULL\<close>.
\<close>

theorem sqlite_autoincrement_adjacent:
  assumes "rewrite_column_options col Sqlite (Some w) = Inr col'"
  shows "(\<exists>opts pk. col_options col' = opts @ [pk, auto_option ''AUTOINCREMENT''] \<and> is_primary_key (opt_option pk))
         \<longleftrightarrow>
         (let kept = kept_options Sqlite (col_options col) in
          list_ex (\<lambda>d. is_primary_key (opt_option d)) kept \<longrightarrow> is_primary_key (opt_option (last kept)))"
proof -
  let ?kept = "kept_options Sqlite (col_options col)"
  let ?has = "list_ex (\<lambda>d. is_primary_key (opt_option d)) ?kept"
  from assms have opts: "col_options col' =
      ?kept @ (if ?has then [] else [bare_primary_key]) @ [auto_option ''AUTOINCREMENT'']"
    by (auto simp: rewrite_column_options_def Let_def)
  show ?thesis
  proof (cases ?has)
    case True
    then obtain ks k where k: "?kept = ks @ [k]" by (cases ?kept rule: rev_cases) auto
    with True opts show ?thesis by (auto simp: Let_def)
  next
    case False
    with opts show ?thesis by (auto simp: Let_def)
  qed
qed

theorem sqlite_autoincrement_adjacent_witness:
  "\<not> (\<exists>opts pk. [bare_primary_key, column_option NotNull, auto_option ''AUTOINCREMENT''] =
        opts @ [pk, auto_option ''AUTOINCREMENT'' :: unit column_option_def] \<and> is_primary_key (opt_option pk))"
proof -
  let ?col = "\<lparr>col_name = ident_new ''id'', col_data_type = Sized IntType (),
       col_options = [bare_primary_key, column_option NotNull]\<rparr>"
  have kept: "kept_options Sqlite (col_options ?col) = [bare_primary_key, column_option NotNull]"
    by (simp add: kept_options_def bare_primary_key_def column_option_def)
  obtain col' where r: "rewrite_column_options ?col Sqlite (Some AutoInt) = Inr col'"
    by (simp add: rewrite_column_options_def Let_def)
  then have o: "col_options col' = [bare_primary_key, column_option NotNull, auto_option ''AUTOINCREMENT'']"
    using kept by (auto simp: rewrite_column_options_def Let_def)
  have "\<not> is_primary_key (opt_option (column_option NotNull :: unit column_option_def))"
    by (simp add: column_option_def)
  then have "\<not> (let kept = kept_options Sqlite (col_options ?col) in
          list_ex (\<lambda>d. is_primary_key (opt_option d)) kept \<longrightarrow> is_primary_key (opt_option (last kept)))"
    unfolding kept Let_def by simp
  then show ?thesis
    unfolding sqlite_autoincrement_adjacent [OF r, symmetric] o .
qed

end
