(* ===== verification/Rewrite_Stmt.thy ===== *)
theory Rewrite_Stmt
  imports Rewrite_Expr Create_Table
begin

text \<open>
  The statement rewrites of \<open>src/translate/rewrite.rs\<close>: \<open>rewrite_statement\<close> and what it calls for
  queries, \<open>INSERT\<close>, \<open>UPDATE\<close> and \<open>DELETE\<close>.
\<close>

section \<open>LIMIT and OFFSET\<close>

fun normalize_limit :: "'x limit_clause \<Rightarrow> target_dialect \<Rightarrow> 'x limit_clause" where
  "normalize_limit (OffsetCommaLimit offset limit) target =
     (if target = Mysql then OffsetCommaLimit offset limit
      else LimitOffset (Some limit) [] (Some \<lparr>off_value = offset, off_rows = None\<rparr>))"
| "normalize_limit (LimitOffset limit limit_by offset) target =
     LimitOffset
       (case limit of
          Some (Identifier i) \<Rightarrow>
            if id_value i = ''ALL'' \<and> target \<noteq> Postgres then None else Some (Identifier i)
        | other \<Rightarrow> other)
       limit_by offset"

definition rewrite_query :: "'x query \<Rightarrow> target_dialect \<Rightarrow> 'x query" where
  "rewrite_query q target =
     (case q_limit_clause q of
        None \<Rightarrow> q
      | Some clause \<Rightarrow> q\<lparr>q_limit_clause := Some (normalize_limit clause target)\<rparr>)"

text \<open>
  The rows a clause selects, given the values of its expressions: skip the offset, then take the
  limit; \<open>ALL\<close> and a missing limit take everything.
\<close>

fun is_all :: "'x expr \<Rightarrow> bool" where
  "is_all (Identifier i) \<longleftrightarrow> id_value i = ''ALL''"
| "is_all e \<longleftrightarrow> False"

definition take_limit :: "('x expr \<Rightarrow> nat) \<Rightarrow> 'x expr option \<Rightarrow> 'r list \<Rightarrow> 'r list" where
  "take_limit ev limit rows =
     (case limit of None \<Rightarrow> rows | Some e \<Rightarrow> if is_all e then rows else take (ev e) rows)"

fun limit_rows :: "('x expr \<Rightarrow> nat) \<Rightarrow> 'x limit_clause \<Rightarrow> 'r list \<Rightarrow> 'r list" where
  "limit_rows ev (LimitOffset limit limit_by offset) rows =
     take_limit ev limit (case offset of None \<Rightarrow> rows | Some off \<Rightarrow> drop (ev (off_value off)) rows)"
| "limit_rows ev (OffsetCommaLimit offset limit) rows = take_limit ev (Some limit) (drop (ev offset) rows)"

text \<open>
  The forms the rewriting sees to: the comma form is MySQL's, \<open>LIMIT ALL\<close> is PostgreSQL's. An \<open>OFFSET\<close> without
  a \<open>LIMIT\<close>, which MySQL and SQLite do not read either, is not one of them.
\<close>

fun limit_accepted :: "target_dialect \<Rightarrow> 'x limit_clause \<Rightarrow> bool" where
  "limit_accepted target (OffsetCommaLimit offset limit) \<longleftrightarrow> target = Mysql"
| "limit_accepted target (LimitOffset limit limit_by offset) \<longleftrightarrow>
     target = Postgres \<or> (\<forall>e \<in> set_option limit. \<not> is_all e)"

lemma limit_rows_normalize: "limit_rows ev (normalize_limit clause target) rows = limit_rows ev clause rows"
  by (cases clause) (auto simp: take_limit_def split: option.splits expr.splits)

lemma normalize_limit_id: "limit_accepted target clause \<Longrightarrow> normalize_limit clause target = clause"
  by (cases clause) (auto split: option.splits expr.splits)

lemma normalize_limit_accepted:
  assumes "\<And>off lim. clause = OffsetCommaLimit off lim \<Longrightarrow> \<not> is_all lim"
  shows "limit_accepted target (normalize_limit clause target)"
  using assms by (cases clause) (auto split: option.splits expr.splits)

text \<open>
  Normalising a \<open>LIMIT\<close> clause never changes which rows it selects: for every row list and every
  value of its expressions, \<open>LIMIT a, b\<close> and \<open>LIMIT b OFFSET a\<close>, and \<open>LIMIT ALL\<close> and no limit, agree.
  The result has the comma form for MySQL only and \<open>LIMIT ALL\<close> for PostgreSQL only, and a clause that is so
  already is left as it is. (MySQL has no \<open>LIMIT a, ALL\<close>; that one form is excluded.)
\<close>

theorem normalize_limit_sound:
  assumes "\<forall>off lim. clause = OffsetCommaLimit off lim \<longrightarrow> \<not> is_all lim"
  shows "limit_rows ev (normalize_limit clause target) rows = limit_rows ev clause rows \<and>
         limit_accepted target (normalize_limit clause target) \<and>
         (limit_accepted target clause \<longrightarrow> normalize_limit clause target = clause)"
  using limit_rows_normalize normalize_limit_id normalize_limit_accepted assms by blast

theorem normalize_limit_sound_witness:
  "limit_rows (\<lambda>e. if e = ValueExpr (Number ''5'' False) then 1 else 2)
     (normalize_limit (OffsetCommaLimit (ValueExpr (Number ''5'' False)) (ValueExpr (NullValue :: unit sql_value))) Sqlite)
     [10, 20, 30, 40 :: int] = [20, 30]"
proof -
  have "\<forall>off lim. OffsetCommaLimit (ValueExpr (Number ''5'' False)) (ValueExpr (NullValue :: unit sql_value)) =
      OffsetCommaLimit off lim \<longrightarrow> \<not> is_all lim"
    by auto
  from normalize_limit_sound [OF this] show ?thesis by (simp add: take_limit_def)
qed

text \<open>
  The rows stay the same, but the clause left for \<open>LIMIT ALL OFFSET n\<close> is \<open>OFFSET n\<close> alone, which is not a
  clause of MySQL or SQLite.
\<close>

lemma limit_all_leaves_offset:
  "target \<noteq> Postgres \<Longrightarrow> id_value i = ''ALL'' \<Longrightarrow>
   normalize_limit (LimitOffset (Some (Identifier i)) by_exprs (Some off)) target = LimitOffset None by_exprs (Some off)"
  by simp

section \<open>INSERT\<close>

text \<open>The no-op assignments for \<open>ON CONFLICT DO NOTHING\<close> on MySQL.\<close>

definition self_assignment :: "ident \<Rightarrow> 'x assignment" where
  "self_assignment c = \<lparr>as_target = ColumnName (object_name_from c), as_value = Identifier c\<rparr>"

fun noop_assignments :: "'x conflict_target option \<Rightarrow> 'x assignment list" where
  "noop_assignments (Some (Columns cols)) = map self_assignment cols"
| "noop_assignments ct = [self_assignment (ident_new ''id'')]"

fun mysql_on_insert :: "'x conflict_target option \<Rightarrow> 'x on_conflict_action \<Rightarrow> 'x on_insert" where
  "mysql_on_insert ct DoNothing = DuplicateKeyUpdate (noop_assignments ct)"
| "mysql_on_insert ct (DoUpdate assignments selection) = DuplicateKeyUpdate assignments"

definition rewrite_insert_mysql :: "'x insert \<Rightarrow> 'x insert res" where
  "rewrite_insert_mysql ins =
     (if ins_returning ins \<noteq> None then
        Inl (Err (Unsupported ''RETURNING is not supported by the MySQL backend''))
      else
        (let ins1 = (case ins_on ins of
                       Some (OnConflict ct action) \<Rightarrow> ins\<lparr>ins_on := Some (mysql_on_insert ct action)\<rparr>
                     | _ \<Rightarrow> ins) in
         if ins_or ins1 \<noteq> None then
           Inl (Err (Unsupported ''SQLite ON CONFLICT (`INSERT OR ...`) is not supported by the MySQL backend''))
         else Inr ins1))"

definition rewrite_insert_other :: "'x sqlparser \<Rightarrow> 'x insert \<Rightarrow> target_dialect \<Rightarrow> 'x insert" where
  "rewrite_insert_other P ins target =
     (let ins1 = (if ins_ignore ins
                  then ins\<lparr>ins_ignore := False, ins_on := Some (OnConflict None DoNothing)\<rparr> else ins);
          ins2 = (case ins_on ins1 of
                    Some (DuplicateKeyUpdate assignments) \<Rightarrow>
                      ins1\<lparr>ins_on := Some (OnConflict None (DoUpdate
                        (map (\<lambda>a. a\<lparr>as_value := rewrite_values_ref P (as_value a)\<rparr>) assignments) None))\<rparr>
                  | _ \<Rightarrow> ins1)
      in if ins_or ins2 \<noteq> None \<and> target = Postgres then ins2\<lparr>ins_or := None\<rparr> else ins2)"

definition rewrite_insert :: "'x sqlparser \<Rightarrow> 'x insert \<Rightarrow> target_dialect \<Rightarrow> 'x insert res" where
  "rewrite_insert P ins target =
     (if target = Mysql then rewrite_insert_mysql ins else Inr (rewrite_insert_other P ins target))"

text \<open>
  The \<open>INSERT\<close> forms a target can read. MySQL has neither \<open>RETURNING\<close>, \<open>INSERT OR\<close> nor \<open>ON CONFLICT\<close>, and
  no row named \<open>excluded\<close>; the others have neither \<open>IGNORE\<close> nor \<open>ON DUPLICATE KEY UPDATE\<close>; PostgreSQL has no
  \<open>INSERT OR\<close> and wants a conflict target for \<open>DO UPDATE\<close>, which SQLite does not.
\<close>

fun names_excluded :: "'x expr \<Rightarrow> bool" where
  "names_excluded (CompoundIdentifier (i # is)) \<longleftrightarrow> to_ascii_lowercase (id_value i) = ''excluded''"
| "names_excluded e \<longleftrightarrow> False"

definition uses_excluded :: "'x assignment list \<Rightarrow> bool" where
  "uses_excluded as \<longleftrightarrow> list_ex (\<lambda>a. \<not> expr_all (\<lambda>e. \<not> names_excluded e) (as_value a)) as"

fun on_insert_accepted :: "target_dialect \<Rightarrow> 'x on_insert \<Rightarrow> bool" where
  "on_insert_accepted target (DuplicateKeyUpdate as) \<longleftrightarrow> target = Mysql \<and> \<not> uses_excluded as"
| "on_insert_accepted target (OnConflict ct DoNothing) \<longleftrightarrow> target \<noteq> Mysql"
| "on_insert_accepted target (OnConflict ct (DoUpdate as sel)) \<longleftrightarrow>
     target = Sqlite \<or> target = Postgres \<and> ct \<noteq> None"
| "on_insert_accepted target (OtherOnInsert x) \<longleftrightarrow> True"

fun insert_accepted :: "target_dialect \<Rightarrow> 'x insert \<Rightarrow> bool" where
  "insert_accepted target ins \<longleftrightarrow>
     (target = Mysql \<longrightarrow> ins_returning ins = None) \<and> (target \<noteq> Sqlite \<longrightarrow> ins_or ins = None) \<and>
     (target \<noteq> Mysql \<longrightarrow> \<not> ins_ignore ins) \<and>
     (case ins_on ins of None \<Rightarrow> True | Some on \<Rightarrow> on_insert_accepted target on)"

text \<open>
  The inserts whose upsert clause the rewriting leaves unreadable: a \<open>DO UPDATE\<close> without a conflict
  target for PostgreSQL, written so or as \<open>ON DUPLICATE KEY UPDATE\<close>, and one that names \<open>excluded\<close> for MySQL.
\<close>

fun unreadable_clause :: "target_dialect \<Rightarrow> 'x on_insert \<Rightarrow> bool" where
  "unreadable_clause target (DuplicateKeyUpdate as) \<longleftrightarrow> target = Postgres \<or> target = Mysql \<and> uses_excluded as"
| "unreadable_clause target (OnConflict ct (DoUpdate as sel)) \<longleftrightarrow>
     target = Postgres \<and> ct = None \<or> target = Mysql \<and> uses_excluded as"
| "unreadable_clause target on \<longleftrightarrow> False"

definition unreadable_upsert :: "target_dialect \<Rightarrow> 'x insert \<Rightarrow> bool" where
  "unreadable_upsert target ins \<longleftrightarrow>
     (target = Mysql \<or> \<not> ins_ignore ins) \<and> (case ins_on ins of None \<Rightarrow> False | Some on \<Rightarrow> unreadable_clause target on)"

text \<open>
  What an \<open>INSERT\<close> does with a row that violates a unique key: the statement fails, the row that is there
  stays as it is, or it is updated. An update that assigns every column its own value changes nothing.
\<close>

datatype (dead 'x) duplicate_rule =
    RejectRow | KeepRow | UpdateRow "'x assignment list" "'x expr option" | OtherRule 'x

definition assigns_itself :: "'x assignment \<Rightarrow> bool" where
  "assigns_itself a \<longleftrightarrow>
     (case (as_target a, as_value a) of (ColumnName n, Identifier c) \<Rightarrow> n = object_name_from c | _ \<Rightarrow> False)"

definition update_rule :: "'x assignment list \<Rightarrow> 'x expr option \<Rightarrow> 'x duplicate_rule" where
  "update_rule as sel = (if list_all assigns_itself as then KeepRow else UpdateRow as sel)"

fun on_insert_rule :: "'x on_insert \<Rightarrow> 'x duplicate_rule" where
  "on_insert_rule (DuplicateKeyUpdate as) = update_rule as None"
| "on_insert_rule (OnConflict ct DoNothing) = KeepRow"
| "on_insert_rule (OnConflict ct (DoUpdate as sel)) = update_rule as sel"
| "on_insert_rule (OtherOnInsert x) = OtherRule x"

definition duplicate_rule_of :: "'x insert \<Rightarrow> 'x duplicate_rule" where
  "duplicate_rule_of ins =
     (case ins_on ins of Some on \<Rightarrow> on_insert_rule on | None \<Rightarrow> if ins_ignore ins then KeepRow else RejectRow)"

fun without_where :: "'x duplicate_rule \<Rightarrow> 'x duplicate_rule" where
  "without_where (UpdateRow as sel) = UpdateRow as None"
| "without_where r = r"

text \<open>The inserted row is \<open>VALUES(col)\<close> in MySQL's clause and \<open>excluded.col\<close> in the others'.\<close>

definition with_excluded :: "'x sqlparser \<Rightarrow> 'x assignment list \<Rightarrow> 'x assignment list" where
  "with_excluded P as = map (\<lambda>a. a\<lparr>as_value := rewrite_values_ref P (as_value a)\<rparr>) as"

text \<open>What no rewrite of an \<open>INSERT\<close> touches.\<close>

definition insert_frame :: "'x insert \<Rightarrow> 'x insert \<Rightarrow> bool" where
  "insert_frame ins ins' \<longleftrightarrow>
     ins_table ins' = ins_table ins \<and> ins_columns ins' = ins_columns ins \<and>
     ins_source ins' = ins_source ins \<and> ins_returning ins' = ins_returning ins \<and> ins_rest ins' = ins_rest ins"

lemma mysql_on_insert_dup: "\<exists>as. mysql_on_insert ct act = DuplicateKeyUpdate as"
  by (cases act) simp_all

lemma rewrite_insert_mysql_error:
  "(\<exists>f. rewrite_insert_mysql ins = Inl f) \<longleftrightarrow> ins_returning ins \<noteq> None \<or> ins_or ins \<noteq> None"
  by (auto simp: rewrite_insert_mysql_def Let_def split: option.splits on_insert.splits)

lemma assigns_itself_self [simp]: "assigns_itself (self_assignment c)"
  by (simp add: assigns_itself_def self_assignment_def)

lemma noop_assigns_itself [simp]: "list_all assigns_itself (noop_assignments ct)"
  by (cases ct rule: noop_assignments.cases) (auto simp: list_all_iff)

lemma noop_no_excluded [simp]: "\<not> uses_excluded (noop_assignments ct)"
  by (cases ct rule: noop_assignments.cases) (auto simp: uses_excluded_def list_ex_iff self_assignment_def)

lemma mysql_on_insert_rule: "on_insert_rule (mysql_on_insert ct act) = without_where (on_insert_rule (OnConflict ct act))"
  by (cases act) (auto simp: update_rule_def)

lemma mysql_on_insert_accepted: "on_insert_accepted Mysql (mysql_on_insert ct act) \<longleftrightarrow> \<not> unreadable_clause Mysql (OnConflict ct act)"
  by (cases act) simp_all

lemma rewrite_insert_mysql_Inr:
  assumes "rewrite_insert_mysql ins = Inr ins'"
  shows "insert_frame ins ins' \<and> (insert_accepted Mysql ins' \<longleftrightarrow> \<not> unreadable_upsert Mysql ins) \<and>
         (insert_accepted Mysql ins \<longrightarrow> ins' = ins) \<and> duplicate_rule_of ins' = without_where (duplicate_rule_of ins)"
proof (cases "\<exists>ct act. ins_on ins = Some (OnConflict ct act)")
  case True
  then obtain ct act where on: "ins_on ins = Some (OnConflict ct act)" by blast
  with assms have ins': "ins' = ins\<lparr>ins_on := Some (mysql_on_insert ct act)\<rparr>" "ins_returning ins = None" "ins_or ins = None"
    by (auto simp: rewrite_insert_mysql_def Let_def split: if_splits)
  then show ?thesis
    using on mysql_on_insert_rule [of ct act] mysql_on_insert_accepted [of ct act]
    by (cases act) (auto simp: insert_frame_def unreadable_upsert_def duplicate_rule_of_def)
next
  case False
  then have "(case ins_on ins of Some (OnConflict ct action) \<Rightarrow> ins\<lparr>ins_on := Some (mysql_on_insert ct action)\<rparr>
      | _ \<Rightarrow> ins) = ins"
    by (auto split: option.splits on_insert.splits)
  with assms have ins': "ins' = ins" "ins_returning ins = None" "ins_or ins = None"
    by (auto simp: rewrite_insert_mysql_def Let_def split: if_splits)
  with False show ?thesis
    by (cases "ins_on ins"; cases "the (ins_on ins)")
      (auto simp: insert_frame_def unreadable_upsert_def duplicate_rule_of_def update_rule_def)
qed

text \<open>The rule of the rewritten statement, for a target that is not MySQL.\<close>

definition translated_rule :: "'x sqlparser \<Rightarrow> 'x insert \<Rightarrow> 'x duplicate_rule" where
  "translated_rule P ins =
     (if ins_ignore ins then KeepRow
      else case ins_on ins of
        Some (DuplicateKeyUpdate as) \<Rightarrow> update_rule (with_excluded P as) None
      | _ \<Rightarrow> duplicate_rule_of ins)"

lemma rewrite_insert_other_ok:
  assumes "target \<noteq> Mysql"
  shows "insert_frame ins (rewrite_insert_other P ins target) \<and>
         (insert_accepted target (rewrite_insert_other P ins target) \<longleftrightarrow> \<not> unreadable_upsert target ins) \<and>
         (insert_accepted target ins \<longrightarrow> rewrite_insert_other P ins target = ins) \<and>
         duplicate_rule_of (rewrite_insert_other P ins target) = translated_rule P ins"
proof (cases "ins_ignore ins")
  case True
  with assms show ?thesis
    by (cases target) (auto simp: rewrite_insert_other_def insert_frame_def unreadable_upsert_def duplicate_rule_of_def translated_rule_def Let_def)
next
  case no: False
  show ?thesis
  proof (cases "ins_on ins")
    case None
    with no assms show ?thesis
      by (cases target) (auto simp: rewrite_insert_other_def insert_frame_def unreadable_upsert_def duplicate_rule_of_def translated_rule_def Let_def)
  next
    case (Some on)
    with no assms show ?thesis
      by (cases target; cases on rule: on_insert_rule.cases)
        (auto simp: rewrite_insert_other_def insert_frame_def unreadable_upsert_def duplicate_rule_of_def translated_rule_def
          with_excluded_def Let_def)
  qed
qed


definition sample_insert :: "unit insert" where
  "sample_insert = \<lparr>ins_or = None, ins_ignore = True, ins_table = TableName [ident_new ''t''], ins_columns = [],
      ins_source = None, ins_on = Some (DuplicateKeyUpdate []), ins_returning = None, ins_rest = ()\<rparr>"


text \<open>An upsert of a MySQL client, as a PostgreSQL target gets it.\<close>

lemma upsert_without_target:
  assumes "\<not> ins_ignore ins" "ins_on ins = Some (DuplicateKeyUpdate as)"
  shows "ins_on (rewrite_insert_other P ins Postgres) = Some (OnConflict None (DoUpdate (with_excluded P as) None)) \<and>
    \<not> insert_accepted Postgres (rewrite_insert_other P ins Postgres)"
  using assms by (auto simp: rewrite_insert_other_def with_excluded_def Let_def)

subsection \<open>What the translation of conflict clauses means\<close>

text \<open>
  The conflict clauses map as follows. For SQLite and PostgreSQL, \<open>ON DUPLICATE KEY UPDATE\<close>
  becomes \<open>ON CONFLICT DO UPDATE\<close> without a conflict target, with every \<open>VALUES(col)\<close> of its right-hand
  sides normalised away; \<open>INSERT IGNORE\<close> becomes \<open>ON CONFLICT DO NOTHING\<close> whatever update clause the
  statement carried, which is dropped. For MySQL, \<open>DO UPDATE\<close> keeps its assignments, and neither the
  conflict target nor the \<open>WHERE\<close> of the update has any effect on the result.
\<close>

theorem conflict_clauses_translated:
  assumes "target \<noteq> Mysql"
  shows "(ins_ignore ins \<longrightarrow>
            ins_on (rewrite_insert_other P ins target) = Some (OnConflict None DoNothing) \<and>
            rewrite_insert_other P (ins\<lparr>ins_on := on\<rparr>) target = rewrite_insert_other P ins target) \<and>
         (\<not> ins_ignore ins \<and> ins_on ins = Some (DuplicateKeyUpdate as) \<longrightarrow>
            (\<exists>as'. ins_on (rewrite_insert_other P ins target) = Some (OnConflict None (DoUpdate as' None)) \<and>
                   map as_target as' = map as_target as \<and>
                   map as_value as' = map (rewrite_values_ref P) (map as_value as) \<and>
                   list_all (values_free P) (map as_value as'))) \<and>
         rewrite_insert P (ins\<lparr>ins_on := Some (OnConflict ct (DoUpdate as sel))\<rparr>) Mysql =
         rewrite_insert P (ins\<lparr>ins_on := Some (OnConflict None (DoUpdate as None))\<rparr>) Mysql"
proof (intro conjI impI)
  assume "ins_ignore ins"
  then show "ins_on (rewrite_insert_other P ins target) = Some (OnConflict None DoNothing)"
    "rewrite_insert_other P (ins\<lparr>ins_on := on\<rparr>) target = rewrite_insert_other P ins target"
    by (simp_all add: rewrite_insert_other_def Let_def)
next
  assume "\<not> ins_ignore ins \<and> ins_on ins = Some (DuplicateKeyUpdate as)"
  then have "ins_on (rewrite_insert_other P ins target) = Some (OnConflict None (DoUpdate
      (map (\<lambda>a. a\<lparr>as_value := rewrite_values_ref P (as_value a)\<rparr>) as) None))"
    by (simp add: rewrite_insert_other_def Let_def)
  then show "\<exists>as'. ins_on (rewrite_insert_other P ins target) = Some (OnConflict None (DoUpdate as' None)) \<and>
                   map as_target as' = map as_target as \<and>
                   map as_value as' = map (rewrite_values_ref P) (map as_value as) \<and>
                   list_all (values_free P) (map as_value as')"
    by (auto simp: list_all_iff vals.ok_norm)
next
  show "rewrite_insert P (ins\<lparr>ins_on := Some (OnConflict ct (DoUpdate as sel))\<rparr>) Mysql =
        rewrite_insert P (ins\<lparr>ins_on := Some (OnConflict None (DoUpdate as None))\<rparr>) Mysql"
    by (simp add: rewrite_insert_def rewrite_insert_mysql_def Let_def)
qed

theorem conflict_clauses_translated_witness:
  "ins_on (rewrite_insert_other sample_parser sample_insert Sqlite) = Some (OnConflict None DoNothing)"
proof -
  have "Sqlite \<noteq> Mysql" by simp
  from conflict_clauses_translated [OF this, of sample_insert sample_parser]
  show ?thesis by (simp add: sample_insert_def)
qed

section \<open>UPDATE, DELETE and the dispatch\<close>

definition rewrite_update :: "'x update \<Rightarrow> target_dialect \<Rightarrow> 'x update" where
  "rewrite_update upd target =
     (let upd1 = (if target = Mysql then upd\<lparr>upd_returning := None\<rparr> else upd);
          upd2 = (if target = Postgres \<and> upd_or upd1 \<noteq> None then upd1\<lparr>upd_or := None\<rparr> else upd1)
      in if target = Mysql \<and> upd_or upd2 \<noteq> None then upd2\<lparr>upd_or := None\<rparr> else upd2)"

definition rewrite_delete :: "'x delete \<Rightarrow> target_dialect \<Rightarrow> 'x delete" where
  "rewrite_delete del target = (if target = Mysql then del\<lparr>del_returning := None\<rparr> else del)"

fun rewrite_statement :: "'x sqlparser \<Rightarrow> 'x statement \<Rightarrow> target_dialect \<Rightarrow> 'x statement res" where
  "rewrite_statement P (Query query) target = Inr (Query (rewrite_query query target))"
| "rewrite_statement P (Insert ins) target = map_res Insert (rewrite_insert P ins target)"
| "rewrite_statement P (Update upd) target = Inr (Update (rewrite_update upd target))"
| "rewrite_statement P (Delete del) target = Inr (Delete (rewrite_delete del target))"
| "rewrite_statement P (CreateTable ct) target = map_res CreateTable (rewrite_create_table P ct target)"
| "rewrite_statement P stmt target = Inr stmt"

lemma rewrite_update_eq:
  "rewrite_update upd target =
     upd\<lparr>upd_returning := (if target = Mysql then None else upd_returning upd),
         upd_or := (if target = Sqlite then upd_or upd else None)\<rparr>"
  by (cases target) (simp_all add: rewrite_update_def Let_def)

lemma rewrite_statement_error:
  "rewrite_statement P s target = Inl f \<Longrightarrow> \<exists>m. f = Err (Unsupported m)"
proof (cases s)
  case (Insert ins)
  then show "rewrite_statement P s target = Inl f \<Longrightarrow> \<exists>m. f = Err (Unsupported m)"
    by (auto simp: rewrite_insert_def rewrite_insert_mysql_def Let_def split: if_splits)
next
  case (CreateTable ct)
  then show "rewrite_statement P s target = Inl f \<Longrightarrow> \<exists>m. f = Err (Unsupported m)"
    using create_table_ok [of P ct target] by auto
qed simp_all

end
