(* ===== verification/Quoting.thy ===== *)
theory Quoting
  imports Sql_Text
begin

text \<open>
  \<open>fix_quoting\<close> and \<open>skip_dollar_quoted\<close> of \<open>src/translate/rewrite.rs\<close>: the pass over the printed
  statement that converts identifier quotes to the target's style. The source walks an index over a
  vector of characters; here the recursion is on the text that is left, and a span the source copies
  as \<open>chars[start..i]\<close> is what a scanner returns.
\<close>

section \<open>Dollar-quoted strings\<close>

text \<open>The search for \<open>$tag$\<close>: the text up to and including it, and the rest.\<close>

fun find_dollar_close :: "string \<Rightarrow> string \<Rightarrow> (string \<times> string) option" where
  "find_dollar_close tag [] = None"
| "find_dollar_close tag (c # cs) =
     (let close = CHR ''$'' # tag @ ''$'' in
      if starts_with close (c # cs) then Some (close, drop (length close) (c # cs))
      else map_option (\<lambda>(a, b). (c # a, b)) (find_dollar_close tag cs))"

text \<open>On the text after a \<open>$\<close>; \<open>None\<close> where the source returns \<open>start + 1\<close>.\<close>

definition skip_dollar_quoted :: "string \<Rightarrow> (string \<times> string) option" where
  "skip_dollar_quoted cs =
     (let tag = takeWhile is_word_char cs in
      case dropWhile is_word_char cs of
        [] \<Rightarrow> None
      | d # body \<Rightarrow>
          if d \<noteq> CHR ''$'' then None
          else map_option (\<lambda>(a, b). (tag @ d # a, b)) (find_dollar_close tag body))"

text \<open>
  The whole \<open>'$'\<close> arm: the span after the dollar sign, empty where the sign is copied alone. The
  test on the next character comes before the search.
\<close>

definition scan_dollar :: "string \<Rightarrow> string \<times> string" where
  "scan_dollar cs =
     (let next = (case cs of [] \<Rightarrow> nul | d # _ \<Rightarrow> d) in
      if next = CHR ''$'' \<or> is_alphanumeric next
      then (case skip_dollar_quoted cs of Some span \<Rightarrow> span | None \<Rightarrow> ([], cs))
      else ([], cs))"

lemma find_dollar_close_lossless: "find_dollar_close tag s = Some (a, b) \<Longrightarrow> a @ b = s"
proof (induction s arbitrary: a b)
  case (Cons c cs)
  show ?case
  proof (cases "starts_with (CHR ''$'' # tag @ ''$'') (c # cs)")
    case True
    then obtain r where r: "c # cs = (CHR ''$'' # tag @ ''$'') @ r" by (auto simp: starts_with_iff)
    with Cons.prems True show ?thesis by (auto simp: Let_def)
  next
    case False
    with Cons show ?thesis by (auto simp: Let_def)
  qed
qed simp

lemma skip_dollar_lossless: "skip_dollar_quoted s = Some (a, b) \<Longrightarrow> a @ b = s"
  by (auto simp: skip_dollar_quoted_def Let_def split: list.splits if_splits
      dest!: find_dollar_close_lossless) (metis takeWhile_dropWhile_id)

interpretation dollar: scanner scan_dollar
  by unfold_locales
    (auto simp: scan_dollar_def Let_def skip_dollar_lossless split: if_splits option.splits)

section \<open>The pass\<close>

fun target_quote :: "target_dialect \<Rightarrow> char" where
  "target_quote Mysql = backtick"
| "target_quote Postgres = dquote"
| "target_quote Sqlite = dquote"

lemma target_quote_cases: "target_quote t = dquote \<or> target_quote t = backtick"
  by (cases t) simp_all

text \<open>
  The quoted-identifier arm: \<open>&chars[start + 1..i - 1]\<close> is the span without its last character, and
  panics when the span is empty, because the slice then ends before it starts.
\<close>

definition requote_span :: "target_dialect \<Rightarrow> string \<Rightarrow> string res" where
  "requote_span target span =
     (if span = [] then Inl Panic
      else Inr (target_quote target # double_char (target_quote target) (butlast span) @ [target_quote target]))"

definition prepend :: "string \<Rightarrow> string res \<Rightarrow> string res" where
  "prepend s r = map_res (append s) r"

lemma scan_tl_shrinks:
  "length (snd (scan_line (tl cs))) < Suc (length cs)"
  "length (snd (scan_block (tl cs))) < Suc (length cs)"
  using line.scan_shrinks [of "tl cs"] block.scan_shrinks [of "tl cs"] by simp_all

function fix_quoting :: "string \<Rightarrow> target_dialect \<Rightarrow> string res" where
  "fix_quoting [] target = Inr []"
| "fix_quoting (c # cs) target =
     (if c = squote then
        prepend (c # fst (scan_quoted c cs)) (fix_quoting (snd (scan_quoted c cs)) target)
      else if c = CHR ''$'' then
        prepend (c # fst (scan_dollar cs)) (fix_quoting (snd (scan_dollar cs)) target)
      else if c = dquote \<or> c = backtick then
        (case requote_span target (fst (scan_quoted c cs)) of
           Inl f \<Rightarrow> Inl f
         | Inr ident \<Rightarrow> prepend ident (fix_quoting (snd (scan_quoted c cs)) target))
      else if c = CHR ''-'' \<and> starts_with ''-'' cs then
        prepend (c # hd cs # fst (scan_line (tl cs))) (fix_quoting (snd (scan_line (tl cs))) target)
      else if c = CHR ''/'' \<and> starts_with ''*'' cs then
        prepend (c # hd cs # fst (scan_block (tl cs))) (fix_quoting (snd (scan_block (tl cs))) target)
      else prepend [c] (fix_quoting cs target))"
  by pat_completeness auto

termination
  by (relation "measure (\<lambda>(s, t). length s)")
    (simp_all add: quoted.scan_shrinks_less dollar.scan_shrinks_less scan_tl_shrinks)

declare fix_quoting.simps(2) [simp del]

lemma prepend_simps [simp]:
  "prepend s (Inr t) = Inr (s @ t)" "prepend s (Inl f) = Inl f" "prepend [] r = r"
  "prepend s (prepend t r) = prepend (s @ t) r"
  by (auto simp: prepend_def map_res_def split: sum.splits)

lemma prepend_eq_Inr: "prepend s r = Inr x \<longleftrightarrow> (\<exists>t. r = Inr t \<and> x = s @ t)"
  by (auto simp: prepend_def)

lemma prepend_eq_Inl: "prepend s r = Inl f \<longleftrightarrow> r = Inl f"
  by (auto simp: prepend_def)

section \<open>Printed statements\<close>

lemma fix_quoting_word:
  assumes "plain_word w" "rest = [] \<or> hd rest \<in> {squote, dquote, backtick, CHR '';''}"
  shows "fix_quoting (w @ rest) target = prepend w (fix_quoting rest target)"
  using assms
proof (induction w)
  case (Cons c w)
  have "starts_with [d] (w @ rest) \<longleftrightarrow> starts_with [d] w" if "d = CHR ''-'' \<or> d = CHR ''*''" for d
    using that Cons.prems by (cases w; cases rest) (auto simp: starts_with_def)
  with Cons show ?case by (auto simp: fix_quoting.simps(2))
qed simp

lemma fix_quoting_lit:
  assumes "rest = [] \<or> hd rest \<noteq> squote"
  shows "fix_quoting (squote # double_char squote v @ squote # rest) target =
         prepend (squote # double_char squote v @ [squote]) (fix_quoting rest target)"
  using scan_quoted_body [OF assms, of v] by (simp add: fix_quoting.simps(2))

lemma fix_quoting_quoted:
  assumes "rest = [] \<or> hd rest \<noteq> q" "q \<in> {dquote, backtick}"
  shows "fix_quoting (q # double_char q v @ q # rest) target =
         prepend (print_token (target_quote target) (Quoted (double_char q v))) (fix_quoting rest target)"
  using scan_quoted_body [OF assms(1), of v] assms(2)
  by (auto simp: fix_quoting.simps(2) requote_span_def)

text \<open>The name a quoted identifier of the source style denotes after the pass.\<close>

fun requote :: "char \<Rightarrow> sql_token \<Rightarrow> sql_token" where
  "requote q (Quoted v) = Quoted (double_char q v)"
| "requote q t = t"

text \<open>The tokens of a statement, at the end of a text or before the semicolon that ends the statement.\<close>

lemma fix_quoting_tokens_before:
  assumes "wf_sql ts" "q \<in> {dquote, backtick}" "tail = [] \<or> hd tail = CHR '';''"
  shows "fix_quoting (print_sql q ts @ tail) target =
         prepend (print_sql (target_quote target) (map (requote q) ts)) (fix_quoting tail target)"
  using assms(1)
proof (induction ts)
  case (Cons t ts)
  then have IH: "fix_quoting (print_sql q ts @ tail) target =
      prepend (print_sql (target_quote target) (map (requote q) ts)) (fix_quoting tail target)"
    by simp
  show ?case
  proof (cases t)
    case (Word w)
    with Cons.prems assms(2,3) have "print_sql q ts @ tail = [] \<or> hd (print_sql q ts @ tail) \<in> {squote, dquote, backtick, CHR '';''}"
      using print_sql_after_word [of w ts q] by (cases "print_sql q ts") auto
    with Word Cons.prems IH show ?thesis by (simp add: fix_quoting_word)
  next
    case (Lit v)
    with Cons.prems assms(2,3) have "print_sql q ts @ tail = [] \<or> hd (print_sql q ts @ tail) \<noteq> squote"
      using print_sql_after_lit [of v ts q] by (cases "print_sql q ts") auto
    with Lit IH show ?thesis by (simp add: fix_quoting_lit)
  next
    case (Quoted v)
    with Cons.prems assms(2,3) have "print_sql q ts @ tail = [] \<or> hd (print_sql q ts @ tail) \<noteq> q"
      using print_sql_after_quoted [of v ts q] by (cases "print_sql q ts") auto
    with Quoted IH assms(2) show ?thesis by (simp add: fix_quoting_quoted)
  qed
qed simp

lemma fix_quoting_tokens:
  assumes "wf_sql ts" "q \<in> {dquote, backtick}"
  shows "fix_quoting (print_sql q ts) target =
         Inr (print_sql (target_quote target) (map (requote q) ts))"
  using fix_quoting_tokens_before [OF assms, of "[]" target] by simp

text \<open>
  C20. On a printed statement (words, string literals and quoted identifiers in the style \<open>q\<close>, of any
  length and in any well-formed order) the pass never fails and prints the same statement in the
  target's style: words and literals unchanged, and each identifier requoted. An identifier whose
  name holds the source's quote character keeps that character doubled, so it comes out as the name
  \<open>double_char q v\<close>.
\<close>

theorem fix_quoting_print_sql:
  assumes "wf_sql ts" "q \<in> {dquote, backtick}"
  shows "fix_quoting (print_sql q ts) target =
         Inr (print_sql (target_quote target) (map (requote q) ts))"
  using assms by (rule fix_quoting_tokens)

theorem fix_quoting_print_sql_witness:
  "fix_quoting (print_sql backtick [Word ''SELECT '', Quoted ''na me'', Word '', '', Lit ''it`s'']) Sqlite =
     Inr (print_sql dquote [Word ''SELECT '', Quoted ''na me'', Word '', '', Lit ''it`s''])"
  using fix_quoting_print_sql
    [of "[Word ''SELECT '', Quoted ''na me'', Word '', '', Lit ''it`s'']" backtick Sqlite]
  by (simp add: starts_with_def)

text \<open>
  The pass keeps the name of a quoted identifier exactly when the name does not hold the source's
  quote character; otherwise the target sees another name, in every target, the source's own style
  included.
\<close>

theorem identifier_kept_iff:
  assumes "q \<in> {dquote, backtick}"
  shows "fix_quoting (print_sql q [Quoted v]) target = Inr (print_sql (target_quote target) [Quoted v])
         \<longleftrightarrow> q \<notin> set v"
proof -
  have "fix_quoting (print_sql q [Quoted v]) target =
      Inr (print_sql (target_quote target) [Quoted (double_char q v)])"
    using fix_quoting_tokens [of "[Quoted v]" q target] assms by simp
  then show ?thesis
    using double_char_inj [of "target_quote target" "double_char q v" v] double_char_eq_iff [of q v]
    by auto
qed

theorem identifier_kept_iff_witness:
  "fix_quoting (print_sql dquote [Quoted [CHR ''a'', dquote, CHR ''b'']]) Sqlite \<noteq>
     Inr (print_sql dquote [Quoted [CHR ''a'', dquote, CHR ''b'']])"
  using identifier_kept_iff [of dquote "[CHR ''a'', dquote, CHR ''b'']" Sqlite] by simp

end
