(* ===== verification/Placeholders.thy ===== *)
theory Placeholders
  imports Quoting
begin

text \<open>
  Bind parameters: \<open>substitute_placeholders\<close> and \<open>literal_at\<close> of \<open>src/translate/mod.rs\<close>, and
  \<open>max_positional_placeholder\<close> of \<open>src/server/pg.rs\<close>.

  A \<open>usize\<close> is 64 bits wide. The one subtraction that can go below zero (\<open>parse(..) - 1\<close>) panics
  where overflow is checked and wraps in a release build, so the model takes the build's overflow
  checks as an argument. The counter \<open>positional\<close> is bounded by the length of the text and is a
  \<open>nat\<close>.
\<close>

section \<open>The substitution\<close>

definition literal_at :: "string list \<Rightarrow> nat \<Rightarrow> string res" where
  "literal_at literals idx =
     (if idx < length literals then Inr (literals ! idx)
      else Inl (Err (Translate (''not enough bind parameters: '' @ show_nat idx @ '' requested, '' @
        show_nat (length literals) @ '' provided''))))"

definition usize_pred :: "bool \<Rightarrow> nat \<Rightarrow> nat res" where
  "usize_pred overflow_checks n =
     (if n = 0 then (if overflow_checks then Inl Panic else Inr (2 ^ 64 - 1)) else Inr (n - 1))"

definition placeholder_number :: "string \<Rightarrow> nat" where
  "placeholder_number num = (case parse_usize num of Some n \<Rightarrow> n | None \<Rightarrow> 1)"

definition numbered_literal :: "bool \<Rightarrow> string list \<Rightarrow> string \<Rightarrow> string res" where
  "numbered_literal overflow_checks literals num =
     (case usize_pred overflow_checks (placeholder_number num) of
        Inl f \<Rightarrow> Inl f
      | Inr idx \<Rightarrow> literal_at literals idx)"

function substitute_from :: "bool \<Rightarrow> string list \<Rightarrow> nat \<Rightarrow> string \<Rightarrow> string res" where
  "substitute_from chk literals positional [] = Inr []"
| "substitute_from chk literals positional (c # cs) =
     (if c = squote then
        prepend (c # fst (scan_quoted squote cs))
          (substitute_from chk literals positional (snd (scan_quoted squote cs)))
      else if c = CHR ''$'' then
        (let num = takeWhile is_ascii_digit cs; rest = dropWhile is_ascii_digit cs in
         if num = [] then prepend ''$'' (substitute_from chk literals positional rest)
         else (case numbered_literal chk literals num of
                 Inl f \<Rightarrow> Inl f
               | Inr lit \<Rightarrow> prepend lit (substitute_from chk literals (Suc positional) rest)))
      else if c = CHR ''?'' then
        (case literal_at literals positional of
           Inl f \<Rightarrow> Inl f
         | Inr lit \<Rightarrow> prepend lit (substitute_from chk literals (Suc positional) cs))
      else prepend [c] (substitute_from chk literals positional cs))"
  by pat_completeness auto

termination
  by (relation "measure (\<lambda>(chk, literals, positional, s). length s)")
    (simp_all add: quoted.scan_shrinks_less length_dropWhile_le le_imp_less_Suc)

declare substitute_from.simps(2) [simp del]

definition substitute_placeholders :: "bool \<Rightarrow> string \<Rightarrow> string list \<Rightarrow> string res" where
  "substitute_placeholders chk sql literals = substitute_from chk literals 0 sql"

section \<open>The highest placeholder\<close>

function max_from :: "string \<Rightarrow> nat" where
  "max_from [] = 0"
| "max_from (c # cs) =
     (let num = takeWhile is_ascii_digit cs in
      if c = CHR ''$'' \<and> num \<noteq> [] then
        max (case parse_usize num of Some v \<Rightarrow> v | None \<Rightarrow> 0) (max_from (dropWhile is_ascii_digit cs))
      else max_from cs)"
  by pat_completeness auto

termination
  by (relation "measure length") (simp_all add: length_dropWhile_le le_imp_less_Suc)

declare max_from.simps(2) [simp del]

definition max_positional_placeholder :: "string \<Rightarrow> nat" where
  "max_positional_placeholder sql = max_from sql"

section \<open>Templates\<close>

text \<open>
  A statement with placeholders, as tokens: text without quotes, dollar signs and question marks,
  string literals, numbered and positional placeholders.
\<close>

datatype template = TText string | TLit string | TDollar nat | TMark

fun print_template :: "template list \<Rightarrow> string" where
  "print_template [] = []"
| "print_template (TText w # ts) = w @ print_template ts"
| "print_template (TLit v # ts) = squote # double_char squote v @ squote # print_template ts"
| "print_template (TDollar n # ts) = CHR ''$'' # show_nat n @ print_template ts"
| "print_template (TMark # ts) = CHR ''?'' # print_template ts"

fun is_text :: "template \<Rightarrow> bool" where "is_text (TText w) \<longleftrightarrow> True" | "is_text t \<longleftrightarrow> False"

text \<open>
  Tokens that are not text (literals and placeholders) are kept apart by non-empty text, and the
  text after a numbered placeholder does not continue its number.
\<close>

fun wf_template :: "template list \<Rightarrow> bool" where
  "wf_template [] \<longleftrightarrow> True"
| "wf_template (t # ts) \<longleftrightarrow>
     (case t of
        TText w \<Rightarrow> w \<noteq> [] \<and> squote \<notin> set w \<and> CHR ''$'' \<notin> set w \<and> CHR ''?'' \<notin> set w
      | TDollar n \<Rightarrow> 0 < n \<and> n < 2 ^ 64
      | _ \<Rightarrow> True) \<and>
     (case ts of
        [] \<Rightarrow> True
      | u # _ \<Rightarrow> is_text t \<or>
          (case u of TText w \<Rightarrow> (case t of TDollar n \<Rightarrow> \<not> is_ascii_digit (hd w) | _ \<Rightarrow> True) | _ \<Rightarrow> False)) \<and>
     wf_template ts"

text \<open>What the substitution means on tokens.\<close>

fun expand :: "string list \<Rightarrow> nat \<Rightarrow> template list \<Rightarrow> string res" where
  "expand literals k [] = Inr []"
| "expand literals k (TText w # ts) = prepend w (expand literals k ts)"
| "expand literals k (TLit v # ts) =
     prepend (squote # double_char squote v @ [squote]) (expand literals k ts)"
| "expand literals k (TDollar n # ts) =
     (case literal_at literals (n - 1) of
        Inl f \<Rightarrow> Inl f | Inr lit \<Rightarrow> prepend lit (expand literals (Suc k) ts))"
| "expand literals k (TMark # ts) =
     (case literal_at literals k of
        Inl f \<Rightarrow> Inl f | Inr lit \<Rightarrow> prepend lit (expand literals (Suc k) ts))"

lemma substitute_text:
  assumes "squote \<notin> set w" "CHR ''$'' \<notin> set w" "CHR ''?'' \<notin> set w"
  shows "substitute_from chk literals k (w @ rest) = prepend w (substitute_from chk literals k rest)"
  using assms by (induction w) (auto simp: substitute_from.simps(2))

lemma takeWhile_digits:
  assumes "rest = [] \<or> \<not> is_ascii_digit (hd rest)"
  shows "takeWhile is_ascii_digit (show_nat n @ rest) = show_nat n"
    and "dropWhile is_ascii_digit (show_nat n @ rest) = rest"
  using assms
  by (cases rest, simp_all add: takeWhile_append2 dropWhile_append2 show_nat_digits takeWhile_eq_all_conv)+

lemma substitute_dollar:
  assumes "rest = [] \<or> \<not> is_ascii_digit (hd rest)"
  shows "substitute_from chk literals k (CHR ''$'' # show_nat n @ rest) =
         (case numbered_literal chk literals (show_nat n) of
            Inl f \<Rightarrow> Inl f
          | Inr lit \<Rightarrow> prepend lit (substitute_from chk literals (Suc k) rest))"
  by (simp add: substitute_from.simps(2) takeWhile_digits [OF assms] split: sum.split)

lemma after_dollar:
  assumes "wf_template (TDollar n # ts)"
  shows "print_template ts = [] \<or> \<not> is_ascii_digit (hd (print_template ts))"
  using assms by (cases ts; cases "hd ts") auto

lemma after_lit:
  assumes "wf_template (TLit v # ts)"
  shows "print_template ts = [] \<or> hd (print_template ts) \<noteq> squote"
proof (cases ts)
  case (Cons u us)
  with assms show ?thesis
    by (cases u) (auto simp: hd_append dest: hd_in_set)
qed simp

lemma numbered_literal_show_nat:
  "0 < n \<Longrightarrow> n < 2 ^ 64 \<Longrightarrow> numbered_literal chk literals (show_nat n) = literal_at literals (n - 1)"
  by (simp add: numbered_literal_def placeholder_number_def parse_usize_show_nat usize_pred_def)

lemma substitute_from_template:
  "wf_template ts \<Longrightarrow> substitute_from chk literals k (print_template ts) = expand literals k ts"
proof (induction ts arbitrary: k)
  case (Cons t ts)
  then have IH: "substitute_from chk literals k (print_template ts) = expand literals k ts" for k
    by simp
  show ?case
  proof (cases t)
    case (TText w)
    with Cons.prems IH show ?thesis by (simp add: substitute_text)
  next
    case (TLit v)
    with Cons.prems IH scan_quoted_body [OF after_lit, of v ts v] show ?thesis
      by (simp add: substitute_from.simps(2))
  next
    case (TDollar n)
    with Cons.prems IH after_dollar [of n ts] show ?thesis
      by (simp add: substitute_dollar numbered_literal_show_nat split: sum.split)
  next
    case TMark
    with IH show ?thesis by (simp add: substitute_from.simps(2) split: sum.split)
  qed
qed simp

text \<open>
  C26. On every well-formed template the substitution does what the tokens say: text and string
  literals are copied (placeholders inside a literal included), \<open>$n\<close> becomes the n-th value, the
  k-th placeholder's \<open>?\<close> the k-th value, both kinds advance the positional counter, and the first
  missing value is the error. No panic, whatever the build.
\<close>

theorem substitute_template:
  assumes "wf_template ts"
  shows "substitute_placeholders chk (print_template ts) literals = expand literals 0 ts"
  using assms by (simp add: substitute_placeholders_def substitute_from_template)

theorem substitute_template_witness:
  "substitute_placeholders True (print_template [TLit ''?'', TText '', '', TMark, TText '' '', TDollar 1]) [''9''] =
     Inr (print_template [TLit ''?'', TText '', 9 9''])"
  using substitute_template [of "[TLit ''?'', TText '', '', TMark, TText '' '', TDollar 1]" True "[''9'']"]
  by (simp add: literal_at_def is_ascii_digit_def)

section \<open>Values stay inside their literal\<close>

text \<open>The values of the string literals of a text, in order, as a scanner finds them.\<close>

function literals_of :: "string \<Rightarrow> string list" where
  "literals_of [] = []"
| "literals_of (c # cs) =
     (if c = squote
      then undouble squote (butlast (fst (scan_quoted squote cs))) # literals_of (snd (scan_quoted squote cs))
      else literals_of cs)"
  by pat_completeness auto

termination
  by (relation "measure length") (simp_all add: quoted.scan_shrinks_less)

text \<open>Placeholders replaced by the literals of the bound values.\<close>

fun bind_values :: "string list \<Rightarrow> nat \<Rightarrow> template list \<Rightarrow> template list" where
  "bind_values vs k [] = []"
| "bind_values vs k (TDollar n # ts) = TLit (vs ! (n - 1)) # bind_values vs (Suc k) ts"
| "bind_values vs k (TMark # ts) = TLit (vs ! k) # bind_values vs (Suc k) ts"
| "bind_values vs k (t # ts) = t # bind_values vs k ts"

fun params_bound :: "string list \<Rightarrow> nat \<Rightarrow> template list \<Rightarrow> bool" where
  "params_bound vs k [] \<longleftrightarrow> True"
| "params_bound vs k (TDollar n # ts) \<longleftrightarrow> n \<le> length vs \<and> params_bound vs (Suc k) ts"
| "params_bound vs k (TMark # ts) \<longleftrightarrow> k < length vs \<and> params_bound vs (Suc k) ts"
| "params_bound vs k (t # ts) \<longleftrightarrow> params_bound vs k ts"

fun template_literals :: "template list \<Rightarrow> string list" where
  "template_literals [] = []"
| "template_literals (TLit v # ts) = v # template_literals ts"
| "template_literals (t # ts) = template_literals ts"

lemma expand_bound:
  "wf_template ts \<Longrightarrow> params_bound vs k ts \<Longrightarrow>
   expand (map (\<lambda>v. quote_string_literal v target) vs) k ts = Inr (print_template (bind_values vs k ts))"
proof (induction ts arbitrary: k)
  case (Cons t ts)
  then show ?case
    by (cases t) (auto simp: literal_at_def quote_string_literal_def)
qed simp

lemma wf_bind_values: "wf_template ts \<Longrightarrow> wf_template (bind_values vs k ts)"
proof (induction ts arbitrary: k)
  case (Cons t ts)
  show ?case
  proof (cases ts)
    case Nil
    with Cons.prems show ?thesis by (cases t) auto
  next
    case (Cons u us)
    with Cons.prems Cons.IH [of k] Cons.IH [of "Suc k"] show ?thesis
      by (cases t; cases u) auto
  qed
qed simp

lemma literals_of_text: "squote \<notin> set w \<Longrightarrow> literals_of (w @ rest) = literals_of rest"
  by (induction w) auto

lemma literals_of_print:
  "wf_template ts \<Longrightarrow> literals_of (print_template ts) = template_literals ts"
proof (induction ts)
  case (Cons t ts)
  have digits: "squote \<notin> set (show_nat n)" for n
    using show_nat_digits digit_not_quote(1) by blast
  show ?case
  proof (cases t)
    case (TLit v)
    with Cons scan_quoted_body [OF after_lit, of v ts v] show ?thesis by simp
  next
    case (TDollar n)
    with Cons digits [of n] show ?thesis by (simp add: literals_of_text)
  qed (use Cons in \<open>simp_all add: literals_of_text\<close>)
qed simp

text \<open>
  Binding is injection-free: when every placeholder has a value and the values are rendered by
  \<open>quote_string_literal\<close>, the result is the template with each placeholder replaced by one string
  literal, and scanning that result finds exactly the template's literals and the bound values, in
  order, whatever characters the values hold.
\<close>

theorem bound_values_stay_literals:
  assumes "wf_template ts" "params_bound vs 0 ts"
  shows "\<exists>out. substitute_placeholders chk (print_template ts)
                  (map (\<lambda>v. quote_string_literal v target) vs) = Inr out \<and>
               out = print_template (bind_values vs 0 ts) \<and>
               literals_of out = template_literals (bind_values vs 0 ts)"
  using assms
  by (simp add: substitute_placeholders_def substitute_from_template expand_bound wf_bind_values literals_of_print)

theorem bound_values_stay_literals_witness:
  "\<exists>out. substitute_placeholders False (print_template [TText ''a = '', TDollar 1])
      (map (\<lambda>v. quote_string_literal v Sqlite) [[squote] @ '' OR 1=1'']) = Inr out \<and>
    literals_of out = [[squote] @ '' OR 1=1'']"
  using bound_values_stay_literals
    [of "[TText ''a = '', TDollar 1]" "[[squote] @ '' OR 1=1'']" False Sqlite] by auto

section \<open>Numbers out of range\<close>

text \<open>
  A placeholder number the source does not expect is not rejected as such: \<open>$0\<close> panics where
  overflow is checked and asks for value \<open>2 ^ 64 - 1\<close> in a release build, and a number too large for
  a \<open>usize\<close> is read as \<open>$1\<close>, so the first bound value takes its place.
\<close>

theorem placeholder_number_edges:
  assumes "rest = [] \<or> \<not> is_ascii_digit (hd rest)" "2 ^ 64 \<le> n" "length literals < 2 ^ 64"
  shows "substitute_placeholders True (''$0'' @ rest) literals = Inl Panic \<and>
         substitute_placeholders False (''$0'' @ rest) literals =
           Inl (Err (Translate (''not enough bind parameters: '' @ show_nat (2 ^ 64 - 1) @ '' requested, '' @
             show_nat (length literals) @ '' provided''))) \<and>
         substitute_placeholders chk (CHR ''$'' # show_nat n @ rest) (v # vs) =
           prepend v (substitute_from chk (v # vs) 1 rest)"
proof -
  have zero: "show_nat 0 = ''0''" by code_simp
  have n0: "numbered_literal chk literals ''0'' = (if chk then Inl Panic else literal_at literals (2 ^ 64 - 1))" for chk
    using parse_usize_show_nat [of 0]
    by (simp add: zero numbered_literal_def placeholder_number_def usize_pred_def)
  have big: "numbered_literal chk (v # vs) (show_nat n) = Inr v"
  proof -
    have "hd (show_nat n) \<noteq> CHR ''+''"
      using show_nat_digits [OF hd_in_set [OF show_nat_not_Nil], of n] by (auto simp: is_ascii_digit_def)
    with assms(2) have "parse_usize (show_nat n) = None" by (auto simp: parse_usize_def Let_def)
    then show ?thesis
      by (simp add: numbered_literal_def placeholder_number_def usize_pred_def literal_at_def)
  qed
  have missing: "literal_at literals 18446744073709551615 =
      Inl (Err (Translate (''not enough bind parameters: '' @ show_nat (2 ^ 64 - 1) @ '' requested, '' @
        show_nat (length literals) @ '' provided'')))"
    using assms(3) by (simp add: literal_at_def del: append.simps)
  show ?thesis
    using substitute_dollar [OF assms(1), where n = 0] substitute_dollar [OF assms(1), where n = n]
    unfolding substitute_placeholders_def zero
    by (simp add: n0 big missing)
qed

theorem placeholder_number_edges_witness:
  "substitute_placeholders True ''$0'' [] = Inl Panic \<and>
   substitute_placeholders True (CHR ''$'' # show_nat (2 ^ 64)) [''7''] = Inr ''7''"
  using placeholder_number_edges [of "[]" "2 ^ 64" "[]" True "''7''" "[]"] by simp

section \<open>The probe has enough parameters\<close>

text \<open>
  \<open>probe_result_schema\<close> neutralises a translated statement by substituting \<open>NULL\<close> for every
  parameter up to the highest \<open>$n\<close>. A \<open>String\<close> is three machine words.
\<close>

definition string_size :: nat where "string_size = 24"

definition neutralize :: "bool \<Rightarrow> string \<Rightarrow> string res" where
  "neutralize chk translated =
     bind_res (vec_repeat string_size ''NULL'' (max_positional_placeholder translated)) (\<lambda>literals.
       case substitute_placeholders chk translated literals of
         Inr s \<Rightarrow> Inr s
       | Inl (Err e) \<Rightarrow> Inr translated
       | Inl Panic \<Rightarrow> Inl Panic)"

text \<open>Every \<open>$\<close> number of a text is a \<open>usize\<close> above zero.\<close>

function numbers_ok :: "string \<Rightarrow> bool" where
  "numbers_ok [] \<longleftrightarrow> True"
| "numbers_ok (c # cs) \<longleftrightarrow>
     (c = CHR ''$'' \<and> takeWhile is_ascii_digit cs \<noteq> [] \<longrightarrow>
        (\<exists>n \<in> set_option (parse_usize (takeWhile is_ascii_digit cs)). 0 < n)) \<and>
     numbers_ok cs"
  by pat_completeness auto

termination
  by (relation "measure length") simp_all

lemma max_from_digits: "max_from (dropWhile is_ascii_digit cs) = max_from cs"
proof (induction cs)
  case (Cons d ds)
  then show ?case
    by (auto simp: max_from.simps(2) Let_def dest: digit_not_quote)
qed simp

lemma max_from_suffix: "max_from (drop k s) \<le> max_from s"
proof (induction s arbitrary: k)
  case (Cons c cs)
  have "max_from cs \<le> max_from (c # cs)"
    by (simp add: max_from.simps(2) Let_def max_from_digits)
  with Cons [of "k - 1"] show ?case by (cases k) (auto intro: order_trans)
qed simp

lemma numbers_ok_suffix: "numbers_ok s \<Longrightarrow> numbers_ok (drop k s)"
  by (induction s arbitrary: k) (auto simp: drop_Cons split: nat.split)

lemma substitute_from_total:
  assumes "numbers_ok s" "CHR ''?'' \<notin> set s" "max_from s \<le> length literals"
  shows "\<exists>out. substitute_from chk literals k s = Inr out"
  using assms
proof (induction chk literals k s rule: substitute_from.induct)
  case (2 chk literals k c cs)
  have sub: "numbers_ok (drop j cs)" "CHR ''?'' \<notin> set (drop j cs)" "max_from (drop j cs) \<le> length literals" for j
    using "2.prems" numbers_ok_suffix [of "c # cs" "Suc j"] max_from_suffix [of "Suc j" "c # cs"]
    by (auto dest: in_set_dropD)
  have sub_cs: "numbers_ok cs" "CHR ''?'' \<notin> set cs" "max_from cs \<le> length literals"
    using sub [of 0] by simp_all
  obtain j where j: "snd (scan_quoted squote cs) = drop j cs"
    using quoted.scan_rest_is_suffix by blast
  have dw: "dropWhile is_ascii_digit cs = drop (length (takeWhile is_ascii_digit cs)) cs"
    by (rule dropWhile_eq_drop)
  show ?case
  proof (cases "c = CHR ''$'' \<and> takeWhile is_ascii_digit cs \<noteq> []")
    case True
    let ?num = "takeWhile is_ascii_digit cs"
    from True "2.prems"(1) obtain n where n: "parse_usize ?num = Some n" "0 < n" by auto
    have "n \<le> max_from (c # cs)"
      using True n(1) by (simp add: max_from.simps(2) Let_def)
    with "2.prems"(3) n have lit: "numbered_literal chk literals ?num = Inr (literals ! (n - 1))"
      by (simp add: numbered_literal_def placeholder_number_def usize_pred_def literal_at_def)
    from "2.IH"(3) [OF _ _ refl refl] True lit sub [of "length ?num"] dw
    obtain out where "substitute_from chk literals (Suc k) (dropWhile is_ascii_digit cs) = Inr out"
      by auto
    with True lit show ?thesis by (simp add: substitute_from.simps(2))
  next
    case False
    then show ?thesis
      using "2.IH"(1) "2.IH"(2) [OF _ _ refl refl] "2.IH"(5) sub [of j] sub_cs
        sub [of "length (takeWhile is_ascii_digit cs)"] j dw "2.prems"(2)
      by (auto simp: substitute_from.simps(2) Let_def prepend_eq_Inr)
  qed
qed simp

text \<open>
  The probe's \<open>NULL\<close> substitution succeeds, in either build, on a translated statement
  whose placeholder numbers are positive, fit a \<open>usize\<close> and leave the list of literals below
  \<open>isize::MAX\<close> bytes, and which holds no \<open>?\<close>: the highest
  \<open>$n\<close> it counted covers every placeholder, those it found inside string literals included.
\<close>

theorem probe_parameters_suffice:
  assumes "numbers_ok sql" "CHR ''?'' \<notin> set sql" "string_size * max_positional_placeholder sql < 2 ^ 63"
  shows "\<exists>probe. substitute_placeholders chk sql (replicate (max_positional_placeholder sql) ''NULL'') = Inr probe \<and>
         neutralize chk sql = Inr probe"
  using substitute_from_total [OF assms(1,2), of "replicate (max_from sql) ''NULL''" chk 0] assms(3)
  by (auto simp: neutralize_def vec_repeat_def substitute_placeholders_def max_positional_placeholder_def)

text \<open>
  The length of that list is the largest number after a dollar sign anywhere in the text, in a string
  literal too: describing \<open>SELECT '$999999999999999999'\<close>, which has no parameters, panics.
\<close>

lemma dollar_number_panics:
  "neutralize chk (''SELECT '' @ [squote] @ ''$999999999999999999'' @ [squote]) = Inl Panic"
  by (simp add: neutralize_def vec_repeat_def string_size_def max_positional_placeholder_def max_from.simps(2)
      is_ascii_digit_def parse_usize_def digits_val_def digit_val_def)

theorem probe_parameters_suffice_witness:
  "\<exists>probe. substitute_placeholders True ''a=$2'' (replicate (max_positional_placeholder ''a=$2'') ''NULL'') = Inr probe \<and>
     neutralize True ''a=$2'' = Inr probe"
proof (rule probe_parameters_suffice)
  show "numbers_ok ''a=$2''" "string_size * max_positional_placeholder ''a=$2'' < 2 ^ 63"
    by (simp_all add: string_size_def max_positional_placeholder_def max_from.simps(2)
        is_ascii_digit_def parse_usize_def digits_val_def digit_val_def)
qed simp

end
