(* ===== verification/Lexemes.thy ===== *)
theory Lexemes
  imports Quoting
begin

text \<open>
  What \<open>fix_quoting\<close> should do, said without its scanners: a grammar of SQL lexemes, each with the text
  it spells and the condition under which it may stand before a text, and the conversion of a lexeme to
  the target's style. Every text is spelled by exactly one sequence of lexemes, and the pass converts it.
\<close>

section \<open>The grammar\<close>

datatype lexeme =
    LString string          \<comment> \<open>a string literal, by its value\<close>
  | LIdent char string      \<comment> \<open>a quoted identifier, by its quote and its name\<close>
  | LDollar string string   \<comment> \<open>a dollar-quoted string, by its tag and its value\<close>
  | LLine string            \<comment> \<open>a comment to the end of the line, by its text\<close>
  | LBlock string           \<comment> \<open>a bracketed comment, by its text\<close>
  | LChar char              \<comment> \<open>any other character\<close>
  | LOpenString string      \<comment> \<open>the three that the end of the text cuts off\<close>
  | LOpenIdent char string
  | LOpenBlock string

definition dollar_close :: "string \<Rightarrow> string" where
  "dollar_close tag = CHR ''$'' # tag @ ''$''"

fun spell :: "lexeme \<Rightarrow> string" where
  "spell (LString v) = squote # double_char squote v @ [squote]"
| "spell (LIdent q v) = q # double_char q v @ [q]"
| "spell (LDollar tag v) = dollar_close tag @ v @ dollar_close tag"
| "spell (LLine v) = ''--'' @ v"
| "spell (LBlock v) = ''/*'' @ v @ ''*/''"
| "spell (LChar c) = [c]"
| "spell (LOpenString v) = squote # double_char squote v"
| "spell (LOpenIdent q v) = q # double_char q v"
| "spell (LOpenBlock v) = ''/*'' @ v"

text \<open>A tag is empty or word characters that start with a letter or digit.\<close>

definition dollar_tag :: "string \<Rightarrow> bool" where
  "dollar_tag tag \<longleftrightarrow> list_all is_word_char tag \<and> (tag \<noteq> [] \<longrightarrow> is_alphanumeric (hd tag))"

text \<open>The text after a dollar sign makes it the start of a dollar-quoted string.\<close>

definition opens_dollar :: "string \<Rightarrow> bool" where
  "opens_dollar rest \<longleftrightarrow> (\<exists>tag v after. dollar_tag tag \<and> rest = tag @ ''$'' @ v @ dollar_close tag @ after)"

text \<open>When a lexeme stands before a text: it is not longer, and its closing mark is the first one.\<close>

fun stands_before :: "lexeme \<Rightarrow> string \<Rightarrow> bool" where
  "stands_before (LString v) rest \<longleftrightarrow> rest = [] \<or> hd rest \<noteq> squote"
| "stands_before (LIdent q v) rest \<longleftrightarrow> q \<in> {dquote, backtick} \<and> (rest = [] \<or> hd rest \<noteq> q)"
| "stands_before (LDollar tag v) rest \<longleftrightarrow>
     dollar_tag tag \<and> \<not> contains_sub (dollar_close tag) (butlast (v @ dollar_close tag))"
| "stands_before (LLine v) rest \<longleftrightarrow> newline \<notin> set v \<and> (rest = [] \<or> hd rest = newline)"
| "stands_before (LBlock v) rest \<longleftrightarrow> \<not> contains_sub ''*/'' v"
| "stands_before (LChar c) rest \<longleftrightarrow>
     c \<notin> {squote, dquote, backtick} \<and> (c = CHR ''$'' \<longrightarrow> \<not> opens_dollar rest) \<and>
     \<not> (c = CHR ''-'' \<and> starts_with ''-'' rest) \<and> \<not> (c = CHR ''/'' \<and> starts_with ''*'' rest)"
| "stands_before (LOpenString v) rest \<longleftrightarrow> rest = []"
| "stands_before (LOpenIdent q v) rest \<longleftrightarrow> q \<in> {dquote, backtick} \<and> rest = []"
| "stands_before (LOpenBlock v) rest \<longleftrightarrow> \<not> contains_sub ''*/'' v \<and> rest = []"

fun lexes :: "lexeme list \<Rightarrow> string \<Rightarrow> bool" where
  "lexes [] s \<longleftrightarrow> s = []"
| "lexes (x # xs) s \<longleftrightarrow>
     (let rest = drop (length (spell x)) s in starts_with (spell x) s \<and> stands_before x rest \<and> lexes xs rest)"

lemma lexes_Cons: "lexes (x # xs) s \<longleftrightarrow> (\<exists>rest. s = spell x @ rest \<and> stands_before x rest \<and> lexes xs rest)"
  by (auto simp: starts_with_iff Let_def)

declare lexes.simps(2) [simp del]

lemma spell_not_Nil [simp]: "spell x \<noteq> []"
  by (cases x) (simp_all add: dollar_close_def)

text \<open>A lexeme in the target's style; an identifier cut off after its opening quote has none.\<close>

fun convert :: "target_dialect \<Rightarrow> lexeme \<Rightarrow> string res" where
  "convert target (LIdent q v) = Inr (spell (LIdent (target_quote target) (double_char q v)))"
| "convert target (LOpenIdent q v) =
     (if v = [] then Inl Panic else Inr (spell (LIdent (target_quote target) (butlast (double_char q v)))))"
| "convert target x = Inr (spell x)"

section \<open>The scanners read lexemes\<close>

lemma scan_quoted_open: "scan_quoted q (double_char q v) = (double_char q v, [])"
proof (induction v)
  case (Cons c v)
  then show ?case by (cases "double_char q v") auto
qed simp

lemma scan_quoted_cases:
  obtains (shut) v rest where "s = double_char q v @ q # rest" "rest = [] \<or> hd rest \<noteq> q"
  | (cut) v where "s = double_char q v"
proof (induction q s arbitrary: thesis rule: scan_quoted.induct)
  case (1 q)
  show ?case by (rule 1(2) [of "[]"]) simp
next
  case (2 q c)
  show ?case
  proof (cases "c = q")
    case True
    then show ?thesis by (intro 2(1) [of "[]" "[]"]) simp_all
  next
    case False
    then show ?thesis by (intro 2(2) [of "[c]"]) simp
  qed
next
  case (3 q c d cs)
  consider "c = q" "d = q" | "c = q" "d \<noteq> q" | "c \<noteq> q" by blast
  then show ?case
  proof cases
    case 1
    show ?thesis
      by (rule "3.IH"(1) [OF 1])
        (use 1 "3.prems"(1) [of "q # _"] "3.prems"(2) [of "q # _"] in auto)
  next
    case 2
    then show ?thesis by (intro "3.prems"(1) [of "[]" "d # cs"]) simp_all
  next
    case 3
    show ?thesis
      by (rule "3.IH"(2) [OF 3])
        (use 3 "3.prems"(1) [of "c # _"] "3.prems"(2) [of "c # _"] in auto)
  qed
qed

text \<open>The block comment: to the first closing mark, or to the end of the text.\<close>

lemma contains_sub_Cons: "contains_sub p (c # s) \<longleftrightarrow> starts_with p (c # s) \<or> contains_sub p s"
  by (simp add: contains_sub_def)

lemma scan_block_shut: "\<not> contains_sub ''*/'' v \<Longrightarrow> scan_block (v @ ''*/'' @ rest) = (v @ ''*/'', rest)"
proof (induction v)
  case (Cons c v)
  then have v: "\<not> contains_sub ''*/'' v" and c: "\<not> starts_with ''*/'' (c # v)" by (simp_all add: contains_sub_Cons)
  obtain d w where dw: "v @ ''*/'' @ rest = d # w" by (cases v) auto
  have "\<not> (c = CHR ''*'' \<and> d = CHR ''/'')"
    using c dw by (cases v) (auto simp: starts_with_def)
  with Cons.IH [OF v] dw show ?case by (cases v) auto
qed simp

lemma scan_block_open: "\<not> contains_sub ''*/'' v \<Longrightarrow> scan_block v = (v, [])"
  by (induction v rule: scan_block.induct) (auto simp: contains_sub_Cons starts_with_def)

lemma block_cases:
  obtains (shut) v rest where "s = v @ ''*/'' @ rest" "\<not> contains_sub ''*/'' v"
  | (cut) "\<not> contains_sub ''*/'' s"
proof (induction s arbitrary: thesis)
  case Nil
  show ?case by (rule Nil(2)) (simp add: contains_sub_def)
next
  case (Cons c s)
  show ?case
  proof (cases "starts_with ''*/'' (c # s)")
    case True
    then obtain r where "c # s = ''*/'' @ r" by (auto simp: starts_with_iff)
    then show ?thesis by (intro Cons.prems(1) [of "[]" r]) (simp_all add: contains_sub_def)
  next
    case no: False
    show ?thesis
    proof (rule Cons.IH)
      fix v rest
      assume v: "s = v @ ''*/'' @ rest" "\<not> contains_sub ''*/'' v"
      have "\<not> starts_with ''*/'' (c # v)" using no v(1) by (cases v) (auto simp: starts_with_def)
      with v show ?thesis by (intro Cons.prems(1) [of "c # v" rest]) (simp_all add: contains_sub_Cons)
    qed (use no in \<open>auto simp: contains_sub_Cons intro: Cons.prems(2)\<close>)
  qed
qed

lemma scan_line_shut: "newline \<notin> set v \<Longrightarrow> rest = [] \<or> hd rest = newline \<Longrightarrow> scan_line (v @ rest) = (v, rest)"
  by (induction v; cases rest) (auto simp: scan_line_def)

text \<open>The dollar-quoted string: to the first occurrence of its tag between dollar signs.\<close>

lemma starts_with_append_long:
  "length p \<le> length a \<Longrightarrow> starts_with p (a @ b) = starts_with p a"
  by (simp add: starts_with_def)

lemma find_dollar_close_first:
  assumes "\<not> contains_sub (dollar_close tag) (butlast (v @ dollar_close tag))"
  shows "find_dollar_close tag (v @ dollar_close tag @ rest) = Some (v @ dollar_close tag, rest)"
  using assms
proof (induction v)
  case Nil
  have "starts_with (dollar_close tag) (dollar_close tag @ rest)" by (auto simp: starts_with_iff)
  then show ?case by (simp add: dollar_close_def)
next
  case (Cons c v)
  let ?k = "dollar_close tag"
  have butlast: "butlast ((c # v) @ ?k) = c # butlast (v @ ?k)" by (simp add: dollar_close_def)
  obtain u z where u: "(c # v) @ ?k = u @ [z]" by (cases "(c # v) @ ?k" rule: rev_cases) auto
  then have "length ?k \<le> length u" by (metis Suc_le_mono add_Suc append_Cons le_add2 length_Cons length_append length_append_singleton)
  then have "starts_with ?k (u @ z # rest) = starts_with ?k u" by (rule starts_with_append_long)
  moreover have "c # v @ ?k @ rest = u @ z # rest" using u by (metis append.assoc append_Cons append_Nil)
  moreover have "\<not> starts_with ?k u" using Cons.prems u unfolding u by (metis butlast butlast_snoc contains_sub_Cons u)
  ultimately have "\<not> starts_with ?k (c # v @ ?k @ rest)" by metis
  moreover have "\<not> contains_sub ?k (butlast (v @ ?k))"
    using Cons.prems unfolding butlast by (simp add: contains_sub_Cons)
  ultimately show ?case using Cons.IH by (simp add: dollar_close_def Let_def)
qed

lemma find_dollar_close_None: "find_dollar_close tag s = None \<longleftrightarrow> \<not> contains_sub (dollar_close tag) s"
  by (induction s) (simp_all add: dollar_close_def contains_sub_Cons Let_def, simp add: contains_sub_def)

lemma find_dollar_close_Some: "find_dollar_close tag s = Some ab \<Longrightarrow> contains_sub (dollar_close tag) s"
  using find_dollar_close_None [of tag s] by simp

lemma first_occurrence:
  assumes "contains_sub p s" "p \<noteq> []"
  obtains v rest where "s = v @ p @ rest" "\<not> contains_sub p (butlast (v @ p))"
proof -
  let ?n = "LEAST n. \<exists>v rest. s = v @ p @ rest \<and> length v = n"
  have "\<exists>n v rest. s = v @ p @ rest \<and> length v = n" using assms(1) by (auto simp: contains_sub_iff)
  from LeastI_ex [OF this] obtain v rest where v: "s = v @ p @ rest" "length v = ?n" by blast
  have "\<not> contains_sub p (butlast (v @ p))"
  proof
    assume "contains_sub p (butlast (v @ p))"
    then obtain a b where ab: "butlast (v @ p) = a @ p @ b" by (auto simp: contains_sub_iff)
    then have "v @ p = a @ p @ b @ [last (v @ p)]"
      by (metis append.assoc append_butlast_last_id append_is_Nil_conv assms(2))
    then have "s = a @ p @ (b @ [last (v @ p)] @ rest)" using v(1) by (metis append.assoc)
    moreover from \<open>v @ p = a @ p @ b @ [last (v @ p)]\<close> have "length (v @ p) = length (a @ p @ b @ [last (v @ p)])" by simp
    then have "length a < length v" by simp
    ultimately show False using Least_le [of "\<lambda>n. \<exists>v rest. s = v @ p @ rest \<and> length v = n" "length a"] v(2) by fastforce
  qed
  with v(1) that show ?thesis by blast
qed

lemma dollar_tag_word: "dollar_tag tag \<Longrightarrow> c \<in> set tag \<Longrightarrow> is_word_char c"
  by (auto simp: dollar_tag_def list_all_iff)

lemma dollar_not_word [simp]: "\<not> is_word_char CHR ''$''"
  by (simp add: is_word_char_def)

lemma take_tag:
  assumes "dollar_tag tag"
  shows "takeWhile is_word_char (tag @ CHR ''$'' # rest) = tag"
    "dropWhile is_word_char (tag @ CHR ''$'' # rest) = CHR ''$'' # rest"
  using dollar_tag_word [OF assms] by (simp_all add: takeWhile_append2 dropWhile_append2)

lemma dollar_tag_next:
  assumes "dollar_tag tag"
  shows "(case tag @ CHR ''$'' # rest of [] \<Rightarrow> nul | d # _ \<Rightarrow> d) = CHR ''$'' \<or>
    is_alphanumeric (case tag @ CHR ''$'' # rest of [] \<Rightarrow> nul | d # _ \<Rightarrow> d)"
  using assms by (cases tag) (simp_all add: dollar_tag_def)

lemma scan_dollar_shut:
  assumes "dollar_tag tag" "\<not> contains_sub (dollar_close tag) (butlast (v @ dollar_close tag))"
  shows "scan_dollar (tag @ ''$'' @ v @ dollar_close tag @ rest) = (tag @ ''$'' @ v @ dollar_close tag, rest)"
  using dollar_tag_next [OF assms(1), of "v @ dollar_close tag @ rest"] find_dollar_close_first [OF assms(2), of rest]
  by (auto simp: scan_dollar_def skip_dollar_quoted_def take_tag [OF assms(1)] Let_def)

lemma scan_dollar_single:
  assumes "\<not> opens_dollar s"
  shows "scan_dollar s = ([], s)"
proof -
  let ?tag = "takeWhile is_word_char s"
  have "skip_dollar_quoted s = None" if nxt: "(case s of [] \<Rightarrow> nul | d # _ \<Rightarrow> d) = CHR ''$'' \<or> is_alphanumeric (case s of [] \<Rightarrow> nul | d # _ \<Rightarrow> d)"
  proof (rule ccontr)
    assume "skip_dollar_quoted s \<noteq> None"
    then obtain body where body: "dropWhile is_word_char s = CHR ''$'' # body" "contains_sub (dollar_close ?tag) body"
      by (auto simp: skip_dollar_quoted_def Let_def split: list.splits if_splits dest: find_dollar_close_Some)
    then obtain v after where "body = v @ dollar_close ?tag @ after" by (auto simp: contains_sub_iff)
    then have "s = ?tag @ ''$'' @ v @ dollar_close ?tag @ after"
      using body(1) takeWhile_dropWhile_id [of is_word_char s] by simp
    moreover have "dollar_tag ?tag"
      using nxt by (cases s) (auto simp: dollar_tag_def list_all_iff dest: set_takeWhileD split: if_splits)
    ultimately show False using assms unfolding opens_dollar_def by blast
  qed
  then show ?thesis by (auto simp: scan_dollar_def Let_def)
qed

lemma opens_dollar_first:
  assumes "opens_dollar s"
  obtains tag v rest where "s = tag @ ''$'' @ v @ dollar_close tag @ rest" "dollar_tag tag"
    "\<not> contains_sub (dollar_close tag) (butlast (v @ dollar_close tag))"
proof -
  from assms obtain tag v after where s: "dollar_tag tag" "s = tag @ ''$'' @ v @ dollar_close tag @ after"
    by (auto simp: opens_dollar_def)
  then have "contains_sub (dollar_close tag) (v @ dollar_close tag @ after)" by (auto simp: contains_sub_iff)
  moreover have "dollar_close tag \<noteq> []" by (simp add: dollar_close_def)
  ultimately obtain w rest where "v @ dollar_close tag @ after = w @ dollar_close tag @ rest"
    "\<not> contains_sub (dollar_close tag) (butlast (w @ dollar_close tag))" by (rule first_occurrence)
  with s that show ?thesis by metis
qed

section \<open>Every text is spelled by lexemes\<close>

lemma some_lexeme:
  assumes "s \<noteq> []"
  obtains x rest where "s = spell x @ rest" "stands_before x rest"
proof -
  from assms obtain c cs where s: "s = c # cs" by (cases s) auto
  consider (string) "c = squote" | (ident) "c \<in> {dquote, backtick}" | (dollar) "c = CHR ''$''" "opens_dollar cs"
    | (line) "c = CHR ''-''" "starts_with ''-'' cs" | (block) "c = CHR ''/''" "starts_with ''*'' cs"
    | (char) "stands_before (LChar c) cs" by auto
  then show ?thesis
  proof cases
    case string
    with s that [of "LString _"] that [of "LOpenString _" "[]"] show ?thesis
      by (cases rule: scan_quoted_cases [of cs squote]) auto
  next
    case ident
    with s that [of "LIdent c _"] that [of "LOpenIdent c _" "[]"] show ?thesis
      by (cases rule: scan_quoted_cases [of cs c]) auto
  next
    case dollar
    from opens_dollar_first [OF dollar(2)] obtain tag v rest where "cs = tag @ ''$'' @ v @ dollar_close tag @ rest" "dollar_tag tag"
      "\<not> contains_sub (dollar_close tag) (butlast (v @ dollar_close tag))" by blast
    with s dollar(1) show ?thesis by (intro that [of "LDollar tag v" rest]) (simp_all add: dollar_close_def)
  next
    case line
    have "dropWhile (\<lambda>c. c \<noteq> newline) (tl cs) = [] \<or> hd (dropWhile (\<lambda>c. c \<noteq> newline) (tl cs)) = newline"
      using hd_dropWhile [of "\<lambda>c. c \<noteq> newline" "tl cs"] by blast
    moreover from line have "s = ''--'' @ tl cs" using s by (auto simp: starts_with_iff)
    ultimately show ?thesis
      by (intro that [of "LLine (takeWhile (\<lambda>c. c \<noteq> newline) (tl cs))" "dropWhile (\<lambda>c. c \<noteq> newline) (tl cs)"])
        (auto dest: set_takeWhileD)
  next
    case block
    then obtain t where t: "s = ''/*'' @ t" using s by (auto simp: starts_with_iff)
    with that [of "LBlock _"] that [of "LOpenBlock t" "[]"] show ?thesis
      by (cases rule: block_cases [of t]) auto
  next
    case char
    with s that [of "LChar c" cs] show ?thesis by simp
  qed
qed

lemma lexes_exists: "\<exists>xs. lexes xs s"
proof (induction "length s" arbitrary: s rule: less_induct)
  case less
  show ?case
  proof (cases "s = []")
    case True
    then show ?thesis by (intro exI [of _ "[]"]) simp
  next
    case False
    then obtain x rest where x: "s = spell x @ rest" "stands_before x rest" by (rule some_lexeme)
    moreover have "length rest < length s" using x(1) by simp
    with less obtain xs where "lexes xs rest" by blast
    ultimately have "lexes (x # xs) s" by (auto simp: lexes_Cons)
    then show ?thesis by blast
  qed
qed

section \<open>The pass converts them\<close>

lemma fix_quoting_lexeme:
  assumes "stands_before x rest"
  shows "fix_quoting (spell x @ rest) target = bind_res (convert target x) (\<lambda>t. prepend t (fix_quoting rest target))"
proof (cases x)
  case (LString v)
  with assms scan_quoted_body [of rest squote v] show ?thesis by (simp add: fix_quoting.simps(2))
next
  case (LIdent q v)
  with assms scan_quoted_body [of rest q v] show ?thesis by (auto simp: fix_quoting.simps(2) requote_span_def)
next
  case (LDollar tag v)
  with assms scan_dollar_shut [of tag v rest] show ?thesis by (simp add: fix_quoting.simps(2) dollar_close_def)
next
  case (LLine v)
  with assms scan_line_shut [of v rest] show ?thesis by (simp add: fix_quoting.simps(2) starts_with_def)
next
  case (LBlock v)
  with assms scan_block_shut [of v rest] show ?thesis by (simp add: fix_quoting.simps(2) starts_with_def)
next
  case (LChar c)
  with assms show ?thesis by (auto simp: fix_quoting.simps(2) scan_dollar_single)
next
  case (LOpenString v)
  with assms show ?thesis by (simp add: fix_quoting.simps(2) scan_quoted_open)
next
  case (LOpenIdent q v)
  have "double_char q v = [] \<longleftrightarrow> v = []" by (cases v) simp_all
  with LOpenIdent assms show ?thesis by (auto simp: fix_quoting.simps(2) scan_quoted_open requote_span_def)
next
  case (LOpenBlock v)
  with assms show ?thesis by (simp add: fix_quoting.simps(2) starts_with_def scan_block_open)
qed

lemma fix_quoting_lexes:
  assumes "lexes xs s"
  shows "fix_quoting s target = map_res concat (try_map (convert target) xs)"
  using assms
proof (induction xs arbitrary: s)
  case (Cons x xs)
  from Cons.prems obtain rest where s: "s = spell x @ rest" "stands_before x rest" "lexes xs rest" by (auto simp: lexes_Cons)
  show ?case
    using fix_quoting_lexeme [OF s(2), of target] Cons.IH [OF s(3)] s(1)
    by (cases "convert target x"; cases "try_map (convert target) xs") simp_all
qed simp

text \<open>A text with a lone opening quote at its end, the one text the pass panics on.\<close>

definition lone_quote :: "string \<Rightarrow> bool" where
  "lone_quote s \<longleftrightarrow> (\<exists>xs q. lexes (xs @ [LOpenIdent q []]) s)"

lemma convert_Inl: "convert target x = Inl f \<longleftrightarrow> f = Panic \<and> (\<exists>q. x = LOpenIdent q [])"
  by (cases x) auto

lemma try_convert_Inl:
  "lexes xs s \<Longrightarrow> try_map (convert target) xs = Inl f \<longleftrightarrow> f = Panic \<and> (\<exists>ys q. xs = ys @ [LOpenIdent q []])"
proof (induction xs arbitrary: s)
  case (Cons x xs)
  then obtain rest where s: "stands_before x rest" "lexes xs rest" by (auto simp: lexes_Cons)
  show ?case
  proof (cases "\<exists>q. x = LOpenIdent q []")
    case True
    with s have "rest = []" by auto
    with s(2) have "xs = []" by (cases xs) (auto simp: lexes_Cons)
    with True show ?thesis by auto
  next
    case False
    then obtain t where "convert target x = Inr t" by (cases "convert target x") (auto simp: convert_Inl)
    with False Cons.IH [OF s(2)] show ?thesis by (auto simp: Cons_eq_append_conv)
  qed
qed simp

lemma fix_quoting_panics: "fix_quoting s target = Inl f \<longleftrightarrow> f = Panic \<and> lone_quote s"
proof
  obtain xs where xs: "lexes xs s" using lexes_exists by blast
  assume "fix_quoting s target = Inl f"
  with fix_quoting_lexes [OF xs] try_convert_Inl [OF xs] xs show "f = Panic \<and> lone_quote s"
    by (auto simp: lone_quote_def)
next
  assume "f = Panic \<and> lone_quote s"
  then obtain xs q where "f = Panic" "lexes (xs @ [LOpenIdent q []]) s" by (auto simp: lone_quote_def)
  with fix_quoting_lexes [OF this(2)] try_convert_Inl [OF this(2)] show "fix_quoting s target = Inl f" by auto
qed

section \<open>The lexemes of a text are determined\<close>

text \<open>What the pass would cut off first: enough to tell lexemes apart.\<close>

definition first_span :: "string \<Rightarrow> string" where
  "first_span s = (case s of [] \<Rightarrow> [] | c # cs \<Rightarrow>
     if c \<in> {squote, dquote, backtick} then c # fst (scan_quoted c cs)
     else if c = CHR ''$'' then c # fst (scan_dollar cs)
     else if c = CHR ''-'' \<and> starts_with ''-'' cs then c # hd cs # fst (scan_line (tl cs))
     else if c = CHR ''/'' \<and> starts_with ''*'' cs then c # hd cs # fst (scan_block (tl cs))
     else [c])"

lemma first_span_lexeme: "stands_before x rest \<Longrightarrow> first_span (spell x @ rest) = spell x"
proof (cases x)
  case (LLine v)
  assume "stands_before x rest"
  with LLine scan_line_shut [of v rest] show ?thesis by (simp add: first_span_def starts_with_def)
qed (use scan_quoted_body [of rest squote] scan_quoted_body [of rest] scan_dollar_shut [of _ _ rest] scan_block_shut [of _ rest] in
    \<open>auto simp: first_span_def scan_quoted_open scan_dollar_single scan_block_open dollar_close_def starts_with_def\<close>)

lemma double_char_even: "double_char q v @ [q] \<noteq> double_char q w"
proof
  assume eq: "double_char q v @ [q] = double_char q w"
  show False using eq
  proof (induction v arbitrary: w)
    case Nil
    then show ?case by (cases w) (auto split: if_splits)
  next
    case (Cons c v)
    then show ?case by (cases w) (auto split: if_splits)
  qed
qed

lemma spell_inj:
  assumes "spell x = spell y" "stands_before x rest" "stands_before y rest"
  shows "x = y"
proof (cases x)
  case (LDollar tag v)
  with assms show ?thesis
  proof (cases y)
    case (LDollar tag' v')
    note y = this
    have "tag @ CHR ''$'' # v @ dollar_close tag = tag' @ CHR ''$'' # v' @ dollar_close tag'"
      using assms(1) \<open>x = LDollar tag v\<close> y by (simp add: dollar_close_def)
    moreover have "dollar_tag tag" "dollar_tag tag'" using assms(2,3) \<open>x = LDollar tag v\<close> y by simp_all
    ultimately have "tag = tag'" using take_tag(1) by metis
    with assms(1) \<open>x = LDollar tag v\<close> y show ?thesis by simp
  qed (auto simp: dollar_close_def)
next
  case (LString v)
  with assms show ?thesis using double_char_even double_char_even [symmetric] by (cases y) (auto simp: dollar_close_def dest: double_char_inj)
next
  case (LIdent q v)
  with assms show ?thesis using double_char_even double_char_even [symmetric] by (cases y) (auto simp: dollar_close_def dest: double_char_inj)
next
  case (LOpenString v)
  with assms show ?thesis using double_char_even double_char_even [symmetric] by (cases y) (auto simp: dollar_close_def dest: double_char_inj)
next
  case (LOpenIdent q v)
  with assms show ?thesis using double_char_even double_char_even [symmetric] by (cases y) (auto simp: dollar_close_def dest: double_char_inj)
next
  case (LLine v)
  with assms show ?thesis by (cases y) (auto simp: dollar_close_def)
next
  case (LBlock v)
  with assms show ?thesis by (cases y) (auto simp: dollar_close_def contains_sub_iff)
next
  case (LChar c)
  with assms show ?thesis by (cases y) (auto simp: dollar_close_def)
next
  case (LOpenBlock v)
  with assms show ?thesis by (cases y) (auto simp: dollar_close_def contains_sub_iff)
qed

lemma lexes_unique: "lexes xs s \<Longrightarrow> lexes ys s \<Longrightarrow> xs = ys"
proof (induction xs arbitrary: s ys)
  case Nil
  then show ?case by (cases ys) (auto simp: lexes_Cons)
next
  case (Cons x xs)
  then obtain rest where x: "s = spell x @ rest" "stands_before x rest" "lexes xs rest" by (auto simp: lexes_Cons)
  with Cons.prems(2) obtain y ys' where ys: "ys = y # ys'" by (cases ys) auto
  with Cons.prems(2) obtain rest' where y: "s = spell y @ rest'" "stands_before y rest'" "lexes ys' rest'" by (auto simp: lexes_Cons)
  have "spell x = spell y" using first_span_lexeme [OF x(2)] first_span_lexeme [OF y(2)] x(1) y(1) by metis
  with x y have "rest = rest'" by simp
  with \<open>spell x = spell y\<close> x y spell_inj have "x = y" by blast
  with ys y(3) \<open>rest = rest'\<close> Cons.IH [OF x(3)] show ?case by simp
qed

text \<open>
  C18. The pass converts the quoted identifiers of a text and nothing else, for every text. A grammar that
  says what the lexemes of a text are without the pass's own scanners (string literals, quoted identifiers,
  dollar-quoted strings with their tags, comments, other characters, and what the end of the text cuts off)
  spells every text in exactly one way; the result is that sequence with each quoted identifier in the
  target's style and every other lexeme, identifiers inside dollar quotes or comments included, byte for
  byte. The only failure is the slice panic, on the texts that end in a lone opening quote.
\<close>

theorem fix_quoting_by_lexemes:
  "(\<exists>!xs. lexes xs s) \<and>
   (\<forall>xs. lexes xs s \<longrightarrow> fix_quoting s target = map_res concat (try_map (convert target) xs)) \<and>
   (fix_quoting s target = Inl f \<longleftrightarrow> f = Panic \<and> (\<exists>xs q. lexes (xs @ [LOpenIdent q []]) s))"
  using lexes_exists [of s] lexes_unique [of _ s] fix_quoting_lexes [of _ s target] fix_quoting_panics [of s target f]
  unfolding lone_quote_def by blast

theorem fix_quoting_by_lexemes_witness:
  "fix_quoting ''SELECT $a$ `x` $$ $a$ /* `y` */ `z` -- `w`'' Sqlite =
     Inr (''SELECT $a$ `x` $$ $a$ /* `y` */ '' @ [dquote, CHR ''z'', dquote] @ '' -- `w`'')"
proof -
  let ?xs = "map LChar ''SELECT '' @ [LDollar ''a'' '' `x` $$ '', LChar CHR '' '', LBlock '' `y` '', LChar CHR '' '',
    LIdent backtick ''z'', LChar CHR '' '', LLine '' `w`'']"
  have "lexes ?xs ''SELECT $a$ `x` $$ $a$ /* `y` */ `z` -- `w`''"
    by (simp add: lexes.simps(2) starts_with_def dollar_close_def dollar_tag_def contains_sub_def is_word_char_def is_alphanumeric_def)
  then have "fix_quoting ''SELECT $a$ `x` $$ $a$ /* `y` */ `z` -- `w`'' Sqlite = map_res concat (try_map (convert Sqlite) ?xs)"
    using fix_quoting_by_lexemes [of "''SELECT $a$ `x` $$ $a$ /* `y` */ `z` -- `w`''" Sqlite Panic] by blast
  then show ?thesis by (simp add: dollar_close_def)
qed

text \<open>
  A statement whose printed form the pass panics on: a literal with a backslash-escaped quote, as PostgreSQL's
  \<open>E''\<close> strings are printed, and a quote in the alias after it.
\<close>

lemma escaped_literal_panics:
  "fix_quoting (''SELECT E'' @ [squote, CHR 0x5C, squote, squote] @ '' AS '' @ [dquote, CHR ''b'', squote, dquote]) Sqlite = Inl Panic"
  by code_simp

section \<open>Statements joined by semicolons\<close>

text \<open>
  A text that ends where it seems to: nothing is cut off, the last line is no comment, and no dollar sign
  waits for its closing mark.
\<close>

definition pending_dollar :: "string \<Rightarrow> bool" where
  "pending_dollar rest \<longleftrightarrow>
     dollar_tag (takeWhile is_word_char rest) \<and> starts_with ''$'' (dropWhile is_word_char rest)"

fun self_contained :: "lexeme list \<Rightarrow> bool" where
  "self_contained [] \<longleftrightarrow> True"
| "self_contained (x # xs) \<longleftrightarrow>
     (case x of
        LLine v \<Rightarrow> xs \<noteq> []
      | LChar c \<Rightarrow> c = CHR ''$'' \<longrightarrow> \<not> pending_dollar (concat (map spell xs))
      | LOpenString v \<Rightarrow> False | LOpenIdent q v \<Rightarrow> False | LOpenBlock v \<Rightarrow> False
      | _ \<Rightarrow> True) \<and> self_contained xs"

definition complete_text :: "string \<Rightarrow> bool" where
  "complete_text s \<longleftrightarrow> (\<exists>xs. lexes xs s \<and> self_contained xs)"

lemma lexes_spell: "lexes xs s \<Longrightarrow> concat (map spell xs) = s"
  by (induction xs arbitrary: s) (auto simp: lexes_Cons)

lemma opens_then_pending:
  assumes "opens_dollar (rest @ CHR '';'' # t)"
  shows "pending_dollar rest"
proof -
  from assms obtain tag v where tag: "dollar_tag tag" "rest @ CHR '';'' # t = tag @ CHR ''$'' # v"
    by (auto simp: opens_dollar_def)
  have semi: "\<not> is_word_char CHR '';''" by (simp add: is_word_char_def is_alphanumeric_def)
  have rest: "takeWhile is_word_char (rest @ CHR '';'' # t) = takeWhile is_word_char rest"
    "dropWhile is_word_char (rest @ CHR '';'' # t) = dropWhile is_word_char rest @ CHR '';'' # t"
    using semi by (induction rest) simp_all
  have "takeWhile is_word_char rest = tag" "dropWhile is_word_char rest @ CHR '';'' # t = CHR ''$'' # v"
    using take_tag [OF tag(1), of v] tag(2) rest by simp_all
  with tag(1) show ?thesis by (cases "dropWhile is_word_char rest") (auto simp: pending_dollar_def starts_with_def)
qed

lemma lexes_then:
  assumes "lexes xs s" "self_contained xs" "lexes ys (CHR '';'' # t)"
  shows "lexes (xs @ ys) (s @ CHR '';'' # t)"
  using assms(1,2)
proof (induction xs arbitrary: s)
  case Nil
  with assms(3) show ?case by simp
next
  case (Cons x xs)
  then obtain rest where x: "s = spell x @ rest" "stands_before x rest" "lexes xs rest" by (auto simp: lexes_Cons)
  have "stands_before x (rest @ CHR '';'' # t)"
  proof (cases x)
    case (LChar c)
    with x(2) Cons.prems(2) opens_then_pending [of rest t] lexes_spell [OF x(3)] show ?thesis
      by (cases rest) (auto simp: starts_with_def)
  next
    case (LLine v)
    with x Cons.prems(2) show ?thesis by (cases xs; cases rest) (auto simp: lexes_Cons)
  next
    case (LString v)
    with x show ?thesis by (cases rest) auto
  next
    case (LIdent q v)
    with x show ?thesis by (cases rest) auto
  qed (use x Cons.prems(2) in simp_all)
  with x Cons.IH [OF x(3)] Cons.prems(2) show ?case by (auto simp: lexes_Cons)
qed

lemma try_map_append: "try_map f (xs @ ys) = bind_res (try_map f xs) (\<lambda>as. map_res (append as) (try_map f ys))"
  by (induction xs) (simp_all add: bind_res_def map_res_def split: sum.split)

lemma fix_quoting_complete:
  assumes "complete_text s"
  shows "\<exists>text. fix_quoting s target = Inr text \<and> fix_quoting (s @ ''; '' @ t) target = prepend (text @ ''; '') (fix_quoting t target)"
proof -
  from assms obtain xs where xs: "lexes xs s" "self_contained xs" by (auto simp: complete_text_def)
  obtain ys where ys: "lexes ys t" using lexes_exists by blast
  have "\<not> self_contained (ys @ [LOpenIdent q []])" for ys q by (induction ys) simp_all
  with xs(2) have "\<not> (\<exists>ys q. xs = ys @ [LOpenIdent q []])" by blast
  then obtain ts where ts: "try_map (convert target) xs = Inr ts"
    using try_convert_Inl [OF xs(1), of target] by (cases "try_map (convert target) xs") blast+
  have "lexes (LChar CHR '';'' # LChar CHR '' '' # ys) (CHR '';'' # CHR '' '' # t)"
    using ys by (simp add: lexes_Cons)
  from fix_quoting_lexes [OF lexes_then [OF xs this]] fix_quoting_lexes [OF xs(1)] fix_quoting_lexes [OF ys] ts
  show ?thesis by (cases "try_map (convert target) ys") (simp_all add: try_map_append)
qed

text \<open>Statements joined by semicolons are converted one by one.\<close>

lemma fix_quoting_join:
  assumes "\<forall>x \<in> set xs. complete_text x"
  shows "fix_quoting (join ''; '' xs) target = map_res (join ''; '') (try_map (\<lambda>x. fix_quoting x target) xs)"
  using assms
proof (induction "''; ''" xs rule: join.induct)
  case (2 w)
  then show ?case by (cases "fix_quoting w target") simp_all
next
  case (3 w v ws)
  then obtain out where "fix_quoting w target = Inr out"
    "fix_quoting (w @ ''; '' @ join ''; '' (v # ws)) target = prepend (out @ ''; '') (fix_quoting (join ''; '' (v # ws)) target)"
    using fix_quoting_complete [of w target "join ''; '' (v # ws)"] by auto
  with 3 show ?case
    by (cases "fix_quoting v target"; cases "try_map (\<lambda>x. fix_quoting x target) ws") (simp_all add: map_res_def)
qed simp

end
