(* ===== verification/Translate.thy ===== *)
theory Translate
  imports Rewrite_Stmt Placeholders Lexemes
begin

text \<open>
  The entry points of \<open>src/translate/mod.rs\<close>: \<open>translate_statement\<close> for one parsed statement and
  \<open>translate\<close> for a text, which compose the structural rewrite (\<open>rewrite_statement\<close>), the
  expression visitor (\<open>post_visit_expr\<close>, driven by the parser crate's own traversal), the parser
  crate's printer and the quoting pass (\<open>fix_quoting\<close>).

  The parser crate is the parameter \<open>P\<close>: \<open>parse_sql\<close> is the parser of the front dialect,
  \<open>show_stmt\<close> the printer, \<open>visit_exprs\<close> the mutable traversal.
\<close>

section \<open>One statement\<close>

definition rewrite_exprs :: "'x sqlparser \<Rightarrow> target_dialect \<Rightarrow> 'x statement \<Rightarrow> 'x statement" where
  "rewrite_exprs P target s = visit_exprs P (post_visit_expr P target) s"

definition translate_statement :: "'x sqlparser \<Rightarrow> translator \<Rightarrow> 'x statement \<Rightarrow> string res" where
  "translate_statement P tr stmt =
     bind_res (rewrite_statement P stmt (tr_target tr)) (\<lambda>cloned.
       fix_quoting (show_stmt P (rewrite_exprs P (tr_target tr) cloned)) (tr_target tr))"

section \<open>A text\<close>

definition truncate_sql :: "string \<Rightarrow> string" where
  "truncate_sql s = shorten 400 s"

text \<open>\<open>for stmt in stmts.iter_mut() { rewrite_statement(stmt, target)? }\<close>.\<close>

fun rewrite_statements :: "'x sqlparser \<Rightarrow> target_dialect \<Rightarrow> 'x statement list \<Rightarrow> 'x statement list res" where
  "rewrite_statements P target [] = Inr []"
| "rewrite_statements P target (s # ss) =
     bind_res (rewrite_statement P s target) (\<lambda>s'. map_res ((#) s') (rewrite_statements P target ss))"

definition translate :: "'x sqlparser \<Rightarrow> translator \<Rightarrow> string \<Rightarrow> string res" where
  "translate P tr sql =
     (if front_dialect_matches_target tr then Inr sql
      else case parse_sql P (tr_front tr) sql of
        Inl e \<Rightarrow> Inl (Err (Parse (e @ '' (sql: '' @ truncate_sql sql @ '')'')))
      | Inr stmts \<Rightarrow>
          bind_res (rewrite_statements P (tr_target tr) stmts) (\<lambda>ss.
            fix_quoting (join ''; '' (map (show_stmt P) (map (rewrite_exprs P (tr_target tr)) ss)))
              (tr_target tr)))"

section \<open>The two entry points agree\<close>

lemma rewrite_statements_all:
  "rewrite_statements P target ss = Inr ss' \<longleftrightarrow>
   list_all2 (\<lambda>s s'. rewrite_statement P s target = Inr s') ss ss'"
  by (induction ss arbitrary: ss') (auto simp: bind_res_eq_Inr list_all2_Cons1)

lemma rewrite_statements_error:
  "rewrite_statements P target ss = Inl f \<Longrightarrow>
   \<exists>s \<in> set ss. rewrite_statement P s target = Inl f"
  by (induction ss) (auto simp: bind_res_eq_Inl)

text \<open>
  Translating a text that parses to one statement is translating that statement: the two entry
  points (the library's \<open>translate\<close> and the session's \<open>translate_statement\<close>) give the same text
  and the same failure, unless the dialects match, where the text is returned as it is.
\<close>

theorem translate_single:
  assumes "parse_sql P (tr_front tr) sql = Inr [s]"
  shows "translate P tr sql =
    (if front_dialect_matches_target tr then Inr sql else translate_statement P tr s)"
proof -
  have "bind_res (rewrite_statements P (tr_target tr) [s]) f =
      bind_res (rewrite_statement P s (tr_target tr)) (\<lambda>s'. f [s'])" for f :: "'a statement list \<Rightarrow> string res"
    by (cases "rewrite_statement P s (tr_target tr)") simp_all
  with assms show ?thesis by (simp add: translate_def translate_statement_def)
qed

theorem translate_single_witness:
  "translate (sample_parser\<lparr>parse_sql := \<lambda>f s. Inr [Use ()], show_stmt := \<lambda>s. ''USE d''\<rparr>)
     (new_translator FrontMysql Sqlite) ''use d'' =
   translate_statement (sample_parser\<lparr>parse_sql := \<lambda>f s. Inr [Use ()], show_stmt := \<lambda>s. ''USE d''\<rparr>)
     (new_translator FrontMysql Sqlite) (Use ())"
  using translate_single [of "sample_parser\<lparr>parse_sql := \<lambda>f s. Inr [Use ()], show_stmt := \<lambda>s. ''USE d''\<rparr>"
    "new_translator FrontMysql Sqlite" "''use d''" "Use ()"]
  by (simp add: new_translator_def front_dialect_matches_target_def)

section \<open>What a translated statement looks like\<close>

text \<open>
  The clauses of a statement the rewrites see to, as the target has them: no comma form of \<open>LIMIT\<close>
  outside MySQL, an accepted \<open>INSERT\<close>, no \<open>RETURNING\<close> on MySQL, no \<open>OR\<close> clause outside SQLite, table
  options only for MySQL and \<open>OR REPLACE\<close> only for PostgreSQL.
\<close>

fun statement_accepted :: "target_dialect \<Rightarrow> 'x statement \<Rightarrow> bool" where
  "statement_accepted target (Query q) \<longleftrightarrow>
     (case q_limit_clause q of Some (OffsetCommaLimit off lim) \<Rightarrow> target = Mysql | _ \<Rightarrow> True)"
| "statement_accepted target (Insert ins) \<longleftrightarrow> insert_accepted target ins"
| "statement_accepted target (Update upd) \<longleftrightarrow>
     (target = Mysql \<longrightarrow> upd_returning upd = None) \<and> (target \<noteq> Sqlite \<longrightarrow> upd_or upd = None)"
| "statement_accepted target (Delete del) \<longleftrightarrow> (target = Mysql \<longrightarrow> del_returning del = None)"
| "statement_accepted target (CreateTable ct) \<longleftrightarrow>
     (target \<noteq> Mysql \<longrightarrow> ct_table_options ct = None) \<and> (target \<noteq> Postgres \<longrightarrow> \<not> ct_or_replace ct)"
| "statement_accepted target s \<longleftrightarrow> True"

lemma rewrite_create_table_options:
  assumes "rewrite_create_table P ct target = Inr ct'"
  shows "(target \<noteq> Mysql \<longrightarrow> ct_table_options ct' = None) \<and> (target \<noteq> Postgres \<longrightarrow> \<not> ct_or_replace ct')"
  using assms
  by (cases target) (auto simp: rewrite_create_table_def Let_def split: sum.splits if_splits option.splits)

lemma rewrite_query_comma:
  "statement_accepted target (Query (rewrite_query q target))"
proof (cases "q_limit_clause q")
  case (Some c)
  then show ?thesis by (cases c) (simp_all add: rewrite_query_def)
qed (simp add: rewrite_query_def)

text \<open>The one clause that can be left unreadable, \<open>unreadable_upsert\<close>.\<close>

fun keeps_upsert :: "target_dialect \<Rightarrow> 'x statement \<Rightarrow> bool" where
  "keeps_upsert target (Insert ins) \<longleftrightarrow> unreadable_upsert target ins"
| "keeps_upsert target s \<longleftrightarrow> False"

lemma rewrite_insert_accepted:
  assumes "rewrite_insert P ins target = Inr ins'"
  shows "insert_accepted target ins' \<longleftrightarrow> \<not> unreadable_upsert target ins"
proof (cases "target = Mysql")
  case True
  with assms rewrite_insert_mysql_Inr [of ins ins'] show ?thesis by (simp add: rewrite_insert_def)
next
  case False
  with assms rewrite_insert_other_ok [OF False, of ins P] show ?thesis by (auto simp: rewrite_insert_def)
qed

lemma rewrite_statement_accepted:
  assumes "rewrite_statement P s target = Inr s'"
  shows "statement_accepted target s' \<longleftrightarrow> \<not> keeps_upsert target s"
proof (cases s)
  case (Query q)
  with assms rewrite_query_comma show ?thesis by auto
next
  case (Insert ins)
  with assms obtain ins' where "rewrite_insert P ins target = Inr ins'" "s' = Insert ins'" by auto
  with Insert rewrite_insert_accepted [OF this(1)] show ?thesis by (simp del: insert_accepted.simps)
next
  case (Update upd)
  with assms show ?thesis by (auto simp: rewrite_update_eq)
next
  case (Delete del)
  with assms show ?thesis by (auto simp: rewrite_delete_def)
next
  case (CreateTable ct)
  with assms obtain a where "rewrite_create_table P ct target = Inr a" "s' = CreateTable a" by auto
  with CreateTable rewrite_create_table_options [OF this(1)] show ?thesis by simp
qed (use assms in auto)

text \<open>The statements no MySQL target can be given.\<close>

fun needs_returning_or :: "'x statement \<Rightarrow> bool" where
  "needs_returning_or (Insert ins) \<longleftrightarrow> ins_returning ins \<noteq> None \<or> ins_or ins \<noteq> None"
| "needs_returning_or s \<longleftrightarrow> False"

lemma rewrite_statement_fails:
  assumes "rewrite_statement P s target = Inl f"
  shows "target = Mysql \<and> needs_returning_or s \<and> (\<exists>m. f = Err (Unsupported m))"
proof (cases s)
  case (Insert ins)
  with assms show ?thesis
    by (auto simp: rewrite_insert_def rewrite_insert_mysql_def Let_def split: if_splits option.splits on_insert.splits)
next
  case (CreateTable ct)
  with assms create_table_ok [of P ct target] show ?thesis by auto
qed (use assms in auto)

text \<open>
  What the translation relies on of the parser crate: \<open>visit\<close> applies the visitor, bottom up, to
  every expression of a statement. Of the printer it relies on nothing.
\<close>

definition visits_exprs :: "'x sqlparser \<Rightarrow> bool" where
  "visits_exprs P \<longleftrightarrow> (\<forall>f s. stmt_exprs (visit_exprs P f s) = map (bottom_up f) (stmt_exprs s))"

text \<open>A statement whose printed translation ends in a lone opening quote, as the quoting pass cuts it.\<close>

definition prints_lone_quote :: "'x sqlparser \<Rightarrow> target_dialect \<Rightarrow> 'x statement \<Rightarrow> bool" where
  "prints_lone_quote P target s \<longleftrightarrow>
     (\<exists>s'. rewrite_statement P s target = Inr s' \<and> lone_quote (show_stmt P (rewrite_exprs P target s')))"

lemma translate_statement_fails:
  "translate_statement P tr stmt = Inl f \<longleftrightarrow>
     rewrite_statement P stmt (tr_target tr) = Inl f \<or> f = Panic \<and> prints_lone_quote P (tr_target tr) stmt"
  by (cases "rewrite_statement P stmt (tr_target tr)")
    (auto simp: translate_statement_def prints_lone_quote_def fix_quoting_panics)

lemma translate_statement_failure:
  assumes "translate_statement P tr stmt = Inl f"
  shows "(tr_target tr = Mysql \<and> needs_returning_or stmt \<and> (\<exists>m. f = Err (Unsupported m))) \<or>
         f = Panic \<and> prints_lone_quote P (tr_target tr) stmt"
  using assms rewrite_statement_fails by (auto simp: translate_statement_fails)

lemma rewrite_exprs_portable:
  assumes "shows_bare_names P" "visits_exprs P" "e \<in> set (stmt_exprs (rewrite_exprs P target s))"
  shows "expr_all (portable_node P target) e"
proof -
  have "stmt_exprs (rewrite_exprs P target s) =
      map (bottom_up (post_visit_expr P target)) (stmt_exprs s)"
    using assms(2) by (simp add: visits_exprs_def rewrite_exprs_def)
  with assms(3) show ?thesis
    using normaliser.ok_norm [OF normaliser_exprs [OF assms(1)]] by auto
qed


lemma try_map_map: "try_map f (map g xs) = try_map (\<lambda>x. f (g x)) xs"
  by (induction xs) simp_all

text \<open>Rewriting all statements before converting the quotes is, when the conversion never fails, doing both one by one.\<close>

lemma rewrite_then_convert:
  assumes "\<And>s c. s \<in> set ss \<Longrightarrow> rewrite_statement P s target = Inr c \<Longrightarrow> \<exists>t. g c = Inr t"
  shows "bind_res (rewrite_statements P target ss) (try_map g) = try_map (\<lambda>s. bind_res (rewrite_statement P s target) g) ss"
  using assms
proof (induction ss)
  case (Cons s ss)
  show ?case
  proof (cases "rewrite_statement P s target")
    case (Inr c)
    obtain t where "g c = Inr t" using Cons.prems [OF _ Inr] by auto
    moreover have "bind_res (rewrite_statements P target ss) (try_map g) = try_map (\<lambda>s. bind_res (rewrite_statement P s target) g) ss"
      by (rule Cons.IH) (use Cons.prems in auto)
    ultimately show ?thesis using Inr by (cases "rewrite_statements P target ss") (auto simp: map_res_def split: sum.splits)
  qed simp
qed simp

text \<open>A statement whose translation is printed as a complete text: nothing is cut off, no comment is last.\<close>

definition prints_complete :: "'x sqlparser \<Rightarrow> target_dialect \<Rightarrow> 'x statement \<Rightarrow> bool" where
  "prints_complete P target s \<longleftrightarrow>
     (case rewrite_statement P s target of Inl f \<Rightarrow> True | Inr s' \<Rightarrow> complete_text (show_stmt P (rewrite_exprs P target s')))"

lemma rewrite_statements_complete:
  assumes "\<forall>s \<in> set ss. prints_complete P target s" "rewrite_statements P target ss = Inr cs"
  shows "\<forall>x \<in> set (map (\<lambda>c. show_stmt P (rewrite_exprs P target c)) cs). complete_text x"
  using assms by (induction ss arbitrary: cs) (auto simp: bind_res_eq_Inr prints_complete_def)

text \<open>
  C19. The library's \<open>translate\<close> of a text and the sessions' \<open>translate_statement\<close> of its statements agree.
  Where the dialects differ, translating a text with any number of statements, each printed as a complete
  text (nothing cut off, no comment last, no dollar sign waiting for its closing mark), gives the statements'
  own translations joined by semicolons, and fails with the failure of the first statement that has none. The
  quoting pass over the whole printed text never reads across a semicolon between such statements.
\<close>

theorem translate_by_statement:
  assumes "parse_sql P (tr_front tr) sql = Inr stmts" "\<not> front_dialect_matches_target tr"
    "\<forall>s \<in> set stmts. prints_complete P (tr_target tr) s"
  shows "translate P tr sql = map_res (join ''; '') (try_map (translate_statement P tr) stmts)"
proof -
  let ?t = "tr_target tr"
  let ?show = "\<lambda>c. show_stmt P (rewrite_exprs P ?t c)"
  have total: "\<exists>out. fix_quoting (?show c) ?t = Inr out" if "s \<in> set stmts" "rewrite_statement P s ?t = Inr c" for s c
    using that assms(3) fix_quoting_complete [of "?show c" ?t] by (force simp: prints_complete_def)
  have "fix_quoting (join ''; '' (map ?show cs)) ?t = map_res (join ''; '') (try_map (\<lambda>c. fix_quoting (?show c) ?t) cs)"
    if "rewrite_statements P ?t stmts = Inr cs" for cs
    using fix_quoting_join [OF rewrite_statements_complete [OF assms(3) that], of ?t] by (simp add: try_map_map)
  then have "translate P tr sql =
      map_res (join ''; '') (bind_res (rewrite_statements P ?t stmts) (try_map (\<lambda>c. fix_quoting (?show c) ?t)))"
    using assms(1,2) by (cases "rewrite_statements P ?t stmts") (simp_all add: translate_def comp_def)
  also have "\<dots> = map_res (join ''; '') (try_map (translate_statement P tr) stmts)"
    using rewrite_then_convert [of stmts P ?t "\<lambda>c. fix_quoting (?show c) ?t", OF total]
    by (simp add: translate_statement_def [abs_def])
  finally show ?thesis .
qed

subsection \<open>A parser that meets the assumptions\<close>

definition map_assignment :: "('x expr \<Rightarrow> 'x expr) \<Rightarrow> 'x assignment \<Rightarrow> 'x assignment" where
  "map_assignment g a = a\<lparr>as_value := g (as_value a)\<rparr>"

fun map_item :: "('x expr \<Rightarrow> 'x expr) \<Rightarrow> 'x select_item \<Rightarrow> 'x select_item" where
  "map_item g (UnnamedExpr e) = UnnamedExpr (g e)"
| "map_item g (ExprWithAlias e i) = ExprWithAlias (g e) i"
| "map_item g (OtherItem x) = OtherItem x"

fun map_set_expr :: "('x expr \<Rightarrow> 'x expr) \<Rightarrow> 'x set_expr \<Rightarrow> 'x set_expr" where
  "map_set_expr g (Select s) =
     Select (s\<lparr>sel_projection := map (map_item g) (sel_projection s),
               sel_selection := map_option g (sel_selection s)\<rparr>)"
| "map_set_expr g (Values rows) = Values (map (map g) rows)"
| "map_set_expr g (OtherSetExpr x) = OtherSetExpr x"

definition map_query :: "('x expr \<Rightarrow> 'x expr) \<Rightarrow> 'x query \<Rightarrow> 'x query" where
  "map_query g q = q\<lparr>q_body := map_set_expr g (q_body q)\<rparr>"

fun map_on_insert :: "('x expr \<Rightarrow> 'x expr) \<Rightarrow> 'x on_insert \<Rightarrow> 'x on_insert" where
  "map_on_insert g (DuplicateKeyUpdate as) = DuplicateKeyUpdate (map (map_assignment g) as)"
| "map_on_insert g (OnConflict ct DoNothing) = OnConflict ct DoNothing"
| "map_on_insert g (OnConflict ct (DoUpdate as sel)) =
     OnConflict ct (DoUpdate (map (map_assignment g) as) (map_option g sel))"
| "map_on_insert g (OtherOnInsert x) = OtherOnInsert x"

fun map_stmt :: "('x expr \<Rightarrow> 'x expr) \<Rightarrow> 'x statement \<Rightarrow> 'x statement" where
  "map_stmt g (Query q) = Query (map_query g q)"
| "map_stmt g (Insert i) =
     Insert (i\<lparr>ins_source := map_option (map_query g) (ins_source i),
               ins_on := map_option (map_on_insert g) (ins_on i)\<rparr>)"
| "map_stmt g (Update u) =
     Update (u\<lparr>upd_assignments := map (map_assignment g) (upd_assignments u),
               upd_selection := map_option g (upd_selection u)\<rparr>)"
| "map_stmt g (Delete d) = Delete (d\<lparr>del_selection := map_option g (del_selection d)\<rparr>)"
| "map_stmt g s = s"

lemma item_exprs_map: "item_exprs (map_item g i) = map g (item_exprs i)"
  by (cases i) simp_all

lemma set_expr_exprs_map: "set_expr_exprs (map_set_expr g b) = map g (set_expr_exprs b)"
  by (cases b) (simp_all add: map_concat comp_def item_exprs_map split: option.split)

lemma on_insert_exprs_map: "on_insert_exprs (map_on_insert g oi) = map g (on_insert_exprs oi)"
  by (induction g oi rule: map_on_insert.induct)
    (simp_all add: map_assignment_def comp_def split: option.split)

lemma stmt_exprs_map: "stmt_exprs (map_stmt g s) = map g (stmt_exprs s)"
  by (cases s)
    (simp_all add: map_query_def set_expr_exprs_map on_insert_exprs_map map_assignment_def comp_def
      split: option.split)

text \<open>The sample parser with this traversal and a printer of one clause per statement.\<close>

fun print_kind :: "'x statement \<Rightarrow> sql_token list" where
  "print_kind (Query q) = [Word ''SELECT '', Quoted ''a'', Word '' FROM '', Quoted ''t'']"
| "print_kind (Delete d) = [Word ''DELETE FROM '', Quoted ''t'', Word '' WHERE '', Quoted ''a'', Word '' = '', Lit ''x'']"
| "print_kind s = [Word ''OTHER'']"

definition token_parser :: "char \<Rightarrow> unit sqlparser" where
  "token_parser q = sample_parser\<lparr>visit_exprs := \<lambda>f s. map_stmt (bottom_up f) s,
     show_stmt := \<lambda>s. print_sql q (print_kind s)\<rparr>"

lemma token_parser_meets: "shows_bare_names (token_parser q)" "visits_exprs (token_parser q)"
  using sample_parser_bare by (simp_all add: shows_bare_names_def visits_exprs_def token_parser_def stmt_exprs_map)


theorem translate_by_statement_witness:
  "translate ((token_parser backtick)\<lparr>parse_sql := \<lambda>f s. Inr [Use (), Drop ()]\<rparr>) (new_translator FrontMysql Sqlite)
     ''USE d; DROP TABLE t'' = Inr ''OTHER; OTHER''"
proof -
  let ?P = "(token_parser backtick)\<lparr>parse_sql := \<lambda>f s. Inr [Use (), Drop ()]\<rparr>"
  have "lexes (map LChar ''OTHER'') ''OTHER''" "self_contained (map LChar ''OTHER'')"
    by (simp_all add: lexes.simps(2) starts_with_def)
  then have "complete_text ''OTHER''" by (auto simp: complete_text_def)
  then have "\<forall>s \<in> set [Use (), Drop ()]. prints_complete ?P (tr_target (new_translator FrontMysql Sqlite)) s"
    by (simp add: prints_complete_def token_parser_def rewrite_exprs_def)
  from translate_by_statement [OF _ _ this, of "''USE d; DROP TABLE t''"]
  have "translate ?P (new_translator FrontMysql Sqlite) ''USE d; DROP TABLE t'' =
      map_res (join ''; '') (try_map (translate_statement ?P (new_translator FrontMysql Sqlite)) [Use (), Drop ()])"
    by (simp add: new_translator_def front_dialect_matches_target_def)
  also have "\<dots> = Inr ''OTHER; OTHER''" by code_simp
  finally show ?thesis .
qed

end
