(* ===== verification/Run_Script.thy ===== *)
theory Run_Script
  imports Intercept Translate
begin

text \<open>
  The execution half of \<open>src/server/common.rs\<close>: splitting a query text into statements and running
  them one by one against the session's connection, with interception, translation, the choice
  between fetching and executing, and the tracking of generated ids.
\<close>

section \<open>Statements\<close>

fun returns_rows :: "'x statement \<Rightarrow> bool" where
  "returns_rows (Query q) \<longleftrightarrow> True"
| "returns_rows (ShowVariable v) \<longleftrightarrow> True"
| "returns_rows (ShowColumns opts x) \<longleftrightarrow> True"
| "returns_rows (ShowTables opts x) \<longleftrightarrow> True"
| "returns_rows (ShowFunctions x) \<longleftrightarrow> True"
| "returns_rows (ShowCollation x) \<longleftrightarrow> True"
| "returns_rows stmt \<longleftrightarrow> False"

definition script_snippet :: "string \<Rightarrow> string" where
  "script_snippet sql = shorten 200 sql"

definition split_statements :: "'x sqlparser \<Rightarrow> front_dialect \<Rightarrow> string \<Rightarrow> 'x statement list res" where
  "split_statements P front sql =
     (case parse_sql P front sql of
        Inl e \<Rightarrow> Inl (Err (Parse (e @ '' (sql: '' @ script_snippet sql @ '')'')))
      | Inr stmts \<Rightarrow> Inr stmts)"

fun fixed_command :: "'x statement \<Rightarrow> string option" where
  "fixed_command (Insert i) = Some ''INSERT''"
| "fixed_command (Update u) = Some ''UPDATE''"
| "fixed_command (Delete d) = Some ''DELETE''"
| "fixed_command (CreateTable ct) = Some ''CREATE TABLE''"
| "fixed_command (Drop x) = Some ''DROP''"
| "fixed_command (StartTransaction x) = Some ''BEGIN''"
| "fixed_command (Commit x) = Some ''COMMIT''"
| "fixed_command (Rollback x) = Some ''ROLLBACK''"
| "fixed_command (CreateIndex x) = Some ''CREATE INDEX''"
| "fixed_command (SetStmt x) = Some ''SET''"
| "fixed_command (Query q) = Some ''SELECT''"
| "fixed_command stmt = None"

definition statement_command_name :: "runtime \<Rightarrow> 'x statement \<Rightarrow> string \<Rightarrow> string" where
  "statement_command_name R stmt translated_first_word =
     (case fixed_command stmt of
        Some command \<Rightarrow> command
      | None \<Rightarrow>
          (let first = to_uppercase R translated_first_word in if first = [] then ''OK'' else first))"

section \<open>Generated ids\<close>

fun is_insert :: "'x statement \<Rightarrow> bool" where
  "is_insert (Insert i) \<longleftrightarrow> True"
| "is_insert stmt \<longleftrightarrow> False"

text \<open>The id in the answer to \<open>SELECT lastval()\<close>: one row of one big integer.\<close>

fun lastval_id :: "cell list list \<Rightarrow> 64 word option" where
  "lastval_id ([Some (VBigInt n)] # rows) = Some n"
| "lastval_id rows = None"

definition track_insert_id ::
  "'db driver \<Rightarrow> 'db session \<Rightarrow> 'db \<Rightarrow> 'x statement \<Rightarrow> 64 word option \<Rightarrow> 'db session" where
  "track_insert_id D s conn stmt lid =
     (if is_insert stmt then
        (if ss_dialect s = Postgres then
           (case fetch D conn ''SELECT lastval()'' of
              (conn1, Inl f) \<Rightarrow> s\<lparr>ss_conn := Some conn1\<rparr>
            | (conn1, Inr (cols, rows)) \<Rightarrow>
                (case lastval_id rows of
                   Some n \<Rightarrow> set_last_insert_id (s\<lparr>ss_conn := Some conn1\<rparr>) n
                 | None \<Rightarrow> s\<lparr>ss_conn := Some conn1\<rparr>))
         else set_last_insert_id (s\<lparr>ss_conn := Some conn\<rparr>) (case lid of Some n \<Rightarrow> n | None \<Rightarrow> 0))
      else s\<lparr>ss_conn := Some conn\<rparr>)"

section \<open>Running a script\<close>

text \<open>The text sent to the backend.\<close>

definition backend_text :: "'x sqlparser \<Rightarrow> translator \<Rightarrow> 'x statement \<Rightarrow> string res" where
  "backend_text P tr stmt =
     (if front_dialect_matches_target tr then Inr (show_stmt P stmt) else translate_statement P tr stmt)"

text \<open>The body of the loop; \<open>conn_guard.as_mut().unwrap()\<close> panics on a session without connection.\<close>

definition run_statement ::
  "runtime \<Rightarrow> 'db driver \<Rightarrow> 'x sqlparser \<Rightarrow> 'db session \<Rightarrow> 'x statement \<Rightarrow> 'db session \<times> outcome res" where
  "run_statement R D P s stmt =
     (case ss_conn s of
        None \<Rightarrow> (s, Inl Panic)
      | Some conn \<Rightarrow>
          (case intercept_statement R D P s conn stmt of
             (conn1, Inl f) \<Rightarrow> (s\<lparr>ss_conn := Some conn1\<rparr>, Inl f)
           | (conn1, Inr (Some out)) \<Rightarrow> (s\<lparr>ss_conn := Some conn1\<rparr>, Inr out)
           | (conn1, Inr None) \<Rightarrow>
               (case backend_text P (ss_translator s) stmt of
                  Inl f \<Rightarrow> (s\<lparr>ss_conn := Some conn1\<rparr>, Inl f)
                | Inr translated \<Rightarrow>
                    if returns_rows stmt then
                      (case fetch D conn1 translated of
                         (conn2, Inl f) \<Rightarrow> (s\<lparr>ss_conn := Some conn2\<rparr>, Inl f)
                       | (conn2, Inr (cols, rows)) \<Rightarrow> (s\<lparr>ss_conn := Some conn2\<rparr>, Inr (Rows cols rows)))
                    else
                      (case execute D conn1 translated of
                         (conn2, Inl f) \<Rightarrow> (s\<lparr>ss_conn := Some conn2\<rparr>, Inl f)
                       | (conn2, Inr (affected, lid)) \<Rightarrow>
                           (track_insert_id D s conn2 stmt lid,
                            Inr (Affected affected lid
                              (statement_command_name R stmt (hd (split_on CHR '' '' translated)))))))))"

definition run_script ::
  "runtime \<Rightarrow> 'db driver \<Rightarrow> 'x sqlparser \<Rightarrow> 'db session \<Rightarrow> front_dialect \<Rightarrow> string \<Rightarrow> 'db session \<times> outcome list res" where
  "run_script R D P s front sql =
     (case split_statements P front sql of
        Inl f \<Rightarrow> (s, Inl f)
      | Inr stmts \<Rightarrow>
          if stmts = [] then (s, Inr [])
          else (case connection D s of
                  (s1, Inl f) \<Rightarrow> (s1, Inl f)
                | (s1, Inr conn) \<Rightarrow> run_steps (run_statement R D P) s1 stmts))"

section \<open>One statement\<close>

text \<open>
  A session between statements: connected, with the dialects it was created with and a last insert
  id that is not negative.
\<close>

definition session_ok :: "target_dialect \<Rightarrow> translator \<Rightarrow> 'db session \<Rightarrow> bool" where
  "session_ok dialect tr s \<longleftrightarrow>
     ss_dialect s = dialect \<and> ss_translator s = tr \<and> 0 \<le> sint (ss_last_insert_id s)"

definition ready :: "target_dialect \<Rightarrow> translator \<Rightarrow> 'db session \<Rightarrow> bool" where
  "ready dialect tr s \<longleftrightarrow> session_ok dialect tr s \<and> ss_conn s \<noteq> None"

text \<open>The statements a client gets rows for.\<close>

fun gives_rows :: "target_dialect \<Rightarrow> 'x statement \<Rightarrow> bool" where
  "gives_rows dialect (ShowSchemas x) \<longleftrightarrow> dialect \<noteq> Mysql"
| "gives_rows dialect (ShowDatabases x) \<longleftrightarrow> dialect \<noteq> Mysql"
| "gives_rows dialect (ExplainTable t x) \<longleftrightarrow> dialect \<noteq> Mysql"
| "gives_rows dialect (ShowCreate TableObject n) \<longleftrightarrow> dialect \<noteq> Mysql"
| "gives_rows dialect stmt \<longleftrightarrow> returns_rows stmt"

definition outcome_fits :: "target_dialect \<Rightarrow> 'x statement \<Rightarrow> outcome \<Rightarrow> bool" where
  "outcome_fits dialect stmt out \<longleftrightarrow>
     (is_rows out \<longleftrightarrow> gives_rows dialect stmt) \<and>
     (case out of
        Affected n lid command \<Rightarrow> (\<forall>c. fixed_command stmt = Some c \<longrightarrow> command = c)
      | Rows cols rows \<Rightarrow> True)"

lemma track_ok:
  assumes "session_ok dialect tr s"
  shows "ready dialect tr (track_insert_id D s conn stmt lid)"
  using assms
  by (auto simp: track_insert_id_def ready_def session_ok_def set_last_insert_id_def split: prod.splits sum.splits option.splits)

lemma is_rows_intercept:
  assumes "snd (intercept_statement R D P s conn stmt) = Inr (Some out)"
  shows "outcome_fits (ss_dialect s) stmt out"
proof (cases "last_insert_id_outcome P s stmt")
  case (Some o1)
  then obtain q where "stmt = Query q" using last_insert_id_query by blast
  with Some assms show ?thesis
    by (auto simp: intercept_statement_def last_insert_id_outcome_def outcome_fits_def
        split: set_expr.splits list.splits option.splits)
next
  case None
  show ?thesis
  proof (cases stmt)
    case (ShowColumns opts x)
    with None assms show ?thesis
      by (cases "ss_dialect s")
        (auto simp: intercept_statement_def show_columns_def column_listing_def outcome_fits_def text_rows_def Let_def
          split: option.splits prod.splits sum.splits)
  next
    case (ExplainTable t x)
    with None assms show ?thesis
      by (cases "ss_dialect s")
        (auto simp: intercept_statement_def describe_table_def column_listing_def outcome_fits_def text_rows_def Let_def
          split: prod.splits sum.splits)
  next
    case (ShowCreate obj n)
    with None assms show ?thesis
      by (cases "ss_dialect s"; cases obj)
        (auto simp: intercept_statement_def show_create_table_def outcome_fits_def create_table_outcome_def Let_def
          split: prod.splits sum.splits)
  next
    case (ShowTables opts x)
    with None assms show ?thesis
      by (auto simp: intercept_statement_def show_tables_def run_rows_def outcome_fits_def
          split: option.splits prod.splits sum.splits)
  next
    case (ShowSchemas x)
    with None assms show ?thesis
      by (cases "ss_dialect s")
        (auto simp: intercept_statement_def show_databases_def run_rows_def outcome_fits_def split: prod.splits sum.splits)
  next
    case (ShowDatabases x)
    with None assms show ?thesis
      by (cases "ss_dialect s")
        (auto simp: intercept_statement_def show_databases_def run_rows_def outcome_fits_def split: prod.splits sum.splits)
  qed (use None assms in \<open>auto simp: intercept_statement_def outcome_fits_def ok_outcome_def
      show_variable_outcome_def Let_def split: if_splits\<close>)
qed

lemma not_intercepted_rows:
  assumes "snd (intercept_statement R D P s conn stmt) = Inr None"
  shows "gives_rows (ss_dialect s) stmt \<longleftrightarrow> returns_rows stmt"
proof -
  from assms intercept_kinds [of P s stmt R D conn] have k: "\<not> intercepted_kind s stmt"
    by (cases "last_insert_id_outcome P s stmt") (auto simp: intercept_statement_def)
  show ?thesis
  proof (cases stmt)
    case (ShowCreate obj n)
    with k show ?thesis by (cases obj) auto
  qed (use k in auto)
qed

lemma run_statement_cases:
  assumes "ss_conn s = Some conn"
  obtains
    (intercepted) conn1 r where "intercept_statement R D P s conn stmt = (conn1, r)" "r \<noteq> Inr None"
      "run_statement R D P s stmt = (s\<lparr>ss_conn := Some conn1\<rparr>, map_res the r)"
  | (untranslated) conn1 f where "intercept_statement R D P s conn stmt = (conn1, Inr None)"
      "backend_text P (ss_translator s) stmt = Inl f"
      "run_statement R D P s stmt = (s\<lparr>ss_conn := Some conn1\<rparr>, Inl f)"
  | (fetched) conn1 conn2 sent r where "intercept_statement R D P s conn stmt = (conn1, Inr None)"
      "backend_text P (ss_translator s) stmt = Inr sent" "returns_rows stmt" "fetch D conn1 sent = (conn2, r)"
      "run_statement R D P s stmt = (s\<lparr>ss_conn := Some conn2\<rparr>, map_res (\<lambda>(cols, rows). Rows cols rows) r)"
  | (failed) conn1 conn2 sent f where "intercept_statement R D P s conn stmt = (conn1, Inr None)"
      "backend_text P (ss_translator s) stmt = Inr sent" "\<not> returns_rows stmt" "execute D conn1 sent = (conn2, Inl f)"
      "run_statement R D P s stmt = (s\<lparr>ss_conn := Some conn2\<rparr>, Inl f)"
  | (executed) conn1 conn2 sent n lid where "intercept_statement R D P s conn stmt = (conn1, Inr None)"
      "backend_text P (ss_translator s) stmt = Inr sent" "\<not> returns_rows stmt" "execute D conn1 sent = (conn2, Inr (n, lid))"
      "run_statement R D P s stmt = (track_insert_id D s conn2 stmt lid,
         Inr (Affected n lid (statement_command_name R stmt (hd (split_on CHR '' '' sent)))))"
proof (cases "intercept_statement R D P s conn stmt")
  case (Pair conn1 r)
  show ?thesis
  proof (cases "r = Inr None")
    case False
    with Pair assms have "run_statement R D P s stmt = (s\<lparr>ss_conn := Some conn1\<rparr>, map_res the r)"
      by (auto simp: run_statement_def map_res_def split: sum.splits option.splits)
    with Pair False intercepted show ?thesis by blast
  next
    case True
    show ?thesis
    proof (cases "backend_text P (ss_translator s) stmt")
      case (Inl f)
      with Pair True assms untranslated show ?thesis by (simp add: run_statement_def)
    next
      case (Inr sent)
      show ?thesis
      proof (cases "returns_rows stmt")
        case rr: True
        obtain conn2 q where "fetch D conn1 sent = (conn2, q)" by (cases "fetch D conn1 sent")
        with Pair True Inr rr assms fetched show ?thesis
          by (simp add: run_statement_def map_res_def split: sum.splits)
      next
        case rr: False
        obtain conn2 q where "execute D conn1 sent = (conn2, q)" by (cases "execute D conn1 sent")
        with Pair True Inr rr assms failed executed show ?thesis
          by (cases q) (auto simp: run_statement_def)
      qed
    qed
  qed
qed

lemma ready_conn: "ready dialect tr s \<Longrightarrow> ready dialect tr (s\<lparr>ss_conn := Some c\<rparr>)"
  by (simp add: ready_def session_ok_def)

lemma run_statement_ready:
  assumes "ready dialect tr s"
  shows "ready dialect tr (fst (run_statement R D P s stmt))"
proof -
  from assms obtain conn where c: "ss_conn s = Some conn" and ok: "session_ok dialect tr s"
    by (auto simp: ready_def)
  from c show ?thesis
    by (cases rule: run_statement_cases [of s conn R D P stmt]) (simp_all add: ready_conn assms track_ok ok)
qed

lemma run_statement_fits:
  assumes "ready dialect tr s" "snd (run_statement R D P s stmt) = Inr out"
  shows "outcome_fits dialect stmt out"
proof -
  from assms obtain conn where c: "ss_conn s = Some conn" and d: "ss_dialect s = dialect"
    by (auto simp: ready_def session_ok_def)
  from c show ?thesis
  proof (cases rule: run_statement_cases [of s conn R D P stmt])
    case (intercepted conn1 r)
    then have "snd (intercept_statement R D P s conn stmt) = Inr (Some out)"
      using assms(2) by (cases r) auto
    from is_rows_intercept [OF this] d show ?thesis by simp
  next
    case (fetched conn1 conn2 sent r)
    with assms(2) not_intercepted_rows [of R D P s conn stmt] d show ?thesis
      by (auto simp: outcome_fits_def)
  next
    case (executed conn1 conn2 sent n lid)
    with assms(2) not_intercepted_rows [of R D P s conn stmt] d show ?thesis
      by (auto simp: outcome_fits_def statement_command_name_def)
  qed (use assms(2) in auto)
qed

interpretation script: stepper "run_statement R D P" "ready dialect tr" "outcome_fits dialect"
  for R D P dialect tr
  by unfold_locales (rule run_statement_ready, assumption, rule run_statement_fits)

section \<open>Scripts\<close>

lemma run_script_cases:
  obtains
    (unparsed) f where "split_statements P front sql = Inl f" "run_script R D P s front sql = (s, Inl f)"
  | (empty) "split_statements P front sql = Inr []" "run_script R D P s front sql = (s, Inr [])"
  | (unconnected) f where "ss_conn s = None" "acquire_owned D = Inl f" "run_script R D P s front sql = (s, Inl f)"
  | (run) stmts s1 conn where "split_statements P front sql = Inr stmts" "stmts \<noteq> []"
      "connection D s = (s1, Inr conn)" "ss_conn s1 = Some conn"
      "ss_dialect s1 = ss_dialect s" "ss_translator s1 = ss_translator s" "ss_last_insert_id s1 = ss_last_insert_id s"
      "run_script R D P s front sql = run_steps (run_statement R D P) s1 stmts"
proof (cases "split_statements P front sql")
  case (Inl f)
  then show ?thesis using unparsed by (simp add: run_script_def)
next
  case (Inr stmts)
  show ?thesis
  proof (cases "stmts = []")
    case True
    with Inr empty show ?thesis by (simp add: run_script_def)
  next
    case False
    show ?thesis
    proof (cases "ss_conn s")
      case (Some conn)
      with Inr False run [of stmts s conn] show ?thesis by (simp add: run_script_def connection_def)
    next
      case None
      show ?thesis
      proof (cases "acquire_owned D")
        case (Inl f)
        with Inr None False unconnected show ?thesis by (simp add: run_script_def connection_def)
      next
        case a: (Inr conn)
        with Inr None False run [of stmts "s\<lparr>ss_conn := Some conn\<rparr>" conn] show ?thesis
          by (simp add: run_script_def connection_def)
      qed
    qed
  qed
qed

lemma run_script_ok:
  assumes "session_ok dialect tr s"
  shows "session_ok dialect tr (fst (run_script R D P s front sql))"
proof (cases rule: run_script_cases [of P front sql R D s])
  case (run stmts s1 conn)
  then have "ready dialect tr s1" using assms by (simp add: ready_def session_ok_def)
  from script.run_inv [OF this, of R D P stmts] run show ?thesis by (simp add: ready_def)
qed (use assms in auto)

lemma run_script_succeeds:
  assumes "session_ok dialect tr s" "run_script R D P s front sql = (s', Inr outs)"
  shows "session_ok dialect tr s' \<and>
    (\<exists>stmts. split_statements P front sql = Inr stmts \<and> list_all2 (outcome_fits dialect) stmts outs)"
proof -
  have "\<exists>stmts. split_statements P front sql = Inr stmts \<and> list_all2 (outcome_fits dialect) stmts outs"
  proof (cases rule: run_script_cases [of P front sql R D s])
    case (run stmts s1 conn)
    then have "ready dialect tr s1" using assms(1) by (simp add: ready_def session_ok_def)
    moreover have "snd (run_steps (run_statement R D P) s1 stmts) = Inr outs" using run assms(2) by (metis snd_conv)
    ultimately show ?thesis using script.run_fits run(1) by blast
  qed (use assms(2) in auto)
  then show ?thesis using run_script_ok [OF assms(1), of R D P front sql] assms(2) by simp
qed

text \<open>
  C2. A script that succeeds gives exactly one outcome per statement, in order: rows for the statements
  that return rows (for a MySQL backend neither \<open>DESCRIBE\<close> nor \<open>SHOW DATABASES\<close>, \<open>SHOW SCHEMAS\<close>,
  \<open>SHOW CREATE TABLE\<close>), otherwise a count with the statement's own command tag; the session keeps its
  dialects, and its last insert id is never negative.
\<close>

theorem run_script_outcomes:
  assumes "session_ok dialect tr s" "run_script R D P s front sql = (s', Inr outs)"
  shows "session_ok dialect tr s' \<and>
    (\<exists>stmts. split_statements P front sql = Inr stmts \<and> list_all2 (outcome_fits dialect) stmts outs)"
  by (rule run_script_succeeds [OF assms])

definition demo_parser :: "unit statement list \<Rightarrow> unit sqlparser" where
  "demo_parser stmts = (token_parser backtick)\<lparr>parse_sql := \<lambda>f s. Inr stmts\<rparr>"

definition demo_session :: "nat session" where
  "demo_session = new_session Sqlite (new_translator FrontMysql Sqlite)"

lemma demo_session_ok: "session_ok Sqlite (new_translator FrontMysql Sqlite) demo_session"
  by (simp add: session_ok_def demo_session_def new_session_def)

lemma demo_not_matching [simp]: "\<not> front_dialect_matches_target (new_translator FrontMysql Sqlite)"
  by (simp add: new_translator_def)

lemma demo_run:
  "run_script R (sample_driver True) (demo_parser [Use (), SetStmt ()]) demo_session FrontMysql sql =
     (demo_session\<lparr>ss_conn := Some 0\<rparr>, Inr [ok_outcome ''USE'', ok_outcome ''SET''])"
  by (simp add: run_script_def split_statements_def demo_parser_def connection_def demo_session_def new_session_def
      acquire_owned_def sample_driver_def run_statement_def intercept_statement_def last_insert_id_outcome_def)

theorem run_script_outcomes_witness:
  "list_all2 (outcome_fits Sqlite) [Use (), SetStmt ()] [ok_outcome ''USE'', ok_outcome ''SET'']"
  using run_script_outcomes [OF demo_session_ok demo_run [of sample_runtime "''USE d; SET x = 1''"]]
  by (simp add: split_statements_def demo_parser_def)

section \<open>Failures of a script\<close>

lemma split_statements_fails:
  "split_statements P front sql = Inl f \<Longrightarrow>
   \<exists>e m. parse_sql P front sql = Inl e \<and> f = Err (Parse m) \<and> length m \<le> length e + 211"
  using length_shorten [of 200 sql]
  by (auto simp: split_statements_def script_snippet_def split: sum.splits)

text \<open>How a statement can fail, other than by the text that holds it.\<close>

definition statement_fault :: "'x sqlparser \<Rightarrow> translator \<Rightarrow> 'x statement \<Rightarrow> fault \<Rightarrow> bool" where
  "statement_fault P tr stmt f \<longleftrightarrow>
     (\<exists>m. f = Err (Backend m)) \<or>
     \<not> front_dialect_matches_target tr \<and> tr_target tr = Mysql \<and> needs_returning_or stmt \<and> (\<exists>m. f = Err (Unsupported m)) \<or>
     \<not> front_dialect_matches_target tr \<and> prints_lone_quote P (tr_target tr) stmt \<and> f = Panic"

lemma run_statement_fails:
  assumes "ready dialect tr s" "run_statement R D P s stmt = (s', Inl f)"
  shows "statement_fault P tr stmt f"
proof -
  from assms(1) obtain conn where c: "ss_conn s = Some conn" and tr: "ss_translator s = tr"
    by (auto simp: ready_def session_ok_def)
  from c show ?thesis
  proof (cases rule: run_statement_cases [of s conn R D P stmt])
    case (intercepted conn1 r)
    then have r: "snd (intercept_statement R D P s conn stmt) = Inl f" using assms(2) by (cases r) auto
    show ?thesis
    proof (cases "last_insert_id_outcome P s stmt")
      case None
      from intercept_kinds [OF None, of R D conn] r show ?thesis by (auto simp: statement_fault_def)
    next
      case (Some out)
      with r show ?thesis by (simp add: intercept_statement_def)
    qed
  next
    case (untranslated conn1 g)
    with assms(2) tr have "\<not> front_dialect_matches_target tr" "translate_statement P tr stmt = Inl f"
      by (auto simp: backend_text_def split: if_splits)
    with translate_statement_failure [OF this(2)] show ?thesis by (auto simp: statement_fault_def)
  next
    case (fetched conn1 conn2 sent r)
    with assms(2) have "fetch D conn1 sent = (conn2, Inl f)" by (cases r) auto
    from fetch_fails [OF this] show ?thesis by (auto simp: statement_fault_def)
  next
    case (failed conn1 conn2 sent g)
    with assms(2) have "execute D conn1 sent = (conn2, Inl f)" by simp
    from execute_fails [OF this] obtain e where "f = query_error e sent" by blast
    with query_error_short [of e sent] show ?thesis by (auto simp: statement_fault_def)
  qed (use assms(2) in auto)
qed

text \<open>A script's failure, given its statements: no connection, or the failure of its first failing one.\<close>

definition script_failed ::
  "runtime \<Rightarrow> 'db driver \<Rightarrow> 'x sqlparser \<Rightarrow> target_dialect \<Rightarrow> translator \<Rightarrow> 'db session \<Rightarrow> 'x statement list \<Rightarrow>
   'db session \<Rightarrow> fault \<Rightarrow> bool" where
  "script_failed R D P dialect tr s stmts s' f \<longleftrightarrow>
     s' = s \<and> ss_conn s = None \<and> (\<exists>m. f = Err (Backend m)) \<or>
     (\<exists>done stmt rest s0 s1 outs. stmts = done @ stmt # rest \<and> connection D s = (s0, Inr (the (ss_conn s0))) \<and>
        run_steps (run_statement R D P) s0 done = (s1, Inr outs) \<and> list_all2 (outcome_fits dialect) done outs \<and>
        run_statement R D P s1 stmt = (s', Inl f) \<and> statement_fault P tr stmt f)"

lemma run_script_fails:
  assumes "session_ok dialect tr s" "run_script R D P s front sql = (s', Inl f)"
  shows "session_ok dialect tr s' \<and>
    (case split_statements P front sql of
       Inl g \<Rightarrow> s' = s \<and> (\<exists>e m. parse_sql P front sql = Inl e \<and> f = Err (Parse m) \<and> length m \<le> length e + 211)
     | Inr stmts \<Rightarrow> script_failed R D P dialect tr s stmts s' f)"
proof (cases rule: run_script_cases [of P front sql R D s])
  case (unparsed g)
  with assms split_statements_fails [of P front sql g] show ?thesis by auto
next
  case (empty)
  with assms show ?thesis by auto
next
  case (unconnected g)
  then have g: "g = f" "s' = s" "\<exists>m. g = Err (Backend m)"
    using assms(2) by (auto simp: acquire_owned_def split: sum.splits)
  show ?thesis
  proof (cases "split_statements P front sql")
    case (Inl h)
    then have "run_script R D P s front sql = (s, Inl h)" by (simp add: run_script_def)
    with Inl assms g split_statements_fails [of P front sql h] show ?thesis by auto
  next
    case (Inr stmts)
    with assms g unconnected show ?thesis by (auto simp: script_failed_def)
  qed
next
  case (run stmts s0 conn)
  then have r: "ready dialect tr s0" using assms(1) by (simp add: ready_def session_ok_def)
  have rs: "run_steps (run_statement R D P) s0 stmts = (s', Inl f)" using run assms(2) by simp
  then have "snd (run_steps (run_statement R D P) s0 stmts) = Inl f" by simp
  from script.run_fits [OF r] script.run_fails [OF r this] obtain "done" stmt rest s1 outs where
    st: "stmts = done @ stmt # rest" "run_steps (run_statement R D P) s0 done = (s1, Inr outs)" "ready dialect tr s1"
      "run_statement R D P s1 stmt = (s', Inl f)" "list_all2 (outcome_fits dialect) done outs"
    unfolding rs fst_conv by blast
  note fault = run_statement_fails [OF st(3,4)]
  have "session_ok dialect tr s'"
    using run_script_ok [OF assms(1), of R D P front sql] assms(2) by simp
  moreover have "connection D s = (s0, Inr (the (ss_conn s0)))" using run(3,4) by simp
  ultimately have "script_failed R D P dialect tr s stmts s' f"
    using st fault unfolding script_failed_def by blast
  with \<open>session_ok dialect tr s'\<close> run(1) show ?thesis by simp
qed

lemma script_failed_cases:
  assumes "script_failed R D P dialect tr s stmts s' f"
  obtains (backend) m where "f = Err (Backend m)"
    | (unsupported) m where "f = Err (Unsupported m)" "tr_target tr = Mysql"
    | (panic) stmt where "f = Panic" "stmt \<in> set stmts" "prints_lone_quote P (tr_target tr) stmt"
proof -
  consider (connection) m where "f = Err (Backend m)" | (statement) stmt where "stmt \<in> set stmts" "statement_fault P tr stmt f"
    using assms unfolding script_failed_def by force
  then show ?thesis
  proof cases
    case connection
    then show ?thesis by (rule backend)
  next
    case statement
    with that show ?thesis unfolding statement_fault_def by blast
  qed
qed

text \<open>
  C7. A script fails at a definite statement and in a definite way. A text that does not parse fails with a
  parse error quoting at most 200 characters of it, and nothing ran. When it parsed, either no connection
  could be acquired and nothing ran, or there is a first failing statement: those before it ran to their
  outcomes in order, those after it did not run, and it failed with a backend error, or, where the dialects
  differ, as an unsupported \<open>INSERT\<close> for a MySQL target or with the panic of the quoting pass, which needs a
  printed form ending in a lone opening quote. The session is well-formed in every case.
\<close>

theorem run_script_failures:
  assumes "session_ok dialect tr s" "run_script R D P s front sql = (s', Inl f)"
  shows "session_ok dialect tr s' \<and>
    (case split_statements P front sql of
       Inl g \<Rightarrow> s' = s \<and> (\<exists>e m. parse_sql P front sql = Inl e \<and> f = Err (Parse m) \<and> length m \<le> length e + 211)
     | Inr stmts \<Rightarrow>
         s' = s \<and> ss_conn s = None \<and> (\<exists>m. f = Err (Backend m)) \<or>
         (\<exists>done stmt rest s0 s1 outs. stmts = done @ stmt # rest \<and> connection D s = (s0, Inr (the (ss_conn s0))) \<and>
            run_steps (run_statement R D P) s0 done = (s1, Inr outs) \<and> list_all2 (outcome_fits dialect) done outs \<and>
            run_statement R D P s1 stmt = (s', Inl f) \<and> statement_fault P tr stmt f))"
  using run_script_fails [OF assms] by (simp only: script_failed_def)

definition locked_driver :: "nat driver" where
  "locked_driver = (sample_driver False)\<lparr>dv_execute := \<lambda>c s. (c, Inl ''locked'')\<rparr>"

definition pg_session :: "nat session" where
  "pg_session = new_session Postgres (new_translator FrontPostgres Postgres)"

lemma pg_session_ok: "session_ok Postgres (new_translator FrontPostgres Postgres) pg_session"
  by (simp add: session_ok_def pg_session_def new_session_def)

lemma locked_run:
  "run_script R locked_driver (demo_parser [Use (), Drop ()]) pg_session FrontPostgres sql =
     (pg_session\<lparr>ss_conn := Some 0\<rparr>, Inl (query_error ''locked'' ''OTHER''))"
  by (simp add: run_script_def split_statements_def demo_parser_def token_parser_def connection_def pg_session_def
      new_session_def acquire_owned_def locked_driver_def sample_driver_def run_statement_def intercept_statement_def
      last_insert_id_outcome_def backend_text_def front_dialect_matches_target_def new_translator_def execute_def)

theorem run_script_failures_witness:
  "\<exists>done stmt rest. [Use (), Drop ()] = done @ stmt # rest \<and>
     statement_fault (demo_parser [Use (), Drop ()]) (new_translator FrontPostgres Postgres) stmt (query_error ''locked'' ''OTHER'')"
proof -
  from run_script_failures [OF pg_session_ok locked_run [of sample_runtime "''USE d; DROP TABLE t''"]]
  show ?thesis by (auto simp: split_statements_def demo_parser_def pg_session_def new_session_def)
qed

section \<open>Generated ids across statements\<close>

text \<open>The sessions a connection can be in: new, or after any number of scripts, failed ones included.\<close>

inductive reachable ::
  "runtime \<Rightarrow> 'db driver \<Rightarrow> 'x sqlparser \<Rightarrow> front_dialect \<Rightarrow> target_dialect \<Rightarrow> translator \<Rightarrow> 'db session \<Rightarrow> bool"
  for R D P front dialect tr
where
  created: "reachable R D P front dialect tr (new_session dialect tr)"
| script: "reachable R D P front dialect tr s \<Longrightarrow>
    reachable R D P front dialect tr (fst (run_script R D P s front sql))"

lemma reachable_ok: "reachable R D P front dialect tr s \<Longrightarrow> session_ok dialect tr s"
proof (induction rule: reachable.induct)
  case created
  show ?case by (simp add: session_ok_def new_session_def)
next
  case (script s sql)
  show ?case by (rule run_script_ok) (rule script.IH)
qed

lemma run_steps_two:
  assumes "run_steps step s [c, d] = (s2, Inr [o1, o2])"
  shows "\<exists>s1. step s c = (s1, Inr o1) \<and> step s1 d = (s2, Inr o2)"
  using assms by (auto split: prod.splits sum.splits)

lemma insert_tracks:
  assumes "ss_conn s = Some conn" "ss_dialect s \<noteq> Postgres" "0 < sint v"
    "run_statement R D P s (Insert ins) = (s1, Inr (Affected n (Some v) command))"
  shows "get_last_insert_id s1 = v \<and> ss_conn s1 \<noteq> None"
  using assms(1)
proof (cases rule: run_statement_cases [of s conn R D P "Insert ins"])
  case (intercepted conn1 r)
  then have "r = Inr None" by (simp add: intercept_statement_def last_insert_id_outcome_def)
  with intercepted show ?thesis by simp
next
  case (executed conn1 conn2 sent k lid)
  with assms(2-4) show ?thesis
    by (auto simp: track_insert_id_def set_last_insert_id_def get_last_insert_id_def)
qed (use assms(4) in auto)

lemma last_insert_id_answer:
  assumes "ss_conn s \<noteq> None" "last_insert_id_outcome P s0 stmt \<noteq> None"
  shows "\<exists>name. snd (run_statement R D P s stmt) =
    Inr (Rows [\<lparr>fm_name = name, fm_kind = KBigInt\<rparr>] [[Some (VBigInt (get_last_insert_id s))]])"
proof -
  from assms(2) obtain name where "last_insert_id_outcome P s stmt =
      Some (Rows [\<lparr>fm_name = name, fm_kind = KBigInt\<rparr>] [[Some (VBigInt (get_last_insert_id s))]])"
    by (auto simp: last_insert_id_outcome_def split: statement.splits set_expr.splits list.splits option.splits)
  with assms(1) show ?thesis by (auto simp: run_statement_def intercept_statement_def)
qed

text \<open>
  C22. \<open>LAST_INSERT_ID()\<close> sees the insert before it: in a script of an \<open>INSERT\<close> followed by a
  \<open>SELECT LAST_INSERT_ID()\<close>, on any reachable session of a SQLite or MySQL backend, when the insert
  reports a positive generated id, the query's answer is one row of one big integer, that id.
\<close>

theorem last_insert_id_after_insert:
  assumes "reachable R D P front dialect tr s" "dialect \<noteq> Postgres"
    "parse_sql P front sql = Inr [Insert ins, stmt]" "last_insert_id_outcome P s stmt \<noteq> None"
    "run_script R D P s front sql = (s', Inr [Affected n (Some v) command, out])" "0 < sint v"
  shows "\<exists>name. out = Rows [\<lparr>fm_name = name, fm_kind = KBigInt\<rparr>] [[Some (VBigInt v)]]"
proof (cases rule: run_script_cases [of P front sql R D s])
  case (run stmts s0 conn)
  then have "stmts = [Insert ins, stmt]" using assms(3) by (simp add: split_statements_def)
  with run assms(5) obtain s1 where
    one: "run_statement R D P s0 (Insert ins) = (s1, Inr (Affected n (Some v) command))" and
    two: "run_statement R D P s1 stmt = (s', Inr out)"
    using run_steps_two [of "run_statement R D P" s0 "Insert ins" stmt s' "Affected n (Some v) command" out] by auto
  have "ss_dialect s0 \<noteq> Postgres"
    using reachable_ok [OF assms(1)] assms(2) run by (simp add: session_ok_def)
  from insert_tracks [OF run(4) this assms(6) one] have "get_last_insert_id s1 = v" "ss_conn s1 \<noteq> None" by simp_all
  with last_insert_id_answer [OF _ assms(4), of s1 R D] two show ?thesis by auto
qed (use assms(3,5) in \<open>auto simp: split_statements_def\<close>)

definition last_id_query :: "unit statement" where
  "last_id_query = Query \<lparr>q_body = Select \<lparr>sel_projection = [UnnamedExpr (fn_call ''LAST_INSERT_ID'' [])],
     sel_from = [], sel_selection = None, sel_rest = ()\<rparr>, q_limit_clause = None, q_rest = ()\<rparr>"

definition my_session :: "nat session" where
  "my_session = new_session Mysql (new_translator FrontMysql Mysql)"

lemma last_id_query_recognised:
  "last_insert_id_outcome (demo_parser stmts) s last_id_query =
     Some (Rows [\<lparr>fm_name = ''LAST_INSERT_ID()'', fm_kind = KBigInt\<rparr>] [[Some (VBigInt (get_last_insert_id s))]])"
proof -
  have "show_name (demo_parser stmts) (object_name_from (ident_new ''LAST_INSERT_ID'')) = ''LAST_INSERT_ID''"
    by (simp add: demo_parser_def token_parser_def sample_parser_def object_name_from_def ident_new_def)
  moreover have "to_ascii_lowercase ''LAST_INSERT_ID'' = ''last_insert_id''"
    by code_simp
  ultimately show ?thesis by (simp add: last_insert_id_outcome_def last_id_query_def fn_call_def)
qed

lemma last_id_run:
  "run_script R (sample_driver False) (demo_parser [last_id_query]) my_session FrontMysql sql =
     (my_session\<lparr>ss_conn := Some 0\<rparr>, Inr [Rows [\<lparr>fm_name = ''LAST_INSERT_ID()'', fm_kind = KBigInt\<rparr>] [[Some (VBigInt 0)]]])"
proof -
  have "run_statement R (sample_driver False) (demo_parser [last_id_query]) (my_session\<lparr>ss_conn := Some 0\<rparr>) last_id_query =
      (my_session\<lparr>ss_conn := Some 0\<rparr>, Inr (Rows [\<lparr>fm_name = ''LAST_INSERT_ID()'', fm_kind = KBigInt\<rparr>] [[Some (VBigInt 0)]]))"
    by (simp add: run_statement_def intercept_statement_def last_id_query_recognised get_last_insert_id_def my_session_def new_session_def)
  then show ?thesis
    by (simp add: run_script_def split_statements_def demo_parser_def connection_def my_session_def new_session_def
      acquire_owned_def sample_driver_def)
qed

lemma insert_run:
  "run_script R (sample_driver False) (demo_parser [Insert sample_insert, last_id_query]) my_session FrontMysql sql =
     (my_session\<lparr>ss_conn := Some 1, ss_last_insert_id := 7\<rparr>,
      Inr [Affected 1 (Some 7) ''INSERT'', Rows [\<lparr>fm_name = ''LAST_INSERT_ID()'', fm_kind = KBigInt\<rparr>] [[Some (VBigInt 7)]]])"
proof -
  let ?P = "demo_parser [Insert sample_insert, last_id_query]"
  let ?s = "my_session\<lparr>ss_conn := Some 0\<rparr>" and ?s1 = "my_session\<lparr>ss_conn := Some 1, ss_last_insert_id := 7\<rparr>"
  have "execute (sample_driver False) 0 sent = (1, Inr (1, Some 7))" for sent
    by (simp add: execute_def from_conn_def sample_driver_def)
  then have "run_statement R (sample_driver False) ?P ?s (Insert sample_insert) = (?s1, Inr (Affected 1 (Some 7) ''INSERT''))"
    by (simp add: run_statement_def intercept_statement_def last_insert_id_outcome_def my_session_def new_session_def
        backend_text_def front_dialect_matches_target_def new_translator_def track_insert_id_def set_last_insert_id_def
        statement_command_name_def)
  moreover have "run_statement R (sample_driver False) ?P ?s1 last_id_query =
      (?s1, Inr (Rows [\<lparr>fm_name = ''LAST_INSERT_ID()'', fm_kind = KBigInt\<rparr>] [[Some (VBigInt 7)]]))"
    by (simp add: run_statement_def intercept_statement_def last_id_query_recognised get_last_insert_id_def)
  moreover have "connection (sample_driver False) my_session = (?s, Inr 0)"
    by (simp add: connection_def my_session_def new_session_def acquire_owned_def sample_driver_def)
  moreover have "split_statements ?P FrontMysql sql = Inr [Insert sample_insert, last_id_query]"
    by (simp add: split_statements_def demo_parser_def)
  ultimately show ?thesis by (simp add: run_script_def)
qed

theorem last_insert_id_after_insert_witness:
  "\<exists>s' out. run_script sample_runtime (sample_driver False) (demo_parser [Insert sample_insert, last_id_query]) my_session
       FrontMysql ''INSERT ...; SELECT LAST_INSERT_ID()'' = (s', Inr [Affected 1 (Some 7) ''INSERT'', out]) \<and>
     (\<exists>name. out = Rows [\<lparr>fm_name = name, fm_kind = KBigInt\<rparr>] [[Some (VBigInt 7)]])"
proof -
  let ?P = "demo_parser [Insert sample_insert, last_id_query]"
  have r: "reachable sample_runtime (sample_driver False) ?P FrontMysql Mysql (new_translator FrontMysql Mysql) my_session"
    unfolding my_session_def by (rule reachable.created)
  have p: "parse_sql ?P FrontMysql ''INSERT ...; SELECT LAST_INSERT_ID()'' = Inr [Insert sample_insert, last_id_query]"
    by (simp add: demo_parser_def)
  have l: "last_insert_id_outcome ?P my_session last_id_query \<noteq> None" by (simp add: last_id_query_recognised)
  have "Mysql \<noteq> Postgres" "0 < sint (7 :: 64 word)" by simp_all
  from last_insert_id_after_insert [OF r this(1) p l insert_run this(2)] insert_run
  show ?thesis by blast
qed

end
