(* ===== verification/Mysql_Server.thy ===== *)
theory Mysql_Server
  imports Run_Script
begin

text \<open>
  \<open>src/server/mysql.rs\<close>: the MySQL front end. The wire protocol itself is the vendored server crate,
  which calls \<open>handle_query\<close> and sends the result set it returns; the parts of that crate the handler
  builds (\<open>ResultSet\<close>, \<open>Column\<close>, \<open>ColumnType\<close>, \<open>MysqlError\<close>) are here too.
\<close>

section \<open>Result sets\<close>

datatype column_type =
    Decimal | Tiny | Short | Long | Float | Double | TypeNull | Timestamp | LongLong | Int24 | Date | Time
  | DateTime | Year | VarChar | Bit | Json | Blob | VarString | TypeString

record column =
  cl_name :: string
  cl_type :: column_type

record result_set =
  rs_columns :: "column list"
  rs_rows :: "string option list list"
  rs_last_insert_id :: "64 word option"

definition column_new :: "string \<Rightarrow> column_type \<Rightarrow> column" where
  "column_new n t = \<lparr>cl_name = n, cl_type = t\<rparr>"

definition result_set_empty :: result_set where
  "result_set_empty = \<lparr>rs_columns = [], rs_rows = [], rs_last_insert_id = None\<rparr>"

definition result_set_new :: "column list \<Rightarrow> result_set" where
  "result_set_new cols = \<lparr>rs_columns = cols, rs_rows = [], rs_last_insert_id = None\<rparr>"

definition with_last_insert_id :: "result_set \<Rightarrow> 64 word \<Rightarrow> result_set" where
  "with_last_insert_id rs n = rs\<lparr>rs_last_insert_id := Some n\<rparr>"

definition add_row :: "result_set \<Rightarrow> string option list \<Rightarrow> result_set" where
  "add_row rs row = rs\<lparr>rs_rows := rs_rows rs @ [row]\<rparr>"

definition result_set_is_empty :: "result_set \<Rightarrow> bool" where
  "result_set_is_empty rs \<longleftrightarrow> rs_columns rs = []"

section \<open>Errors\<close>

text \<open>\<open>MysqlError::Server\<close>: code, SQL state, message.\<close>

record mysql_error =
  me_code :: nat
  me_state :: string
  me_message :: string

fun to_mysql_err :: "error \<Rightarrow> mysql_error" where
  "to_mysql_err (Parse m) = \<lparr>me_code = 1064, me_state = ''42000'', me_message = display_error (Parse m)\<rparr>"
| "to_mysql_err (Translate m) = \<lparr>me_code = 1064, me_state = ''42000'', me_message = display_error (Translate m)\<rparr>"
| "to_mysql_err (Unsupported m) = \<lparr>me_code = 1235, me_state = ''42000'', me_message = display_error (Unsupported m)\<rparr>"
| "to_mysql_err e = \<lparr>me_code = 1105, me_state = ''HY000'', me_message = display_error e\<rparr>"

section \<open>The handler\<close>

record my_handler =
  mh_dialect :: target_dialect
  mh_translator :: translator
  mh_username :: "string option"
  mh_password :: "string option"

definition my_handler_new :: "target_dialect \<Rightarrow> front_dialect \<Rightarrow> string option \<Rightarrow> string option \<Rightarrow> my_handler" where
  "my_handler_new dialect front username password =
     \<lparr>mh_dialect = dialect, mh_translator = new_translator front dialect,
      mh_username = username, mh_password = password\<rparr>"

text \<open>The identity provider \<open>serve\<close> installs: the one user with a password, or none (every login accepted).\<close>

definition my_identity :: "my_handler \<Rightarrow> (string \<times> string) option" where
  "my_identity h =
     (case mh_username h of
        Some name \<Rightarrow> Some (name, case mh_password h of Some p \<Rightarrow> p | None \<Rightarrow> [])
      | None \<Rightarrow> None)"

definition create_session :: "my_handler \<Rightarrow> 'db session" where
  "create_session h = new_session (mh_dialect h) (mh_translator h)"

definition mysql_column_type :: "field_meta \<Rightarrow> column_type" where
  "mysql_column_type meta =
     (let code = kind_to_mysql_type (fm_kind meta) in
      if code = 1 then Tiny
      else if code = 2 then Short
      else if code = 3 then Long
      else if code = 4 then Float
      else if code = 5 then Double
      else if code = 6 then TypeNull
      else if code = 8 then LongLong
      else if code = 9 then Int24
      else if code = 252 then Blob
      else if code = 253 then VarString
      else if code = 254 then TypeString
      else VarString)"

definition mysql_cell :: "runtime \<Rightarrow> cell \<Rightarrow> string option" where
  "mysql_cell R c = (case c of None \<Rightarrow> None | Some v \<Rightarrow> as_mysql_text R v)"

text \<open>\<open>last_insert_id.unwrap_or(0).max(0) as u64\<close>.\<close>

definition reported_id :: "64 word option \<Rightarrow> 64 word" where
  "reported_id lid =
     (let n = (case lid of Some n \<Rightarrow> n | None \<Rightarrow> 0) in if sint n < 0 then 0 else n)"

fun mysql_result :: "runtime \<Rightarrow> outcome \<Rightarrow> result_set" where
  "mysql_result R (Rows cols rows) =
     foldl (\<lambda>rs row. add_row rs (map (mysql_cell R) row))
       (result_set_new (map (\<lambda>f. column_new (fm_name f) (mysql_column_type f)) cols)) rows"
| "mysql_result R (Affected n lid command) = with_last_insert_id result_set_empty (reported_id lid)"

definition first_outcome :: "outcome list \<Rightarrow> outcome" where
  "first_outcome outcomes = (case outcomes of out # _ \<Rightarrow> out | [] \<Rightarrow> Affected 0 None ''OK'')"

text \<open>\<open>handle_query\<close>: the session afterwards, and the result set, the error sent, or a panic (\<open>None\<close>).\<close>

definition my_handle_query ::
  "runtime \<Rightarrow> 'db driver \<Rightarrow> 'x sqlparser \<Rightarrow> 'db session \<Rightarrow> string \<Rightarrow> 'db session \<times> (mysql_error option + result_set)" where
  "my_handle_query R D P s query =
     (case run_script R D P s FrontMysql query of
        (s1, Inl (Err e)) \<Rightarrow> (s1, Inl (Some (to_mysql_err e)))
      | (s1, Inl Panic) \<Rightarrow> (s1, Inl None)
      | (s1, Inr outcomes) \<Rightarrow> (s1, Inr (mysql_result R (first_outcome outcomes))))"

section \<open>Results\<close>

lemma mysql_result_rows:
  "rs_rows (mysql_result R (Rows cols rows)) = map (map (mysql_cell R)) rows"
  "map cl_name (rs_columns (mysql_result R (Rows cols rows))) = map fm_name cols"
  "rs_last_insert_id (mysql_result R (Rows cols rows)) = None"
proof -
  have "foldl (\<lambda>rs row. add_row rs (map (mysql_cell R) row)) rs rows =
      rs\<lparr>rs_rows := rs_rows rs @ map (map (mysql_cell R)) rows\<rparr>" for rs
    by (induction rows arbitrary: rs) (simp_all add: add_row_def)
  then show "rs_rows (mysql_result R (Rows cols rows)) = map (map (mysql_cell R)) rows"
    "map cl_name (rs_columns (mysql_result R (Rows cols rows))) = map fm_name cols"
    "rs_last_insert_id (mysql_result R (Rows cols rows)) = None"
    by (simp_all add: result_set_new_def column_new_def comp_def)
qed

lemma mysql_cell_null: "mysql_cell R c = None \<longleftrightarrow> c = None \<or> c = Some VNull"
  by (cases c rule: value_kind.cases) (simp_all add: mysql_cell_def)

lemma reported_id_value: "unat (reported_id lid) = (case lid of Some n \<Rightarrow> if 0 < sint n then unat n else 0 | None \<Rightarrow> 0)"
  by (auto simp: reported_id_def Let_def signed_eq_0_iff not_less split: option.splits dest: order_antisym)

text \<open>
  What a MySQL client is sent for a query the script ran: the first statement's outcome and no
  other. For rows, the columns under their names and every row in order, each cell the value's text
  and NULL exactly where the backend had none; a query without rows loses its columns too and becomes
  the empty result set of a statement. For a statement, an empty result set with the generated id when
  it is positive and 0 otherwise, the number of affected rows being dropped.
\<close>

theorem my_query_result:
  assumes "run_script R D P s FrontMysql query = (s', Inr outcomes)"
  shows "\<exists>rs. my_handle_query R D P s query = (s', Inr rs) \<and>
    (case first_outcome outcomes of
       Rows cols rows \<Rightarrow>
         map cl_name (rs_columns rs) = map fm_name cols \<and> rs_rows rs = map (map (mysql_cell R)) rows \<and>
         (\<forall>i j. i < length rows \<longrightarrow> j < length (rows ! i) \<longrightarrow>
            (rs_rows rs ! i ! j = None \<longleftrightarrow> rows ! i ! j \<in> {None, Some VNull})) \<and>
         rs_last_insert_id rs = None \<and> (cols = [] \<longrightarrow> result_set_is_empty rs)
     | Affected n lid command \<Rightarrow>
         result_set_is_empty rs \<and> rs_rows rs = [] \<and>
         map_option unat (rs_last_insert_id rs) = Some (case lid of Some k \<Rightarrow> if 0 < sint k then unat k else 0 | None \<Rightarrow> 0))"
proof -
  have q: "my_handle_query R D P s query = (s', Inr (mysql_result R (first_outcome outcomes)))"
    using assms by (simp add: my_handle_query_def)
  show ?thesis
  proof (cases "first_outcome outcomes")
    case (Rows cols rows)
    have "map fm_name cols = [] \<Longrightarrow> rs_columns (mysql_result R (Rows cols rows)) = []"
      using mysql_result_rows(2) [of R cols rows] by (metis list.map_disc_iff)
    then show ?thesis
      using q Rows mysql_result_rows [of R cols rows] mysql_cell_null
      by (auto simp: result_set_is_empty_def simp del: mysql_result.simps)
  next
    case (Affected n lid command)
    then show ?thesis
      using q by (simp add: result_set_is_empty_def with_last_insert_id_def result_set_empty_def reported_id_value)
  qed
qed

theorem my_query_result_witness:
  "\<exists>rs. snd (my_handle_query sample_runtime (sample_driver False) (demo_parser [Insert sample_insert, last_id_query])
       my_session ''INSERT ...'') = Inr rs \<and> map_option unat (rs_last_insert_id rs) = Some 7"
  using my_query_result [OF insert_run [of sample_runtime "''INSERT ...''"]]
  by (auto simp: first_outcome_def)

text \<open>
  What a MySQL client is sent for a query that fails: a server error with a five-character SQL state,
  namely 1064 for a text that does not parse, 1235 for a statement a MySQL target cannot be given, and
  1105 for every backend failure; or, for a statement whose translation the quoting pass panics on,
  nothing, as the task ends.
\<close>

theorem my_query_errors:
  assumes "session_ok dialect tr s" "snd (my_handle_query R D P s query) = Inl e"
  shows "case split_statements P FrontMysql query of
       Inl f \<Rightarrow> \<exists>err. e = Some err \<and> length (me_state err) = 5 \<and> me_code err = 1064
     | Inr stmts \<Rightarrow>
         (\<exists>err. e = Some err \<and> length (me_state err) = 5 \<and> (me_code err = 1105 \<or> tr_target tr = Mysql \<and> me_code err = 1235)) \<or>
         e = None \<and> (\<exists>stmt \<in> set stmts. prints_lone_quote P (tr_target tr) stmt)"
proof -
  obtain s' r where rn: "run_script R D P s FrontMysql query = (s', r)"
    by (cases "run_script R D P s FrontMysql query")
  then obtain f where r: "r = Inl f"
    using assms(2) by (cases r) (simp_all add: my_handle_query_def)
  note fl = run_script_fails [OF assms(1) rn [unfolded r]]
  show ?thesis
  proof (cases "split_statements P FrontMysql query")
    case (Inl g)
    with fl obtain m where "f = Err (Parse m)" by auto
    with assms(2) rn r Inl show ?thesis by (auto simp: my_handle_query_def)
  next
    case (Inr stmts)
    with fl have "script_failed R D P dialect tr s stmts s' f" by simp
    then show ?thesis
    proof (cases rule: script_failed_cases)
      case backend
      with assms(2) rn r Inr show ?thesis by (auto simp: my_handle_query_def)
    next
      case unsupported
      with assms(2) rn r Inr show ?thesis by (auto simp: my_handle_query_def)
    next
      case panic
      with assms(2) rn r Inr show ?thesis by (auto simp: my_handle_query_def)
    qed
  qed
qed

theorem my_query_errors_witness:
  "\<exists>err. snd (my_handle_query sample_runtime locked_driver (demo_parser [Use (), Drop ()]) my_session ''DROP TABLE t'') =
     Inl (Some err) \<and> length (me_state err) = 5"
proof -
  have ok: "session_ok Mysql (new_translator FrontMysql Mysql) my_session"
    by (simp add: session_ok_def my_session_def new_session_def)
  have "snd (my_handle_query sample_runtime locked_driver (demo_parser [Use (), Drop ()]) my_session ''DROP TABLE t'') =
      Inl (Some (to_mysql_err (Backend (''locked (sql: '' @ sql_snippet ''OTHER'' @ '')''))))"
    by (simp add: my_handle_query_def run_script_def split_statements_def demo_parser_def token_parser_def connection_def
      my_session_def new_session_def acquire_owned_def locked_driver_def sample_driver_def run_statement_def
      intercept_statement_def last_insert_id_outcome_def backend_text_def front_dialect_matches_target_def
      new_translator_def execute_def query_error_def)
  from my_query_errors [OF ok this] this show ?thesis by auto
qed

end
