(* ===== verification/Mysql_Wire.thy ===== *)
theory Mysql_Wire
  imports Mysql_Server
begin

text \<open>
  The byte formats of the MySQL protocol, from the vendored crate the MySQL front end runs on:
  length-encoded integers and strings (\<open>protocol/mod.rs\<close>), packets (\<open>protocol/packet.rs\<close>), rows and
  column definitions (\<open>result_set.rs\<close>), errors (\<open>error.rs\<close>), and the sending of a result set
  (\<open>connection.rs\<close>). A stream is the list of its remaining bytes.
\<close>

section \<open>Errors\<close>

datatype mysql_failure =
    MIo string
  | MProtocol string
  | MAuth string
  | MSqlParse string
  | MServer mysql_error
  | MInternal string

text \<open>An \<open>Err\<close>, or a panic.\<close>

datatype mysql_fault = Fails mysql_failure | Panics

type_synonym 'a mres = "mysql_fault + 'a"

fun error_code :: "mysql_failure \<Rightarrow> nat" where
  "error_code (MServer e) = me_code e"
| "error_code (MAuth m) = 1045"
| "error_code (MSqlParse m) = 1064"
| "error_code f = 1105"

fun sql_state :: "mysql_failure \<Rightarrow> string" where
  "sql_state (MServer e) = me_state e"
| "sql_state (MAuth m) = ''28000''"
| "sql_state (MSqlParse m) = ''42000''"
| "sql_state f = ''HY000''"

fun error_message :: "mysql_failure \<Rightarrow> string" where
  "error_message (MServer e) = me_message e"
| "error_message (MIo m) = ''I/O error: '' @ m"
| "error_message (MProtocol m) = ''Protocol error: '' @ m"
| "error_message (MAuth m) = ''Authentication failed: '' @ m"
| "error_message (MSqlParse m) = ''SQL parse error: '' @ m"
| "error_message (MInternal m) = ''Internal error: '' @ m"

section \<open>Bytes\<close>

type_synonym bytes = "8 word list"

text \<open>\<open>to_le_bytes\<close> and \<open>from_le_bytes\<close> of a number of \<open>k\<close> bytes.\<close>

fun le_bytes :: "nat \<Rightarrow> nat \<Rightarrow> bytes" where
  "le_bytes 0 n = []"
| "le_bytes (Suc k) n = of_nat n # le_bytes k (n div 256)"

fun of_le :: "bytes \<Rightarrow> nat" where
  "of_le [] = 0"
| "of_le (b # bs) = unat b + 256 * of_le bs"

lemma length_le_bytes [simp]: "length (le_bytes k n) = k"
  by (induction k arbitrary: n) simp_all

lemma of_le_le_bytes: "of_le (le_bytes k n) = n mod 256 ^ k"
proof (induction k arbitrary: n)
  case (Suc k)
  have "unat (of_nat n :: 8 word) = n mod 256" by (simp add: unat_of_nat)
  with Suc show ?case by (simp add: mod_mult2_eq)
qed simp

lemma of_le_bytes_small: "n < 256 ^ k \<Longrightarrow> of_le (le_bytes k n) = n"
  by (simp add: of_le_le_bytes)

lemma of_le_less: "of_le bs < 256 ^ length bs"
proof (induction bs)
  case (Cons b bs)
  have "unat b < 256" by (rule byte_less)
  with Cons show ?case by simp
qed simp

text \<open>\<open>String::as_bytes\<close> for the characters of the model, code points below 256.\<close>

definition utf8_char :: "char \<Rightarrow> bytes" where
  "utf8_char c =
     (let n = (code_of c :: nat) in if n < 128 then [of_nat n] else [of_nat (192 + n div 64), of_nat (128 + n mod 64)])"

definition utf8 :: "string \<Rightarrow> bytes" where
  "utf8 s = concat (map utf8_char s)"

section \<open>Codecs\<close>

text \<open>
  What the readers of a stream rely on: a reader takes what a writer wrote off the front of the stream
  and leaves the rest. Then a sequence of values reads back too, and what was written determines the values.
\<close>

fun read_many :: "(bytes \<Rightarrow> ('a \<times> bytes) option) \<Rightarrow> nat \<Rightarrow> bytes \<Rightarrow> ('a list \<times> bytes) option" where
  "read_many read_one 0 buf = Some ([], buf)"
| "read_many read_one (Suc n) buf =
     (case read_one buf of
        None \<Rightarrow> None
      | Some (x, rest) \<Rightarrow> map_option (map_prod ((#) x) (\<lambda>r. r)) (read_many read_one n rest))"

locale codec =
  fixes write_one :: "'a \<Rightarrow> bytes"
    and read_one :: "bytes \<Rightarrow> ('a \<times> bytes) option"
    and writable :: "'a \<Rightarrow> bool"
  assumes read_written: "writable x \<Longrightarrow> read_one (write_one x @ rest) = Some (x, rest)"
begin

lemma read_many_written:
  "list_all writable xs \<Longrightarrow> read_many read_one (length xs) (concat (map write_one xs) @ rest) = Some (xs, rest)"
  by (induction xs) (simp_all add: read_written)

lemma written_determines:
  assumes "writable x" "writable y" "write_one x @ r = write_one y @ r'"
  shows "x = y \<and> r = r'"
proof -
  have "Some (x, r) = Some (y, r')"
    using read_written [OF assms(1), of r, symmetric] read_written [OF assms(2), of r'] assms(3) by (simp only:)
  then show ?thesis by simp
qed

end

section \<open>Length-encoded integers and strings\<close>

definition write_lenenc_int :: "64 word \<Rightarrow> bytes" where
  "write_lenenc_int val =
     (let n = unat val in
      if n < 251 then le_bytes 1 n
      else if n < 65536 then 0xfc # le_bytes 2 n
      else if n < 16777216 then 0xfd # le_bytes 3 n
      else 0xfe # le_bytes 8 n)"

text \<open>The bytes of an integer of \<open>k\<close> bytes, and the rest of the buffer.\<close>

definition read_le :: "nat \<Rightarrow> string \<Rightarrow> bytes \<Rightarrow> (nat \<times> bytes) mres" where
  "read_le k msg buf = (if length buf < k then Inl (Fails (MProtocol msg)) else Inr (of_le (take k buf), drop k buf))"

fun read_lenenc_int :: "bytes \<Rightarrow> (nat \<times> bytes) mres" where
  "read_lenenc_int [] = Inl (Fails (MProtocol ''unexpected end of buffer''))"
| "read_lenenc_int (first # buf) =
     (if first \<le> 0xfa then Inr (unat first, buf)
      else if first = 0xfc then read_le 2 ''truncated lenenc int'' buf
      else if first = 0xfd then read_le 3 ''truncated lenenc int'' buf
      else if first = 0xfe then read_le 8 ''truncated lenenc int'' buf
      else if first = 0xfb then Inr (0, buf)
      else Inl (Fails (MProtocol ''unexpected 0xff in lenenc int'')))"

definition write_lenenc_str :: "bytes \<Rightarrow> bytes" where
  "write_lenenc_str s = write_lenenc_int (of_nat (length s)) @ s"

lemma read_le_le_bytes [simp]:
  "n < 256 ^ k \<Longrightarrow> read_le k msg (le_bytes k n @ rest) = Inr (n, rest)"
  by (simp add: read_le_def of_le_bytes_small)

lemma read_small: "n < 251 \<Longrightarrow> read_lenenc_int (le_bytes 1 n @ rest) = Inr (n, rest)"
  by (simp add: word_le_nat_alt unat_of_nat)

lemma lenenc_int_roundtrip: "read_lenenc_int (write_lenenc_int val @ rest) = Inr (unat val, rest)"
proof -
  define n where "n = unat val"
  have "n < 2 ^ 64" using unsigned_less [of val] by (simp add: n_def)
  then have "read_lenenc_int
      ((if n < 251 then le_bytes 1 n
        else if n < 65536 then 0xfc # le_bytes 2 n
        else if n < 16777216 then 0xfd # le_bytes 3 n
        else 0xfe # le_bytes 8 n) @ rest) = Inr (n, rest)"
    using read_small [of n rest] by simp
  then show ?thesis unfolding write_lenenc_int_def Let_def n_def .
qed

text \<open>A string as a reader of the protocol takes it off the buffer.\<close>

definition read_lenenc_str :: "bytes \<Rightarrow> (bytes \<times> bytes) option" where
  "read_lenenc_str buf =
     (case read_lenenc_int buf of
        Inl f \<Rightarrow> None
      | Inr (n, rest) \<Rightarrow> if length rest < n then None else Some (take n rest, drop n rest))"

lemma lenenc_str_roundtrip:
  "length s < 2 ^ 64 \<Longrightarrow> read_lenenc_str (write_lenenc_str s @ rest) = Some (s, rest)"
  by (simp add: write_lenenc_str_def read_lenenc_str_def lenenc_int_roundtrip unat_of_nat)

interpretation lenenc_strings: codec write_lenenc_str read_lenenc_str "\<lambda>s. length s < 2 ^ 64"
  by unfold_locales (rule lenenc_str_roundtrip)

lemma write_lenenc_str_hd: "hd (write_lenenc_str s) \<noteq> 0xfb" "write_lenenc_str s \<noteq> []"
proof -
  define n where "n = unat (of_nat (length s) :: 64 word)"
  have "n < 251 \<Longrightarrow> (of_nat n :: 8 word) \<noteq> 0xfb"
    by (simp add: unat_of_nat word_unat_eq_iff)
  then show "hd (write_lenenc_str s) \<noteq> 0xfb" "write_lenenc_str s \<noteq> []"
    unfolding write_lenenc_str_def write_lenenc_int_def Let_def n_def [symmetric] by simp_all
qed

section \<open>Packets\<close>

text \<open>\<open>MAX_PACKET_SIZE\<close>.\<close>

definition max_packet :: nat where "max_packet = 0xFFFFFF"

record packet =
  pk_sequence_id :: "8 word"
  pk_payload :: bytes

text \<open>\<open>read_exact\<close>: so many bytes of the stream, or the error at its end.\<close>

definition read_exact :: "nat \<Rightarrow> bytes \<Rightarrow> (bytes \<times> bytes) mres" where
  "read_exact n stream =
     (if length stream < n then Inl (Fails (MIo ''early eof'')) else Inr (take n stream, drop n stream))"

definition read_packet :: "bytes \<Rightarrow> (packet \<times> bytes) mres" where
  "read_packet stream =
     (case read_exact 4 stream of
        Inl f \<Rightarrow> Inl f
      | Inr (header, stream1) \<Rightarrow>
          (case read_exact (of_le (take 3 header)) stream1 of
             Inl f \<Rightarrow> Inl f
           | Inr (payload, stream2) \<Rightarrow> Inr (\<lparr>pk_sequence_id = header ! 3, pk_payload = payload\<rparr>, stream2)))"

text \<open>\<open>[T]::chunks\<close>.\<close>

function chunks :: "nat \<Rightarrow> 'a list \<Rightarrow> 'a list list" where
  "chunks m xs = (if xs = [] \<or> m = 0 then [] else take m xs # chunks m (drop m xs))"
  by pat_completeness auto

termination
  by (relation "measure (\<lambda>(m, xs). length xs)") (auto simp flip: length_greater_0_conv)

declare chunks.simps [simp del]

definition packet_chunks :: "bytes \<Rightarrow> bytes list" where
  "packet_chunks payload =
     chunks max_packet payload @
     (if length payload mod max_packet = 0 \<and> payload \<noteq> [] then [[]] else [])"

fun write_chunks :: "8 word \<Rightarrow> bytes list \<Rightarrow> bytes \<times> 8 word" where
  "write_chunks seq [] = ([], seq)"
| "write_chunks seq (chunk # cs) =
     (case write_chunks (seq + 1) cs of
        (out, seq') \<Rightarrow> (le_bytes 3 (length chunk) @ [seq] @ chunk @ out, seq'))"

definition write_packet :: "8 word \<Rightarrow> bytes \<Rightarrow> bytes \<times> 8 word" where
  "write_packet seq payload = write_chunks seq (packet_chunks payload)"

text \<open>
  A payload as a client reassembles it: packets are read until one that is not full.
\<close>

lemma read_packet_shorter: "read_packet stream = Inr (p, rest) \<Longrightarrow> length rest < length stream"
  by (auto simp: read_packet_def read_exact_def split: sum.splits if_splits)

function read_message :: "bytes \<Rightarrow> (bytes \<times> bytes) option" where
  "read_message stream =
     (case read_packet stream of
        Inl f \<Rightarrow> None
      | Inr (p, rest) \<Rightarrow>
          if length (pk_payload p) < max_packet then Some (pk_payload p, rest)
          else map_option (map_prod (append (pk_payload p)) (\<lambda>r. r)) (read_message rest))"
  by pat_completeness auto

termination
  by (relation "measure length") (auto dest: read_packet_shorter)

declare read_message.simps [simp del]

lemma chunks_split:
  assumes "0 < m" "xs \<noteq> []"
  shows "\<exists>full last_chunk. chunks m xs @ (if length xs mod m = 0 \<and> xs \<noteq> [] then [[]] else []) = full @ [last_chunk] \<and>
    (\<forall>c \<in> set full. length c = m) \<and> length last_chunk < m \<and> concat full @ last_chunk = xs \<and>
    length full = length xs div m"
  using assms
proof (induction m xs rule: chunks.induct)
  case (1 m xs)
  have eq: "chunks m xs = take m xs # chunks m (drop m xs)"
    using "1.prems" by (subst chunks.simps) simp
  show ?case
  proof (cases "length xs < m")
    case True
    then have "chunks m xs = [xs]" unfolding eq by (subst chunks.simps) simp
    moreover have "length xs mod m \<noteq> 0" using True "1.prems" by simp
    ultimately show ?thesis using True by (intro exI [of _ "[]"] exI [of _ xs]) simp
  next
    case False
    note ge = this
    have dv: "length xs mod m = length (drop m xs) mod m" "length xs div m = Suc (length (drop m xs) div m)"
      using ge "1.prems" by (simp_all add: le_mod_geq le_div_geq)
    show ?thesis
    proof (cases "drop m xs = []")
      case True
      then have "length xs = m" using ge by simp
      then show ?thesis
        using True "1.prems" unfolding eq
        by (intro exI [of _ "[xs]"] exI [of _ "[]"]) (simp add: chunks.simps [of m "[]"])
    next
      case False
      with "1.IH" "1.prems" obtain full l where
        h: "chunks m (drop m xs) @ (if length (drop m xs) mod m = 0 \<and> drop m xs \<noteq> [] then [[]] else []) = full @ [l]"
          "\<forall>c \<in> set full. length c = m" "length l < m" "concat full @ l = drop m xs"
          "length full = length (drop m xs) div m"
        by (metis (no_types, lifting) not_gr_zero)
      have "chunks m xs @ (if length xs mod m = 0 \<and> xs \<noteq> [] then [[]] else []) = take m xs # full @ [l]"
        using h(1) False "1.prems" by (simp add: eq dv)
      moreover have "take m xs @ concat full @ l = xs" by (simp add: h(4))
      moreover have "length (take m xs) = m" using ge by simp
      ultimately show ?thesis
        using h(2,3,5) by (intro exI [of _ "take m xs # full"] exI [of _ l]) (simp add: dv)
    qed
  qed
qed

lemma read_packet_written:
  assumes "length chunk < 2 ^ 24"
  shows "read_packet (le_bytes 3 (length chunk) @ [seq] @ chunk @ out) = Inr (\<lparr>pk_sequence_id = seq, pk_payload = chunk\<rparr>, out)"
proof -
  let ?h = "le_bytes 3 (length chunk)"
  have "read_exact 4 (?h @ seq # chunk @ out) = Inr (?h @ [seq], chunk @ out)"
    by (simp add: read_exact_def)
  moreover have "of_le ?h = length chunk" using assms by (intro of_le_bytes_small) simp
  ultimately show ?thesis by (simp add: read_packet_def nth_append read_exact_def)
qed

lemma read_message_written:
  assumes "\<forall>c \<in> set full. length c = max_packet" "length l < max_packet"
  shows "read_message (fst (write_chunks seq (full @ [l])) @ rest) = Some (concat full @ l, rest)"
  using assms(1)
proof (induction full arbitrary: seq)
  case Nil
  have "length l < 2 ^ 24" using assms(2) by (simp add: max_packet_def)
  from read_packet_written [OF this, of seq rest] assms(2) show ?case
    by (subst read_message.simps) simp
next
  case (Cons c full)
  then have c: "length c = max_packet" and "length c < 2 ^ 24" by (simp_all add: max_packet_def)
  obtain out seq' where out: "write_chunks (seq + 1) (full @ [l]) = (out, seq')"
    by (cases "write_chunks (seq + 1) (full @ [l])")
  have "read_message (out @ rest) = Some (concat full @ l, rest)"
    using Cons.IH [of "seq + 1"] Cons.prems out by simp
  then show ?case
    using read_packet_written [OF \<open>length c < 2 ^ 24\<close>, of seq "out @ rest"]
    by (subst read_message.simps) (simp add: out c)
qed

lemma write_chunks_seq: "snd (write_chunks seq cs) = seq + of_nat (length cs)"
  by (induction cs arbitrary: seq) (simp_all add: case_prod_beta add.assoc)

lemma write_packet_nil: "write_packet seq [] = ([], seq)"
  by (simp add: write_packet_def packet_chunks_def chunks.simps)

lemma write_packet_read:
  assumes "payload \<noteq> []"
  shows "read_message (fst (write_packet seq payload) @ rest) = Some (payload, rest)"
    "snd (write_packet seq payload) = seq + of_nat (length payload div max_packet) + 1"
proof -
  have m: "0 < max_packet" by (simp add: max_packet_def)
  from chunks_split [OF m assms] obtain full l where
    h: "packet_chunks payload = full @ [l]" "\<forall>c \<in> set full. length c = max_packet" "length l < max_packet"
      "concat full @ l = payload" "length full = length payload div max_packet"
    unfolding packet_chunks_def by blast
  from read_message_written [OF h(2,3), of seq rest] write_chunks_seq [of seq "full @ [l]"]
  show "read_message (fst (write_packet seq payload) @ rest) = Some (payload, rest)"
    "snd (write_packet seq payload) = seq + of_nat (length payload div max_packet) + 1"
    unfolding write_packet_def h(1) by (simp_all add: h(4,5))
qed

interpretation payloads: codec "\<lambda>payload. fst (write_packet seq payload)" read_message "\<lambda>payload. payload \<noteq> []" for seq
  by unfold_locales (rule write_packet_read(1))

text \<open>
  Packets carry every payload: what \<open>write_packet\<close> puts on the stream for a payload that is not
  empty, however long, is read back by a client as that payload, with the rest of the stream left over,
  and the sequence number has advanced by the number of packets, one for every full 16 MB and one more.
  An empty payload writes nothing at all.
\<close>

theorem packet_framing:
  "(payload \<noteq> [] \<longrightarrow>
      read_message (fst (write_packet seq payload) @ rest) = Some (payload, rest) \<and>
      snd (write_packet seq payload) = seq + of_nat (length payload div max_packet) + 1) \<and>
   write_packet seq [] = ([], seq)"
  by (simp add: write_packet_read write_packet_nil)

theorem packet_framing_witness:
  "read_message (fst (write_packet 0 [0x41, 0x42]) @ [7]) = Some ([0x41, 0x42], [7]) \<and> snd (write_packet 0 [0x41, 0x42]) = 1"
  using packet_framing [of "[0x41, 0x42]" 0 "[7]"] by (simp add: max_packet_def)

end
