(* ===== verification/Listeners.thy ===== *)
theory Listeners
  imports Configuration Mysql_Wire
begin

text \<open>
  The life of the process: \<open>main\<close> of \<open>src/main.rs\<close> after the listeners are started, the accept loops of
  \<open>src/server/pg.rs\<close>, of \<open>src/server/mysql.rs\<close> and of the vendored \<open>server.rs\<close>. The network is a
  parameter: what binding gives, and what each call of \<open>accept\<close> gives. A loop that never ends has the
  value \<open>None\<close>.
\<close>

section \<open>Accepting clients\<close>

text \<open>
  The network of one listener: binding an address, as an address or as a text, the address of a bound
  socket, and the answer of the \<open>n\<close>-th \<open>accept\<close>, a client or an error.
\<close>

record ('a, 'l, 'k) net =
  nt_bind :: "'a \<Rightarrow> string + 'l"
  nt_bind_text :: "string \<Rightarrow> string + 'l"
  nt_local_addr :: "'l \<Rightarrow> string + 'a"
  nt_accept :: "'l \<Rightarrow> nat \<Rightarrow> string + 'k"

text \<open>\<open>loop { accept().await?; spawn }\<close>: the clients spawned, in order, and the error that ended the loop.\<close>

partial_function (option) accept_loop :: "(nat \<Rightarrow> string + 'k) \<Rightarrow> nat \<Rightarrow> 'k list \<Rightarrow> ('k list \<times> string) option" where
  "accept_loop accept n spawned =
     (case accept n of
        Inl e \<Rightarrow> Some (spawned, e)
      | Inr client \<Rightarrow> accept_loop accept (Suc n) (spawned @ [client]))"

text \<open>The end of an accept loop, if it has one: the clients it served, and what it returned.\<close>

type_synonym ('k, 'e) served = "('k list \<times> ('e + unit)) option"

definition pg_serve_on :: "('a, 'l, 'k) net \<Rightarrow> 'l \<Rightarrow> ('k, fault) served" where
  "pg_serve_on N l =
     (case nt_local_addr N l of
        Inl e \<Rightarrow> Some ([], Inl (Err (Io e)))
      | Inr addr \<Rightarrow> map_option (\<lambda>(ks, e). (ks, Inl (Err (Io e)))) (accept_loop (nt_accept N l) 0 []))"

definition pg_serve :: "('a, 'l, 'k) net \<Rightarrow> 'a \<Rightarrow> ('k, fault) served" where
  "pg_serve N addr =
     (case nt_bind N addr of
        Inl e \<Rightarrow> Some ([], Inl (Err (Io e)))
      | Inr l \<Rightarrow> pg_serve_on N l)"

definition mysql_listen :: "('a, 'l, 'k) net \<Rightarrow> string \<Rightarrow> ('k, mysql_failure) served" where
  "mysql_listen N addr =
     (case nt_bind_text N addr of
        Inl e \<Rightarrow> Some ([], Inl (MIo e))
      | Inr l \<Rightarrow> map_option (\<lambda>(ks, e). (ks, Inl (MIo e))) (accept_loop (nt_accept N l) 0 []))"

fun display_mysql_failure :: "mysql_failure \<Rightarrow> string" where
  "display_mysql_failure (MServer e) = ''MySQL error '' @ show_nat (me_code e) @ '': '' @ me_message e"
| "display_mysql_failure f = error_message f"

text \<open>\<open>show_addr\<close> is the display of a socket address.\<close>

definition my_serve :: "('a \<Rightarrow> string) \<Rightarrow> ('a, 'l, 'k) net \<Rightarrow> 'a \<Rightarrow> ('k, fault) served" where
  "my_serve show_addr N addr =
     map_option (\<lambda>(ks, r). (ks, case r of
         Inl e \<Rightarrow> Inl (Err (Server (''mysql listener failed: '' @ display_mysql_failure e)))
       | Inr u \<Rightarrow> Inr ()))
       (mysql_listen N (show_addr addr))"

definition serve_task :: "('a \<Rightarrow> string) \<Rightarrow> ('a, 'l, 'k) net \<Rightarrow> ('a, 'p) task \<Rightarrow> ('k, fault) served" where
  "serve_task show_addr N t =
     (case tk_handler t of
        PgHandler \<Rightarrow> pg_serve N (tk_addr t)
      | MySqlServer \<Rightarrow> my_serve show_addr N (tk_addr t))"

section \<open>The whole process\<close>

text \<open>The command line: the path of the configuration file and its default.\<close>

definition config_path :: "string option \<Rightarrow> string" where
  "config_path arg = (case arg of Some path \<Rightarrow> path | None \<Rightarrow> ''config.toml'')"

text \<open>
  The loop at the end of \<open>main\<close>: the tasks are awaited one after the other. A task that panicked is a
  join error, with the text \<open>join_error\<close>.
\<close>

fun wait_tasks :: "string \<Rightarrow> unit res option list \<Rightarrow> unit res option" where
  "wait_tasks join_error [] = Some (Inr ())"
| "wait_tasks join_error (None # tasks) = None"
| "wait_tasks join_error (Some (Inr ()) # tasks) = wait_tasks join_error tasks"
| "wait_tasks join_error (Some (Inl (Err e)) # tasks) = Some (Inl (Err e))"
| "wait_tasks join_error (Some (Inl Panic) # tasks) = Some (Inl (Err (Server (''listener task failed: '' @ join_error))))"

text \<open>\<open>main\<close>: \<open>N i\<close> is the network of the \<open>i\<close>-th listener. \<open>None\<close> is a process that runs for ever.\<close>

definition proxy_main ::
  "(string \<Rightarrow> string + string) \<Rightarrow> (string \<Rightarrow> string + listener list) \<Rightarrow> (string \<Rightarrow> string + 'a) \<Rightarrow>
   (string \<Rightarrow> 32 word \<Rightarrow> string + 'p) \<Rightarrow> ('a \<Rightarrow> string) \<Rightarrow> (nat \<Rightarrow> ('a, 'l, 'k) net) \<Rightarrow> string \<Rightarrow> string option \<Rightarrow>
   unit res option" where
  "proxy_main read_to_string toml_from_str parse_addr pool_connect show_addr N join_error arg =
     (case load read_to_string toml_from_str (config_path arg) of
        Inl f \<Rightarrow> Some (Inl f)
      | Inr cfg \<Rightarrow>
          (case start_listeners parse_addr pool_connect cfg of
             Inl f \<Rightarrow> Some (Inl f)
           | Inr tasks \<Rightarrow>
               wait_tasks join_error
                 (map (\<lambda>(i, t). map_option snd (serve_task show_addr (N i) t)) (enumerate 0 tasks))))"

section \<open>When an accept loop ends\<close>

lemma accept_loop_ends:
  assumes "accept n = Inl e" "m \<le> n" "\<forall>j \<in> {m..<n}. \<exists>k. accept j = Inr k"
  shows "accept_loop accept m ks = Some (ks @ map (\<lambda>j. projr (accept j)) [m..<n], e)"
  using assms
proof (induction "n - m" arbitrary: m ks)
  case 0
  then show ?case by (simp add: accept_loop.simps [of accept m])
next
  case (Suc d)
  then have m: "m < n" "d = n - Suc m" by simp_all
  with Suc.prems(3) obtain k where k: "accept m = Inr k" by force
  from Suc.hyps(1) [OF m(2) Suc.prems(1), of "ks @ [k]"] m(1) Suc.prems(3)
  have "accept_loop accept (Suc m) (ks @ [k]) = Some ((ks @ [k]) @ map (\<lambda>j. projr (accept j)) [Suc m..<n], e)" by simp
  with k m(1) show ?case by (simp add: accept_loop.simps [of accept m] upt_conv_Cons)
qed

lemma accept_loop_result:
  assumes "accept_loop accept m ks = Some r"
  shows "\<exists>n \<ge> m. accept n = Inl (snd r) \<and> (\<forall>j \<in> {m..<n}. \<exists>k. accept j = Inr k)"
  using assms
proof (rule accept_loop.raw_induct [where P = "\<lambda>accept m ks r.
    \<exists>n \<ge> m. accept n = Inl (snd r) \<and> (\<forall>j \<in> {m..<n}. \<exists>k. accept j = Inr k)", rotated])
  fix loop :: "(nat \<Rightarrow> string + 'b) \<Rightarrow> nat \<Rightarrow> 'b list \<Rightarrow> ('b list \<times> string) option"
    and accept :: "nat \<Rightarrow> string + 'b" and m ks r
  assume IH: "\<And>accept m ks r. loop accept m ks = Some r \<Longrightarrow>
      \<exists>n \<ge> m. accept n = Inl (snd r) \<and> (\<forall>j \<in> {m..<n}. \<exists>k. accept j = Inr k)"
    and step: "(case accept m of Inl e \<Rightarrow> Some (ks, e) | Inr k \<Rightarrow> loop accept (Suc m) (ks @ [k])) = Some r"
  show "\<exists>n \<ge> m. accept n = Inl (snd r) \<and> (\<forall>j \<in> {m..<n}. \<exists>k. accept j = Inr k)"
  proof (cases "accept m")
    case (Inl e)
    with step show ?thesis by (intro exI [of _ m]) auto
  next
    case (Inr k)
    with step IH [of accept "Suc m" "ks @ [k]" r] obtain n where
      "Suc m \<le> n" "accept n = Inl (snd r)" "\<forall>j \<in> {Suc m..<n}. \<exists>k. accept j = Inr k" by auto
    with Inr show ?thesis by (intro exI [of _ n]) (auto simp: Suc_le_eq le_less)
  qed
qed

text \<open>A loop ends exactly when some accept fails, at the first that does; until then every client is served.\<close>

lemma accept_loop_iff:
  "accept_loop accept 0 [] = Some (ks, e) \<longleftrightarrow>
     (\<exists>n. accept n = Inl e \<and> (\<forall>j < n. \<exists>k. accept j = Inr k) \<and> ks = map (\<lambda>j. projr (accept j)) [0..<n])"
proof
  assume l: "accept_loop accept 0 [] = Some (ks, e)"
  from accept_loop_result [OF this] obtain n where n: "accept n = Inl e" "\<forall>j \<in> {0..<n}. \<exists>k. accept j = Inr k" by auto
  from accept_loop_ends [OF n(1) _ n(2)] l n
  show "\<exists>n. accept n = Inl e \<and> (\<forall>j < n. \<exists>k. accept j = Inr k) \<and> ks = map (\<lambda>j. projr (accept j)) [0..<n]"
    by (intro exI [of _ n]) auto
next
  assume "\<exists>n. accept n = Inl e \<and> (\<forall>j < n. \<exists>k. accept j = Inr k) \<and> ks = map (\<lambda>j. projr (accept j)) [0..<n]"
  then show "accept_loop accept 0 [] = Some (ks, e)" using accept_loop_ends [of accept _ e 0 "[]"] by auto
qed

lemma accept_loop_runs: "accept_loop accept 0 [] = None \<longleftrightarrow> (\<forall>n. \<exists>k. accept n = Inr k)"
proof
  assume ok: "\<forall>n. \<exists>k. accept n = Inr k"
  show "accept_loop accept 0 [] = None"
  proof (rule ccontr)
    assume "accept_loop accept 0 [] \<noteq> None"
    then obtain r where "accept_loop accept 0 [] = Some r" by blast
    from accept_loop_result [OF this] obtain n where "accept n = Inl (snd r)" by blast
    moreover obtain k where "accept n = Inr k" using ok by blast
    ultimately show False by simp
  qed
next
  assume none: "accept_loop accept 0 [] = None"
  show "\<forall>n. \<exists>k. accept n = Inr k"
  proof (rule ccontr)
    assume "\<not> (\<forall>n. \<exists>k. accept n = Inr k)"
    then obtain n where n: "\<nexists>k. accept n = Inr k" "\<forall>j < n. \<exists>k. accept j = Inr k"
      using exists_least_iff [of "\<lambda>n. \<nexists>k. accept n = Inr k"] by blast
    then obtain e where "accept n = Inl e" "\<forall>j \<in> {0..<n}. \<exists>k. accept j = Inr k" by (cases "accept n") auto
    with accept_loop_ends [of accept n e 0 "[]"] none show False by simp
  qed
qed

section \<open>When a listener ends\<close>

text \<open>A listener that stays up: its address can be bound, and every accept gives a client.\<close>

definition stays_up :: "('a \<Rightarrow> string) \<Rightarrow> ('a, 'l, 'k) net \<Rightarrow> ('a, 'p) task \<Rightarrow> bool" where
  "stays_up show_addr N t \<longleftrightarrow>
     (case tk_handler t of
        PgHandler \<Rightarrow> (\<exists>l a. nt_bind N (tk_addr t) = Inr l \<and> nt_local_addr N l = Inr a \<and> (\<forall>n. \<exists>k. nt_accept N l n = Inr k))
      | MySqlServer \<Rightarrow> (\<exists>l. nt_bind_text N (show_addr (tk_addr t)) = Inr l \<and> (\<forall>n. \<exists>k. nt_accept N l n = Inr k)))"

lemma serve_task_runs: "serve_task show_addr N t = None \<longleftrightarrow> stays_up show_addr N t"
  by (cases "tk_handler t")
    (auto simp: serve_task_def stays_up_def pg_serve_def pg_serve_on_def my_serve_def mysql_listen_def accept_loop_runs
      split: sum.splits)

lemma mysql_listen_fails: "mysql_listen N addr = Some (ks, r) \<Longrightarrow> \<exists>e. r = Inl e"
  by (auto simp: mysql_listen_def split: sum.splits)

lemma serve_task_fails:
  assumes "serve_task show_addr N t = Some (ks, r)"
  shows "\<exists>e. r = Inl (Err e)"
proof (cases "tk_handler t")
  case PgHandler
  with assms show ?thesis by (auto simp: serve_task_def pg_serve_def pg_serve_on_def split: sum.splits)
next
  case MySqlServer
  with assms obtain r' where "mysql_listen N (show_addr (tk_addr t)) = Some (ks, r')"
    "r = (case r' of Inl e \<Rightarrow> Inl (Err (Server (''mysql listener failed: '' @ display_mysql_failure e))) | Inr u \<Rightarrow> Inr ())"
    by (auto simp: serve_task_def my_serve_def)
  with mysql_listen_fails [OF this(1)] show ?thesis by auto
qed

lemma wait_tasks_first:
  "wait_tasks join_error (None # tasks) = None"
  "wait_tasks join_error (Some (Inl (Err e)) # tasks) = Some (Inl (Err e))"
  by simp_all

lemma start_listeners_length: "start_listeners pa pc ls = Inr ts \<Longrightarrow> length ts = length ls"
  using start_listeners_agree list_all2_lengthD by metis

text \<open>
  C11. The process lives as long as its first listener. After a start-up without errors \<open>main\<close> returns if
  and only if the first listener of the configuration ends, because its address cannot be bound or an
  accept fails, and then with that listener's error; the other listeners do not matter: one that fails is
  neither waited for nor reported while the first one is up. \<open>main\<close> never returns \<open>Ok\<close>, and with a
  failing start-up it returns that failure.
\<close>

theorem main_lives_with_first_listener:
  "proxy_main rd toml pa pc show_addr N join_error arg \<noteq> Some (Inr ()) \<and>
   (case load rd toml (config_path arg) of
      Inl f \<Rightarrow> proxy_main rd toml pa pc show_addr N join_error arg = Some (Inl f)
    | Inr cfg \<Rightarrow>
        (case start_listeners pa pc cfg of
           Inl f \<Rightarrow> proxy_main rd toml pa pc show_addr N join_error arg = Some (Inl f)
         | Inr tasks \<Rightarrow>
             tasks \<noteq> [] \<and>
             (proxy_main rd toml pa pc show_addr N join_error arg = None \<longleftrightarrow> stays_up show_addr (N 0) (hd tasks)) \<and>
             proxy_main rd toml pa pc show_addr N join_error arg = map_option snd (serve_task show_addr (N 0) (hd tasks))))"
proof (cases "load rd toml (config_path arg)")
  case (Inl f)
  then show ?thesis by (simp add: proxy_main_def)
next
  case (Inr cfg)
  then have "cfg \<noteq> []" using load_valid validate_iff by blast
  show ?thesis
  proof (cases "start_listeners pa pc cfg")
    case start: (Inr tasks)
    with \<open>cfg \<noteq> []\<close> start_listeners_length [OF start] obtain t ts where ts: "tasks = t # ts" by (cases tasks) auto
    show ?thesis
    proof (cases "serve_task show_addr (N 0) t")
      case None
      with Inr start ts serve_task_runs [of show_addr "N 0" t] show ?thesis by (simp add: proxy_main_def)
    next
      case (Some kr)
      obtain ks r where kr: "kr = (ks, r)" by (cases kr)
      from serve_task_fails [OF Some [unfolded kr]] obtain e where "r = Inl (Err e)" by blast
      with Inr start ts Some kr serve_task_runs [of show_addr "N 0" t] show ?thesis by (auto simp: proxy_main_def)
    qed
  qed (use Inr in \<open>simp add: proxy_main_def\<close>)
qed

end
