(* ===== verification/Pool.thy ===== *)
theory Pool
  imports Session
begin

text \<open>
  The pool behind \<open>Backend::acquire_owned\<close> of \<open>src/backend/mod.rs\<close>: a session takes a connection out of it
  and detaches it, for good. The pool is sqlx's; its operations are a parameter.
\<close>

record ('p, 'c) pool_ops =
  po_acquire :: "'p \<Rightarrow> 'p \<times> (string + 'c)"
  po_detach :: "'p \<Rightarrow> 'p"   \<comment> \<open>of the connection acquired last\<close>

definition acquire_detached :: "('p, 'c) pool_ops \<Rightarrow> 'p \<Rightarrow> 'p \<times> 'c res" where
  "acquire_detached ops p =
     (case po_acquire ops p of
        (p1, Inl e) \<Rightarrow> (p1, Inl (Err (Backend (''cannot acquire backend connection: '' @ e))))
      | (p1, Inr c) \<Rightarrow> (po_detach ops p1, Inr c))"

text \<open>\<open>n\<close> sessions that connect one after the other and stay: the connections they got, or the first failure.\<close>

fun connect_sessions :: "('p, 'c) pool_ops \<Rightarrow> nat \<Rightarrow> 'p \<Rightarrow> 'p \<times> 'c list res" where
  "connect_sessions ops 0 p = (p, Inr [])"
| "connect_sessions ops (Suc n) p =
     (case acquire_detached ops p of
        (p1, Inl f) \<Rightarrow> (p1, Inl f)
      | (p1, Inr c) \<Rightarrow>
          (case connect_sessions ops n p1 of
             (p2, Inl f) \<Rightarrow> (p2, Inl f)
           | (p2, Inr cs) \<Rightarrow> (p2, Inr (c # cs))))"

text \<open>
  What sqlx documents of a pool with a bound: a connection can be acquired as long as fewer than the bound
  are in use, and a detached one is no longer in use.
\<close>

definition bounded_pool :: "('p, 'c) pool_ops \<Rightarrow> ('p \<Rightarrow> nat) \<Rightarrow> nat \<Rightarrow> bool" where
  "bounded_pool ops in_use bound \<longleftrightarrow>
     (\<forall>p. in_use p < bound \<longrightarrow> (\<exists>p' c. po_acquire ops p = (p', Inr c) \<and> in_use p' = Suc (in_use p))) \<and>
     (\<forall>p. in_use (po_detach ops p) = in_use p - 1)"

text \<open>
  The bound of the pool bounds nothing: with any positive \<open>max_connections\<close>, any number of sessions can
  hold a backend connection at the same time, since each one detaches its connection from the pool.
\<close>

theorem max_connections_does_not_bound:
  assumes "bounded_pool ops in_use bound" "0 < bound" "in_use p = 0"
  shows "\<exists>p' cs. connect_sessions ops n p = (p', Inr cs) \<and> length cs = n \<and> in_use p' = 0"
  using assms(3)
proof (induction n arbitrary: p)
  case (Suc n)
  then obtain p1 c where "po_acquire ops p = (p1, Inr c)" "in_use p1 = Suc 0"
    using assms(1,2) unfolding bounded_pool_def by (metis One_nat_def)
  moreover from this have "in_use (po_detach ops p1) = 0" using assms(1) by (simp add: bounded_pool_def)
  from Suc.IH [OF this] obtain p2 cs where
    "connect_sessions ops n (po_detach ops p1) = (p2, Inr cs)" "length cs = n" "in_use p2 = 0" by blast
  ultimately show ?case by (simp add: acquire_detached_def)
qed simp

definition counting_pool :: "nat \<Rightarrow> (nat, nat) pool_ops" where
  "counting_pool bound =
     \<lparr>po_acquire = (\<lambda>k. if k < bound then (Suc k, Inr k) else (k, Inl ''timed out'')), po_detach = (\<lambda>k. k - 1)\<rparr>"

theorem max_connections_does_not_bound_witness:
  "\<exists>p' cs. connect_sessions (counting_pool 1) 3 0 = (p', Inr cs) \<and> length cs = 3"
proof -
  have "bounded_pool (counting_pool 1) id 1" by (simp add: bounded_pool_def counting_pool_def)
  from max_connections_does_not_bound [OF this, of 0 3] show ?thesis by auto
qed

end
