(* ===== verification/Pg_Params.thy ===== *)
theory Pg_Params
  imports Run_Script "HOL-Library.Char_ord" "HOL-Library.List_Lexorder"
begin

text \<open>
  \<open>src/server/pgparams.rs\<close>: the wire types of the parameters of a statement, guessed from where each
  \<open>$n\<close> stands (next to which column) and from the backend's catalog.

  A \<open>BTreeSet<String>\<close> is a sorted list without duplicates. PostgreSQL's types are their OIDs.
\<close>

section \<open>Hints\<close>

record column_hint =
  ch_index :: nat                                  \<comment> \<open>\<open>$n\<close>, from 1\<close>
  ch_column :: "(string option \<times> string) option"
  ch_type_oid :: "nat option"

record hints =
  h_columns :: "column_hint list"
  h_tables :: "string list"
  h_max_index :: nat

definition no_hints :: hints where
  "no_hints = \<lparr>h_columns = [], h_tables = [], h_max_index = 0\<rparr>"

definition btree_insert :: "string \<Rightarrow> string list \<Rightarrow> string list" where
  "btree_insert t ts = (if t \<in> set ts then ts else insort t ts)"

definition add_table :: "string \<Rightarrow> hints \<Rightarrow> hints" where
  "add_table t h = h\<lparr>h_tables := btree_insert t (h_tables h)\<rparr>"

definition push_hint :: "nat \<Rightarrow> (string option \<times> string) option \<Rightarrow> hints \<Rightarrow> hints" where
  "push_hint idx column h =
     h\<lparr>h_max_index := max (h_max_index h) idx,
       h_columns := h_columns h @ [\<lparr>ch_index = idx, ch_column = column, ch_type_oid = None\<rparr>]\<rparr>"

fun placeholder_index :: "'x expr \<Rightarrow> nat option" where
  "placeholder_index (ValueExpr (Placeholder p)) = parse_usize (trim_start (\<lambda>c. c = CHR ''$'') p)"
| "placeholder_index e = None"

definition plain_identifier :: "string \<Rightarrow> string option" where
  "plain_identifier t =
     (let cleaned = trim_matches (\<lambda>c. c = dquote \<or> c = backtick \<or> c = CHR '' '') t;
          l = last (split_on CHR ''.'' cleaned)
      in if l \<noteq> [] \<and> list_all (\<lambda>c. is_alphanumeric c \<or> c = CHR ''_'') l then Some (to_ascii_lowercase l) else None)"

definition note_column_placeholder :: "hints \<Rightarrow> 'x expr \<Rightarrow> string option \<Rightarrow> string \<Rightarrow> hints" where
  "note_column_placeholder h e table column_text =
     (case placeholder_index e of
        None \<Rightarrow> h
      | Some idx \<Rightarrow>
          (case plain_identifier column_text of
             None \<Rightarrow> h
           | Some col \<Rightarrow> push_hint idx (Some (table, col)) h))"

definition last_ident :: "'x sqlparser \<Rightarrow> object_name \<Rightarrow> string" where
  "last_ident P name =
     (if name = [] then []
      else to_ascii_lowercase (trim_matches (\<lambda>c. c = dquote \<or> c = backtick) (show_name P [last name])))"

section \<open>Expressions\<close>

fun is_comparison :: "'x binary_operator \<Rightarrow> bool" where
  "is_comparison Eq \<longleftrightarrow> True"
| "is_comparison NotEq \<longleftrightarrow> True"
| "is_comparison Lt \<longleftrightarrow> True"
| "is_comparison LtEq \<longleftrightarrow> True"
| "is_comparison Gt \<longleftrightarrow> True"
| "is_comparison GtEq \<longleftrightarrow> True"
| "is_comparison oper \<longleftrightarrow> False"

text \<open>The hint of one comparison, and of one \<open>LIKE\<close>.\<close>

definition note_comparison ::
  "'x sqlparser \<Rightarrow> hints \<Rightarrow> 'x expr \<Rightarrow> 'x binary_operator \<Rightarrow> 'x expr \<Rightarrow> string option \<Rightarrow> hints" where
  "note_comparison P h left oper right table =
     (if is_comparison oper then
        (if placeholder_index right \<noteq> None then note_column_placeholder h right table (show_expr P left)
         else if placeholder_index left \<noteq> None then note_column_placeholder h left table (show_expr P right)
         else h)
      else h)"

definition note_pattern :: "'x sqlparser \<Rightarrow> hints \<Rightarrow> 'x expr \<Rightarrow> 'x expr \<Rightarrow> string option \<Rightarrow> hints" where
  "note_pattern P h lhs pattern table =
     (if placeholder_index pattern \<noteq> None then note_column_placeholder h pattern table (show_expr P lhs) else h)"

primrec walk :: "'x expr \<Rightarrow> 'x sqlparser \<Rightarrow> string option \<Rightarrow> hints \<Rightarrow> hints"
  and walk_func :: "'x func \<Rightarrow> 'x sqlparser \<Rightarrow> string option \<Rightarrow> hints \<Rightarrow> hints"
  and walk_args :: "'x fn_args \<Rightarrow> 'x sqlparser \<Rightarrow> string option \<Rightarrow> hints \<Rightarrow> hints"
  and walk_arg :: "'x fn_arg \<Rightarrow> 'x sqlparser \<Rightarrow> string option \<Rightarrow> hints \<Rightarrow> hints"
where
  "walk (Identifier i) P table h = h"
| "walk (CompoundIdentifier is) P table h = h"
| "walk (ValueExpr v) P table h = h"
| "walk (BinaryOp left oper right) P table h =
     walk right P table (walk left P table (note_comparison P h left oper right table))"
| "walk (UnaryOp oper e) P table h = walk e P table h"
| "walk (Nested e) P table h = walk e P table h"
| "walk (CastExpr k e dt fmt arr) P table h = h"
| "walk (Like neg any lhs pattern esc) P table h =
     walk pattern P table (walk lhs P table (note_pattern P h lhs pattern table))"
| "walk (ILike neg any lhs pattern esc) P table h =
     walk pattern P table (walk lhs P table (note_pattern P h lhs pattern table))"
| "walk (InList lhs items x) P table h =
     foldl (\<lambda>h item. note_column_placeholder h item table (show_expr P lhs)) h items"
| "walk (Between b low high x) P table h =
     note_column_placeholder (note_column_placeholder h low table (show_expr P b)) high table (show_expr P b)"
| "walk (Function f) P table h = walk_func f P table h"
| "walk (OtherExpr x es) P table h = h"
| "walk_func (Func n odbc ps args fl nt ov wg) P table h = walk_args args P table h"
| "walk_args NoArgs P table h = h"
| "walk_args (SubqueryArgs x) P table h = h"
| "walk_args (ListArgs dup args clauses) P table h = foldl (\<lambda>h w. w P table h) h (map walk_arg args)"
| "walk_arg (Unnamed e) P table h = walk e P table h"
| "walk_arg (OtherArg x es) P table h = h"

definition walk_expr :: "'x sqlparser \<Rightarrow> hints \<Rightarrow> 'x expr \<Rightarrow> string option \<Rightarrow> hints" where
  "walk_expr P h e table = walk e P table h"

section \<open>Statements\<close>

fun factor_name :: "'x table_factor \<Rightarrow> object_name option" where
  "factor_name (TableFactor name x) = Some name"
| "factor_name (OtherFactor x) = None"

text \<open>\<open>collect_from_item\<close>, over the hints and the list it fills.\<close>

definition collect_from_item :: "'x sqlparser \<Rightarrow> hints \<times> string list \<Rightarrow> 'x table_factor \<Rightarrow> hints \<times> string list" where
  "collect_from_item P ho tf =
     (case factor_name tf of
        None \<Rightarrow> ho
      | Some name \<Rightarrow> (let t = last_ident P name in (add_table t (fst ho), snd ho @ [t])))"

definition walk_query :: "'x sqlparser \<Rightarrow> hints \<Rightarrow> 'x query \<Rightarrow> hints" where
  "walk_query P h q =
     (case q_body q of
        Select sel \<Rightarrow>
          (let (h1, from_tables) =
             foldl (\<lambda>ho item. foldl (collect_from_item P) (collect_from_item P ho (twj_relation item)) (twj_joins item))
               (h, []) (sel_from sel)
           in case sel_selection sel of
                None \<Rightarrow> h1
              | Some e \<Rightarrow>
                  walk_expr P (foldl (\<lambda>h t. add_table t h) h1 from_tables) e
                    (case from_tables of [] \<Rightarrow> None | t # _ \<Rightarrow> Some t))
      | _ \<Rightarrow> h)"

definition note_assignment :: "'x sqlparser \<Rightarrow> string \<Rightarrow> hints \<Rightarrow> 'x assignment \<Rightarrow> hints" where
  "note_assignment P tbl h a =
     (case as_target a of
        ColumnName colname \<Rightarrow> note_column_placeholder h (as_value a) (Some tbl) (show_name P colname)
      | _ \<Rightarrow> h)"

text \<open>One value of a row of \<open>VALUES\<close>, at its position.\<close>

definition note_value :: "string \<Rightarrow> string list \<Rightarrow> hints \<Rightarrow> nat \<times> 'x expr \<Rightarrow> hints" where
  "note_value tbl cols h pe =
     (case placeholder_index (snd pe) of
        None \<Rightarrow> h
      | Some idx \<Rightarrow> push_hint idx (map_option (\<lambda>c. (Some tbl, c)) (get cols (fst pe))) h)"

definition note_source :: "string \<Rightarrow> string list \<Rightarrow> hints \<Rightarrow> 'x query option \<Rightarrow> hints" where
  "note_source tbl cols h source =
     (case source of
        Some q \<Rightarrow>
          (case q_body q of
             Values rows \<Rightarrow> foldl (\<lambda>h row. foldl (note_value tbl cols) h (enumerate 0 row)) h rows
           | _ \<Rightarrow> h)
      | None \<Rightarrow> h)"

definition note_conflict :: "'x sqlparser \<Rightarrow> string \<Rightarrow> hints \<Rightarrow> 'x on_insert option \<Rightarrow> hints" where
  "note_conflict P tbl h on =
     (case on of Some (DuplicateKeyUpdate assigns) \<Rightarrow> foldl (note_assignment P tbl) h assigns | _ \<Rightarrow> h)"

definition walk_insert :: "'x sqlparser \<Rightarrow> hints \<Rightarrow> 'x insert \<Rightarrow> hints" where
  "walk_insert P h ins =
     (case ins_table ins of
        TableName name \<Rightarrow>
          (let tbl = last_ident P name; h1 = add_table tbl h;
               cols = map (\<lambda>c. to_ascii_lowercase (show_name P c)) (ins_columns ins)
           in note_conflict P tbl (note_source tbl cols h1 (ins_source ins)) (ins_on ins))
      | _ \<Rightarrow> h)"

definition walk_update :: "'x sqlparser \<Rightarrow> hints \<Rightarrow> 'x update \<Rightarrow> hints" where
  "walk_update P h upd =
     (case factor_name (twj_relation (upd_table upd)) of
        None \<Rightarrow> h
      | Some name \<Rightarrow>
          (let tbl = last_ident P name;
               h1 = foldl (note_assignment P tbl) (add_table tbl h) (upd_assignments upd)
           in case upd_selection upd of None \<Rightarrow> h1 | Some sel \<Rightarrow> walk_expr P h1 sel (Some tbl)))"

definition delete_tables :: "'x delete \<Rightarrow> object_name list" where
  "delete_tables del =
     (case del_from del of
        WithFromKeyword f \<Rightarrow> List.map_filter (\<lambda>t. factor_name (twj_relation t)) f
      | WithoutKeyword f \<Rightarrow> del_tables del)"

definition walk_delete :: "'x sqlparser \<Rightarrow> hints \<Rightarrow> 'x delete \<Rightarrow> hints" where
  "walk_delete P h del =
     (case delete_tables del of
        [] \<Rightarrow> h
      | first # _ \<Rightarrow>
          (let tbl = last_ident P first; h1 = add_table tbl h
           in case del_selection del of None \<Rightarrow> h1 | Some sel \<Rightarrow> walk_expr P h1 sel (Some tbl)))"

fun walk_statement :: "'x sqlparser \<Rightarrow> hints \<Rightarrow> 'x statement \<Rightarrow> hints" where
  "walk_statement P h (Insert ins) = walk_insert P h ins"
| "walk_statement P h (Update upd) = walk_update P h upd"
| "walk_statement P h (Delete del) = walk_delete P h del"
| "walk_statement P h (Query q) = walk_query P h q"
| "walk_statement P h stmt = h"

definition parse_hints :: "'x sqlparser \<Rightarrow> string \<Rightarrow> hints option" where
  "parse_hints P sql =
     (case parse_sql P FrontPostgres sql of
        Inl e \<Rightarrow> None
      | Inr stmts \<Rightarrow> Some (foldl (walk_statement P) no_hints stmts))"

section \<open>Catalog lookups\<close>

definition catalog_is_sqlite :: "'db driver \<Rightarrow> 'db \<Rightarrow> 'db \<times> bool" where
  "catalog_is_sqlite D conn =
     (case fetch D conn ''SELECT count(*) FROM sqlite_master'' of
        (conn1, Inr r) \<Rightarrow> (conn1, True)
      | (conn1, Inl f) \<Rightarrow> (conn1, False))"

definition column_sql :: "string \<Rightarrow> string \<Rightarrow> string" where
  "column_sql table column =
     ''SELECT data_type FROM information_schema.columns WHERE table_name = '' @ sq (double_char squote table) @
     '' AND column_name = '' @ sq (double_char squote column)"

definition names_column :: "runtime \<Rightarrow> string \<Rightarrow> cell list \<Rightarrow> bool" where
  "names_column R column r = (case cell_at r 1 of Some v \<Rightarrow> text_of R v = column | None \<Rightarrow> False)"

definition column_decl ::
  "runtime \<Rightarrow> 'db driver \<Rightarrow> 'db \<Rightarrow> string \<Rightarrow> string \<Rightarrow> bool \<Rightarrow> 'db \<times> string option" where
  "column_decl R D conn table column is_sqlite =
     (case fetch D conn (if is_sqlite then table_info table else column_sql table column) of
        (conn1, Inl f) \<Rightarrow> (conn1, None)
      | (conn1, Inr (cols, rows)) \<Rightarrow>
          (conn1,
           first_text R
             (if is_sqlite
              then List.map_filter (\<lambda>r. if length r > 2 then Some [r ! 2] else None) (filter (names_column R column) rows)
              else rows)))"

definition oid_for_declared_type :: "string \<Rightarrow> nat option" where
  "oid_for_declared_type decl =
     (let d = to_ascii_uppercase (trim decl);
          base = trim (hd (split_on CHR ''('' d));
          affinity_int = contains_sub ''INT'' base;
          affinity_float = contains_sub ''REAL'' base \<or> contains_sub ''FLOA'' base \<or> contains_sub ''DOUB'' base
      in Some
        (if base = ''BOOL'' \<or> base = ''BOOLEAN'' then 16
         else if affinity_int then (if base = ''BIGINT'' \<or> base = ''INT8'' \<or> base = ''SERIAL8'' then 20 else 23)
         else if base = ''NUMERIC'' \<or> base = ''DECIMAL'' \<or> base = ''DEC'' then 1700
         else if affinity_float then 701
         else if base \<in> {''BLOB'', ''BYTEA'', ''TINYBLOB'', ''MEDIUMBLOB'', ''LONGBLOB''} then 17
         else 25))"

definition declared_oid ::
  "runtime \<Rightarrow> 'db driver \<Rightarrow> 'db \<Rightarrow> string \<Rightarrow> string \<Rightarrow> bool \<Rightarrow> 'db \<times> nat option" where
  "declared_oid R D conn table column is_sqlite =
     (case column_decl R D conn table column is_sqlite of
        (conn1, None) \<Rightarrow> (conn1, None)
      | (conn1, Some d) \<Rightarrow> (conn1, oid_for_declared_type d))"

text \<open>The loop over the candidate tables, leaving at the first that knows the column.\<close>

fun search_tables ::
  "runtime \<Rightarrow> 'db driver \<Rightarrow> 'db \<Rightarrow> string list \<Rightarrow> string \<Rightarrow> bool \<Rightarrow> 'db \<times> nat option" where
  "search_tables R D conn [] column is_sqlite = (conn, None)"
| "search_tables R D conn (tbl # tbls) column is_sqlite =
     (case declared_oid R D conn tbl column is_sqlite of
        (conn1, Some oid) \<Rightarrow> (conn1, Some oid)
      | (conn1, None) \<Rightarrow> search_tables R D conn1 tbls column is_sqlite)"

definition resolve_hint ::
  "runtime \<Rightarrow> 'db driver \<Rightarrow> bool \<Rightarrow> string list \<Rightarrow> 'db \<Rightarrow> column_hint \<Rightarrow> 'db \<times> column_hint" where
  "resolve_hint R D is_sqlite tables conn hint =
     (case ch_column hint of
        None \<Rightarrow> (conn, hint)
      | Some (table, column) \<Rightarrow>
          (case (case table of
                   Some t \<Rightarrow> declared_oid R D conn t column is_sqlite
                 | None \<Rightarrow> search_tables R D conn tables column is_sqlite) of
             (conn1, oid) \<Rightarrow>
               (conn1, hint\<lparr>ch_type_oid := (case oid of Some n \<Rightarrow> Some n | None \<Rightarrow> ch_type_oid hint)\<rparr>)))"

fun resolve_hints ::
  "runtime \<Rightarrow> 'db driver \<Rightarrow> bool \<Rightarrow> string list \<Rightarrow> 'db \<Rightarrow> column_hint list \<Rightarrow> 'db \<times> column_hint list" where
  "resolve_hints R D is_sqlite tables conn [] = (conn, [])"
| "resolve_hints R D is_sqlite tables conn (c # cs) =
     (case resolve_hint R D is_sqlite tables conn c of (conn1, c') \<Rightarrow>
      case resolve_hints R D is_sqlite tables conn1 cs of (conn2, cs') \<Rightarrow> (conn2, c' # cs'))"

section \<open>Inference\<close>

definition text_oid :: nat where "text_oid = 25"

text \<open>
  One slot of the result: \<open>out.get_mut(idx - 1)\<close>, with the overflow of \<open>0 - 1\<close>. \<open>known\<close> is the wire
  crate's \<open>Type::from_oid\<close>: the OIDs it has a type for.
\<close>

definition fill_slot :: "bool \<Rightarrow> (nat \<Rightarrow> bool) \<Rightarrow> nat list \<Rightarrow> column_hint \<Rightarrow> nat list res" where
  "fill_slot chk known out hint =
     (case ch_type_oid hint of
        None \<Rightarrow> Inr out
      | Some oid \<Rightarrow>
          bind_res (usize_pred chk (ch_index hint)) (\<lambda>i.
            Inr (if i < length out then out[i := (if known oid then oid else text_oid)] else out)))"

fun fill_slots :: "bool \<Rightarrow> (nat \<Rightarrow> bool) \<Rightarrow> nat list \<Rightarrow> column_hint list \<Rightarrow> nat list res" where
  "fill_slots chk known out [] = Inr out"
| "fill_slots chk known out (c # cs) = bind_res (fill_slot chk known out c) (\<lambda>out'. fill_slots chk known out' cs)"

definition param_types :: "bool \<Rightarrow> (nat \<Rightarrow> bool) \<Rightarrow> runtime \<Rightarrow> nat \<Rightarrow> column_hint list \<Rightarrow> nat list res" where
  "param_types chk known R max_index columns =
     (let m = max max_index (foldl max 0 (map ch_index columns)) in
      if m = 0 then Inr []
      else bind_res (vec_repeat (type_size R) text_oid m) (\<lambda>out. fill_slots chk known out columns))"

definition infer_param_types ::
  "bool \<Rightarrow> (nat \<Rightarrow> bool) \<Rightarrow> runtime \<Rightarrow> 'db driver \<Rightarrow> 'x sqlparser \<Rightarrow> 'db \<Rightarrow> string \<Rightarrow> 'db \<times> nat list res" where
  "infer_param_types chk known R D P conn sql =
     (case parse_hints P sql of
        None \<Rightarrow> (conn, Inr [])
      | Some h \<Rightarrow>
          (if h_columns h = [] then (conn, param_types chk known R (h_max_index h) [])
           else case catalog_is_sqlite D conn of (conn1, is_sqlite) \<Rightarrow>
             case resolve_hints R D is_sqlite (h_tables h) conn1 (h_columns h) of (conn2, columns) \<Rightarrow>
               (conn2, param_types chk known R (h_max_index h) columns)))"

section \<open>Every hint has a slot\<close>

text \<open>What the collection keeps: no hint is beyond the highest index, and none has a type yet.\<close>

definition hints_ok :: "hints \<Rightarrow> bool" where
  "hints_ok h \<longleftrightarrow> (\<forall>c \<in> set (h_columns h). ch_index c \<le> h_max_index h \<and> ch_type_oid c = None)"

text \<open>
  The contract of every collecting operation, and of the loops over it: it keeps \<open>hints_ok\<close> and only
  adds, so what was noted earlier stays noted.
\<close>

definition extends :: "hints \<Rightarrow> hints \<Rightarrow> bool" where
  "extends h h' \<longleftrightarrow>
     (\<exists>more. h_columns h' = h_columns h @ more) \<and> h_max_index h \<le> h_max_index h' \<and>
     (hints_ok h \<longrightarrow> hints_ok h')"

lemma extends_refl [simp]: "extends h h"
  by (simp add: extends_def)

lemma extends_trans: "extends h h1 \<Longrightarrow> extends h1 h2 \<Longrightarrow> extends h h2"
  unfolding extends_def by auto

lemma extends_ok: "extends h h' \<Longrightarrow> hints_ok h \<Longrightarrow> hints_ok h'"
  by (simp add: extends_def)

locale collector =
  fixes collect :: "hints \<Rightarrow> 'a \<Rightarrow> hints"
  assumes collect_extends: "extends h (collect h a)"
begin

lemma fold_extends: "extends h (foldl collect h xs)"
proof (induction xs arbitrary: h)
  case (Cons a xs)
  show ?case using extends_trans [OF collect_extends Cons.IH] by simp
qed simp

lemma fold_ok: "hints_ok h \<Longrightarrow> hints_ok (foldl collect h xs)"
  by (rule extends_ok [OF fold_extends])

end

lemma add_table_extends: "extends h (add_table t h)"
  by (simp add: extends_def add_table_def hints_ok_def)

lemma push_hint_extends: "extends h (push_hint i c h)"
  by (auto simp: extends_def push_hint_def hints_ok_def)

lemma note_column_extends: "extends h (note_column_placeholder h e table t)"
  by (simp add: note_column_placeholder_def push_hint_extends split: option.split)

lemma note_comparison_extends: "extends h (note_comparison P h l oper r table)"
  by (simp add: note_comparison_def note_column_extends)

lemma note_pattern_extends: "extends h (note_pattern P h l p table)"
  by (simp add: note_pattern_def note_column_extends)

lemma foldl_extends: "(\<And>h x. x \<in> set xs \<Longrightarrow> extends h (f h x)) \<Longrightarrow> extends h (foldl f h xs)"
proof (induction xs arbitrary: h)
  case (Cons a xs)
  then have "extends h (f h a)" "extends (f h a) (foldl f (f h a) xs)" by simp_all
  then show ?case using extends_trans by simp
qed simp

lemma walk_extends:
  fixes e :: "'x expr" and f :: "'x func" and args :: "'x fn_args" and a :: "'x fn_arg"
  shows "extends h (walk e P table h)" "extends h (walk_func f P table h)"
    "extends h (walk_args args P table h)" "extends h (walk_arg a P table h)"
proof (induction e and f and args and a arbitrary: h and h and h and h)
  case (BinaryOp l oper r)
  then show ?case using note_comparison_extends extends_trans by (metis walk.simps(4))
next
  case (Like neg any l p esc)
  then show ?case using note_pattern_extends extends_trans by (metis walk.simps(8))
next
  case (ILike neg any l p esc)
  then show ?case using note_pattern_extends extends_trans by (metis walk.simps(9))
next
  case (InList l items x)
  then show ?case by (simp add: foldl_extends note_column_extends)
next
  case (Between b low high x)
  then show ?case using note_column_extends extends_trans by simp blast
next
  case (ListArgs dup args clauses)
  then show ?case by (auto intro!: foldl_extends)
qed simp_all

interpretation assignments: collector "note_assignment P tbl" for P tbl
  by unfold_locales (simp add: note_assignment_def note_column_extends split: assignment_target.split)

interpretation row_values: collector "note_value tbl cols" for tbl cols
  by unfold_locales (simp add: note_value_def push_hint_extends split: option.split)

interpretation tables: collector "\<lambda>h t. add_table t h"
  by unfold_locales (rule add_table_extends)

lemma collect_from_extends: "extends h (fst ho) \<Longrightarrow> extends h (fst (collect_from_item P ho tf))"
  using extends_trans [OF _ add_table_extends]
  by (auto simp: collect_from_item_def Let_def split: option.split)

lemma collect_fold_extends: "extends h (fst ho) \<Longrightarrow> extends h (fst (foldl (collect_from_item P) ho tfs))"
  by (induction tfs arbitrary: ho) (simp_all add: collect_from_extends)

lemma collect_items_extends:
  "extends h (fst ho) \<Longrightarrow>
   extends h (fst (foldl (\<lambda>ho item. foldl (collect_from_item P) (collect_from_item P ho (twj_relation item)) (twj_joins item))
     ho items))"
  by (induction items arbitrary: ho) (simp_all add: collect_fold_extends collect_from_extends)

lemma walk_query_extends: "extends h (walk_query P h q)"
proof (cases "q_body q")
  case (Select sel)
  obtain h1 ts where f: "foldl (\<lambda>ho item. foldl (collect_from_item P) (collect_from_item P ho (twj_relation item)) (twj_joins item))
      (h, []) (sel_from sel) = (h1, ts)" by (cases "foldl (\<lambda>ho item. foldl (collect_from_item P)
      (collect_from_item P ho (twj_relation item)) (twj_joins item)) (h, []) (sel_from sel)")
  have "extends h h1" using collect_items_extends [of h "(h, [])" P "sel_from sel"] f by simp
  then have "extends h (foldl (\<lambda>h t. add_table t h) h1 ts)"
    using tables.fold_extends extends_trans by blast
  then show ?thesis
    using \<open>extends h h1\<close> walk_extends(1) extends_trans Select f
    by (auto simp: walk_query_def walk_expr_def split: option.split) blast+
qed (simp_all add: walk_query_def)

lemma note_source_extends: "extends h (note_source tbl cols h source)"
  by (auto simp: note_source_def intro!: foldl_extends row_values.fold_extends split: option.split set_expr.split)

lemma note_conflict_extends: "extends h (note_conflict P tbl h on)"
  by (auto simp: note_conflict_def intro!: assignments.fold_extends split: option.split on_insert.split)

lemma walk_insert_extends: "extends h (walk_insert P h ins)"
proof (cases "ins_table ins")
  case (TableName name)
  then show ?thesis
    by (simp add: walk_insert_def Let_def)
      (rule extends_trans [OF extends_trans [OF add_table_extends note_source_extends] note_conflict_extends])
qed (simp add: walk_insert_def)

lemma walk_update_extends: "extends h (walk_update P h upd)"
proof (cases "factor_name (twj_relation (upd_table upd))")
  case (Some name)
  have "extends h (foldl (note_assignment P (last_ident P name)) (add_table (last_ident P name) h) (upd_assignments upd))"
    using add_table_extends assignments.fold_extends extends_trans by blast
  then show ?thesis
    using Some walk_extends(1) extends_trans
    by (auto simp: walk_update_def walk_expr_def Let_def split: option.split) blast
qed (simp add: walk_update_def)

lemma walk_delete_extends: "extends h (walk_delete P h del)"
  using add_table_extends walk_extends(1) extends_trans
  by (auto simp: walk_delete_def walk_expr_def Let_def split: list.split option.split) blast

lemma walk_statement_extends: "extends h (walk_statement P h stmt)"
  by (cases stmt) (simp_all add: walk_insert_extends walk_update_extends walk_delete_extends walk_query_extends)

interpretation statements: collector "walk_statement P" for P
  by unfold_locales (rule walk_statement_extends)

lemma parse_hints_ok: "parse_hints P sql = Some h \<Longrightarrow> hints_ok h"
proof -
  have "hints_ok no_hints" by (simp add: hints_ok_def no_hints_def)
  then show "parse_hints P sql = Some h \<Longrightarrow> hints_ok h"
    using statements.fold_ok by (auto simp: parse_hints_def split: sum.splits)
qed

lemma resolve_hint_index: "ch_index (snd (resolve_hint R D b tables conn c)) = ch_index c"
  by (auto simp: resolve_hint_def split: option.splits prod.splits)

lemma resolve_hints_indices:
  "map ch_index (snd (resolve_hints R D b tables conn cs)) = map ch_index cs"
proof (induction cs arbitrary: conn)
  case (Cons c cs)
  obtain c1 h1 where a: "resolve_hint R D b tables conn c = (c1, h1)" by (cases "resolve_hint R D b tables conn c")
  obtain c2 hs where b: "resolve_hints R D b tables c1 cs = (c2, hs)" by (cases "resolve_hints R D b tables c1 cs")
  from Cons.IH [of c1] resolve_hint_index [of R D b tables conn c] a b show ?case by simp
qed simp

lemma foldl_max_le: "foldl max (a :: nat) xs \<le> m \<longleftrightarrow> a \<le> m \<and> (\<forall>x \<in> set xs. x \<le> m)"
  by (induction xs arbitrary: a) auto

text \<open>
  The type of the parameter numbered \<open>n\<close> by a list of hints: the one the last hint for it gives, when
  the wire protocol knows it, and TEXT otherwise.
\<close>

definition slot_type :: "(nat \<Rightarrow> bool) \<Rightarrow> column_hint list \<Rightarrow> nat \<Rightarrow> nat" where
  "slot_type known cs n =
     (case rev (List.map_filter ch_type_oid (filter (\<lambda>c. ch_index c = n) cs)) of
        [] \<Rightarrow> text_oid
      | oid # _ \<Rightarrow> (if known oid then oid else text_oid))"

text \<open>The same, on top of what the slot holds already.\<close>

definition slot_over :: "(nat \<Rightarrow> bool) \<Rightarrow> column_hint list \<Rightarrow> nat \<Rightarrow> nat \<Rightarrow> nat" where
  "slot_over known cs n old =
     (case rev (List.map_filter ch_type_oid (filter (\<lambda>c. ch_index c = n) cs)) of
        [] \<Rightarrow> old
      | oid # _ \<Rightarrow> (if known oid then oid else text_oid))"

lemma slot_over_Cons:
  "slot_over known (c # cs) n old =
     slot_over known cs n
       (if ch_index c = n then (case ch_type_oid c of None \<Rightarrow> old | Some oid \<Rightarrow> if known oid then oid else text_oid) else old)"
  by (auto simp: slot_over_def map_filter_def split: list.split option.split)

lemma fill_slots_over:
  assumes "\<forall>c \<in> set cs. ch_index c \<noteq> 0"
  shows "\<exists>out'. fill_slots chk known out cs = Inr out' \<and> length out' = length out \<and>
    (\<forall>i < length out. out' ! i = slot_over known cs (Suc i) (out ! i))"
  using assms
proof (induction cs arbitrary: out)
  case Nil
  then show ?case by (simp add: slot_over_def map_filter_def)
next
  case (Cons c cs)
  let ?new = "\<lambda>i. if ch_index c = Suc i
      then (case ch_type_oid c of None \<Rightarrow> out ! i | Some oid \<Rightarrow> if known oid then oid else text_oid) else out ! i"
  from Cons.prems obtain k where k: "ch_index c = Suc k" by (cases "ch_index c") simp_all
  then have "\<exists>out1. fill_slot chk known out c = Inr out1 \<and> length out1 = length out \<and> (\<forall>i < length out. out1 ! i = ?new i)"
    by (auto simp: fill_slot_def usize_pred_def nth_list_update split: option.split)
  then obtain out1 where o1: "fill_slot chk known out c = Inr out1" "length out1 = length out"
    "\<forall>i < length out. out1 ! i = ?new i" by blast
  from Cons.IH [of out1] Cons.prems obtain out2 where
    "fill_slots chk known out1 cs = Inr out2" "length out2 = length out1"
    "\<forall>i < length out1. out2 ! i = slot_over known cs (Suc i) (out1 ! i)" by auto
  with o1 show ?case by (auto simp: slot_over_Cons)
qed

lemma param_types_ok:
  assumes "\<forall>c \<in> set cs. ch_index c \<le> m \<and> ch_index c \<noteq> 0"
  shows "if type_size R * m < 2 ^ 63
    then \<exists>out. param_types chk known R m cs = Inr out \<and> length out = m \<and> (\<forall>i < m. out ! i = slot_type known cs (Suc i))
    else param_types chk known R m cs = Inl Panic"
proof -
  have "foldl max 0 (map ch_index cs) \<le> m" using assms by (simp add: foldl_max_le)
  then have m: "max m (foldl max 0 (map ch_index cs)) = m" by simp
  show ?thesis
  proof (cases "m = 0")
    case True
    with m show ?thesis by (simp add: param_types_def)
  next
    case False
    have "slot_over known cs n text_oid = slot_type known cs n" for n
      by (simp add: slot_over_def slot_type_def)
    with fill_slots_over [of cs chk known "replicate m text_oid"] assms m False show ?thesis
      by (auto simp: param_types_def vec_repeat_def Let_def)
  qed
qed

text \<open>
  What the catalogue says of one hint, asked on some state of the connection: the declared type of the
  hint's column, in the hint's table or, when it names none, in the first table of the statement that has
  the column.
\<close>

definition hint_asked :: "runtime \<Rightarrow> 'db driver \<Rightarrow> bool \<Rightarrow> string list \<Rightarrow> column_hint \<Rightarrow> column_hint \<Rightarrow> bool" where
  "hint_asked R D is_sqlite tables c c' \<longleftrightarrow>
     ch_index c' = ch_index c \<and>
     (case ch_column c of
        None \<Rightarrow> ch_type_oid c' = None
      | Some (Some t, column) \<Rightarrow> (\<exists>k. ch_type_oid c' = snd (declared_oid R D k t column is_sqlite))
      | Some (None, column) \<Rightarrow> (\<exists>k. ch_type_oid c' = snd (search_tables R D k tables column is_sqlite)))"

lemma resolve_hint_asked:
  assumes "ch_type_oid c = None"
  shows "hint_asked R D b tables c (snd (resolve_hint R D b tables conn c))"
  unfolding hint_asked_def resolve_hint_def using assms
  by (auto split: option.splits prod.splits intro: exI [of _ conn])

lemma resolve_hints_asked:
  assumes "\<forall>c \<in> set cs. ch_type_oid c = None"
  shows "list_all2 (hint_asked R D b tables) cs (snd (resolve_hints R D b tables conn cs))"
  using assms
proof (induction cs arbitrary: conn)
  case (Cons c cs)
  obtain c1 h1 where a: "resolve_hint R D b tables conn c = (c1, h1)" by (cases "resolve_hint R D b tables conn c")
  obtain c2 hs where r: "resolve_hints R D b tables c1 cs = (c2, hs)" by (cases "resolve_hints R D b tables c1 cs")
  from Cons resolve_hint_asked [of c R D b tables conn] a r Cons.IH [of c1] show ?case by simp
qed simp


text \<open>
  The walk over a query looks at its \<open>WHERE\<close> clause only: the placeholder of \<open>SELECT $1\<close> is not noted, and
  the statement is announced without parameters.
\<close>

lemma selected_placeholder_not_noted:
  assumes "parse_sql P FrontPostgres sql = Inr [Query q]"
    "q_body q = Select sel" "sel_projection sel = [UnnamedExpr (ValueExpr (Placeholder ''$1''))]"
    "sel_from sel = []" "sel_selection sel = None"
  shows "snd (infer_param_types chk known R D P conn sql) = Inr []"
  using assms
  by (simp add: infer_param_types_def parse_hints_def walk_query_def no_hints_def param_types_def)

section \<open>Inserted parameters\<close>

definition numbered :: "nat \<Rightarrow> 'x expr" where
  "numbered n = ValueExpr (Placeholder (CHR ''$'' # show_nat n))"

lemma placeholder_index_numbered: "n < 2 ^ 64 \<Longrightarrow> placeholder_index (numbered n) = Some n"
proof -
  assume n: "n < 2 ^ 64"
  have "hd (show_nat n) \<in> set (show_nat n)" by simp
  then have "is_ascii_digit (hd (show_nat n))" by (rule show_nat_digits)
  then have "hd (show_nat n) \<noteq> CHR ''$''" using digit_not_quote by blast
  then have "trim_start (\<lambda>c. c = CHR ''$'') (CHR ''$'' # show_nat n) = show_nat n"
    by (cases "show_nat n") (auto simp: trim_start_def)
  then show ?thesis using parse_usize_show_nat [OF n] by (simp add: numbered_def)
qed

definition insert_hint :: "string \<Rightarrow> string list \<Rightarrow> nat \<Rightarrow> column_hint" where
  "insert_hint tbl cols i =
     \<lparr>ch_index = i + 1, ch_column = Some (Some tbl, cols ! i), ch_type_oid = None\<rparr>"

lemma note_values_numbered:
  assumes "n \<le> length cols" "n < 2 ^ 64"
  shows "foldl (note_value tbl cols) h (enumerate 0 (map (\<lambda>i. numbered (Suc i)) [0..<n])) =
    h\<lparr>h_max_index := max (h_max_index h) n, h_columns := h_columns h @ map (insert_hint tbl cols) [0..<n]\<rparr>"
  using assms
proof (induction n)
  case (Suc n)
  then show ?case
    by (simp add: placeholder_index_numbered enumerate_append_eq note_value_def get_def push_hint_def insert_hint_def)
qed simp

lemma insert_hints:
  assumes "parse_sql P FrontPostgres sql = Inr [Insert ins]" "ins_table ins = TableName name"
    "ins_source ins = Some q" "q_body q = Values [map (\<lambda>i. numbered (i + 1)) [0..<n]]" "ins_on ins = None"
    "cols = map (\<lambda>c. to_ascii_lowercase (show_name P c)) (ins_columns ins)" "n \<le> length cols" "n < 2 ^ 64"
  shows "parse_hints P sql = Some \<lparr>h_columns = map (insert_hint (last_ident P name) cols) [0..<n],
    h_tables = [last_ident P name], h_max_index = n\<rparr>"
  using assms
  by (simp add: note_values_numbered parse_hints_def walk_insert_def note_source_def note_conflict_def no_hints_def add_table_def
      btree_insert_def Let_def)

text \<open>
  The parameters of a plain \<open>INSERT\<close> are tied to their columns: for an insert of one row
  \<open>VALUES ($1, .., $n)\<close> into \<open>n\<close> or more named columns, the hints are exactly \<open>n\<close>, the \<open>i\<close>-th
  for parameter \<open>i\<close> at the \<open>i\<close>-th column of that table, and the statement has \<open>n\<close> parameters.
\<close>

theorem insert_hints_exact:
  assumes "parse_sql P FrontPostgres sql = Inr [Insert ins]" "ins_table ins = TableName name"
    "ins_source ins = Some q" "q_body q = Values [map (\<lambda>i. numbered (i + 1)) [0..<n]]" "ins_on ins = None"
    "cols = map (\<lambda>c. to_ascii_lowercase (show_name P c)) (ins_columns ins)" "n \<le> length cols" "n < 2 ^ 64"
  shows "parse_hints P sql = Some \<lparr>h_columns = map (insert_hint (last_ident P name) cols) [0..<n],
    h_tables = [last_ident P name], h_max_index = n\<rparr>"
  by (rule insert_hints [OF assms])

definition two_column_insert :: "unit insert" where
  "two_column_insert = sample_insert\<lparr>ins_table := TableName [ident_new ''Users''],
     ins_columns := [[ident_new ''Id''], [ident_new ''Name'']],
     ins_source := Some \<lparr>q_body = Values [map (\<lambda>i. numbered (i + 1)) [0..<2]], q_limit_clause = None, q_rest = ()\<rparr>,
     ins_on := None\<rparr>"

definition insert_parser :: "unit sqlparser" where
  "insert_parser = sample_parser\<lparr>parse_sql := \<lambda>f s. Inr [Insert two_column_insert]\<rparr>"

lemma insert_parser_hints:
  "parse_hints insert_parser sql =
     Some \<lparr>h_columns = map (insert_hint ''users'' [''id'', ''name'']) [0..<2], h_tables = [''users''], h_max_index = 2\<rparr>"
proof -
  have l: "last_ident insert_parser [ident_new ''Users''] = ''users''"
    by code_simp
  have c: "[''id'', ''name''] = map (\<lambda>c. to_ascii_lowercase (show_name insert_parser c)) (ins_columns two_column_insert)"
    by code_simp
  have "parse_hints insert_parser sql =
     Some \<lparr>h_columns = map (insert_hint (last_ident insert_parser [ident_new ''Users'']) [''id'', ''name'']) [0..<2],
       h_tables = [last_ident insert_parser [ident_new ''Users'']], h_max_index = 2\<rparr>"
    by (rule insert_hints [where ins = two_column_insert and q = "\<lparr>q_body = Values [map (\<lambda>i. numbered (i + 1)) [0..<2]],
        q_limit_clause = None, q_rest = ()\<rparr>", OF _ _ _ _ _ c]) (simp_all add: insert_parser_def two_column_insert_def)
  then show ?thesis by (simp only: l)
qed

theorem insert_hints_exact_witness:
  "\<exists>tbl cols. parse_hints insert_parser ''INSERT INTO Users (Id, Name) VALUES ($1, $2)'' =
     Some \<lparr>h_columns = map (insert_hint tbl cols) [0..<2], h_tables = [tbl], h_max_index = 2\<rparr>"
proof -
  let ?cols = "map (\<lambda>c. to_ascii_lowercase (show_name insert_parser c)) (ins_columns two_column_insert)"
  have "parse_sql insert_parser FrontPostgres ''INSERT INTO Users (Id, Name) VALUES ($1, $2)'' = Inr [Insert two_column_insert]"
    "ins_table two_column_insert = TableName [ident_new ''Users'']" "ins_on two_column_insert = None"
    "ins_source two_column_insert = Some \<lparr>q_body = Values [map (\<lambda>i. numbered (i + 1)) [0..<2]], q_limit_clause = None, q_rest = ()\<rparr>"
    by (simp_all add: insert_parser_def two_column_insert_def)
  from insert_hints_exact [OF this(1,2,4) _ this(3) refl, of 2] show ?thesis
    by (auto simp: two_column_insert_def)
qed


end
