(* ===== verification/Holes.thy ===== *)
theory Holes
  imports Lexemes Placeholders
begin

text \<open>
  Statements with placeholders, as the grammar of \<open>Lexemes\<close> reads them: a sequence of lexemes and holes.
  The values bound are put in the holes; the lexemes around them are read as before, whatever the values
  hold. Both front ends rest on this: \<open>substitute_placeholders\<close> here, and the prepared statements of the
  MySQL protocol in \<open>Mysql_Prepared\<close>.
\<close>

section \<open>Lexemes and holes\<close>

datatype piece =
    Piece lexeme
  | Numbered nat   \<comment> \<open>\<open>$n\<close>\<close>
  | Mark           \<comment> \<open>\<open>?\<close>\<close>

fun written :: "piece list \<Rightarrow> string" where
  "written [] = []"
| "written (Piece x # ps) = spell x @ written ps"
| "written (Numbered n # ps) = CHR ''$'' # show_nat n @ written ps"
| "written (Mark # ps) = CHR ''?'' # written ps"

fun holes :: "piece list \<Rightarrow> nat" where
  "holes [] = 0"
| "holes (Piece x # ps) = holes ps"
| "holes (h # ps) = Suc (holes ps)"

text \<open>The values, a sequence of lexemes for each hole in order.\<close>

fun fill :: "lexeme list list \<Rightarrow> piece list \<Rightarrow> lexeme list" where
  "fill vs [] = []"
| "fill vs (Piece x # ps) = x # fill vs ps"
| "fill [] (h # ps) = fill [] ps"
| "fill (v # vs) (h # ps) = v @ fill vs ps"

definition spelled :: "lexeme list \<Rightarrow> string" where
  "spelled xs = concat (map spell xs)"

lemma spelled_simps [simp]:
  "spelled [] = []" "spelled (x # xs) = spell x @ spelled xs" "spelled (xs @ ys) = spelled xs @ spelled ys"
  by (simp_all add: spelled_def)

lemma spelled_chars [simp]: "spelled (map LChar s) = s"
  by (induction s) simp_all

text \<open>
  A statement whose holes stand where a value may: with an empty literal in every hole it is read as its
  lexemes and those literals. A dollar sign of its own, which could make a dollar quote with what follows,
  and a lexeme that the end of the text cuts off are not among its lexemes.
\<close>

fun whole :: "lexeme \<Rightarrow> bool" where
  "whole (LChar c) \<longleftrightarrow> c \<noteq> CHR ''$''"
| "whole (LOpenString v) \<longleftrightarrow> False"
| "whole (LOpenIdent q v) \<longleftrightarrow> False"
| "whole (LOpenBlock v) \<longleftrightarrow> False"
| "whole x \<longleftrightarrow> True"

definition blanks :: "piece list \<Rightarrow> lexeme list" where
  "blanks ps = fill (replicate (holes ps) [LString []]) ps"

lemma blanks_simps [simp]:
  "blanks [] = []" "blanks (Piece x # ps) = x # blanks ps"
  "blanks (Numbered n # ps) = LString [] # blanks ps" "blanks (Mark # ps) = LString [] # blanks ps"
  by (simp_all add: blanks_def)

definition has_place :: "piece list \<Rightarrow> bool" where
  "has_place ps \<longleftrightarrow> (\<forall>x. Piece x \<in> set ps \<longrightarrow> whole x) \<and> lexes (blanks ps) (spelled (blanks ps))"

lemma lexes_spelled_Cons: "lexes (x # xs) (spelled (x # xs)) \<longleftrightarrow> stands_before x (spelled xs) \<and> lexes xs (spelled xs)"
  by (auto simp: lexes_Cons)

lemma has_place_Cons:
  assumes "has_place (p # ps)"
  shows "has_place ps" "p = Piece x \<Longrightarrow> whole x \<and> stands_before x (spelled (blanks ps))"
    "(\<nexists>x. p = Piece x) \<Longrightarrow> spelled (blanks ps) = [] \<or> hd (spelled (blanks ps)) \<noteq> squote"
  using assms by (cases p; auto simp: has_place_def lexes_Cons)+

section \<open>The values do not change how the statement is read\<close>

text \<open>A value is a string literal or the word \<open>NULL\<close>.\<close>

fun value_lexemes :: "string option \<Rightarrow> lexeme list" where
  "value_lexemes (Some s) = [LString s]"
| "value_lexemes None = map LChar ''NULL''"

text \<open>What stands before a text looks no further than its first character, dollar signs aside.\<close>

lemma stands_before_first:
  assumes "stands_before x r" "whole x" "r = [] \<longleftrightarrow> r' = []" "r' \<noteq> [] \<Longrightarrow> hd r' = hd r \<or> hd r = squote \<and> hd r' = CHR ''N''"
  shows "stands_before x r'"
  using assms by (cases x; cases r; cases r') (auto simp: starts_with_def)

lemma hd_fill:
  assumes "length vs = holes ps"
  shows "(spelled (fill (map value_lexemes vs) ps) = [] \<longleftrightarrow> spelled (blanks ps) = []) \<and>
    (spelled (blanks ps) \<noteq> [] \<longrightarrow> hd (spelled (fill (map value_lexemes vs) ps)) = hd (spelled (blanks ps)) \<or>
       hd (spelled (blanks ps)) = squote \<and> hd (spelled (fill (map value_lexemes vs) ps)) = CHR ''N'')"
proof (cases ps)
  case (Cons p qs)
  show ?thesis
  proof (cases p)
    case (Piece x)
    with Cons show ?thesis by simp
  qed (use assms Cons in \<open>cases vs; cases "hd vs"; simp\<close>)+
qed simp

lemma stands_before_fill:
  assumes "stands_before x (spelled (blanks ps))" "whole x" "length vs = holes ps"
  shows "stands_before x (spelled (fill (map value_lexemes vs) ps))"
  using stands_before_first [OF assms(1,2)] hd_fill [OF assms(3)] by blast

lemma lexes_chars:
  assumes "\<forall>c \<in> set s. c \<notin> {squote, dquote, backtick, CHR ''$'', CHR ''-'', CHR ''/''}" "lexes xs rest"
  shows "lexes (map LChar s @ xs) (s @ rest)"
  using assms(1) by (induction s) (auto simp: lexes_Cons assms(2))

lemma lexes_value:
  assumes "lexes xs (spelled xs)" "spelled xs = [] \<or> hd (spelled xs) \<noteq> squote"
  shows "lexes (value_lexemes v @ xs) (spelled (value_lexemes v @ xs))"
proof (cases v)
  case None
  then show ?thesis using lexes_chars [of "''NULL''", OF _ assms(1)] by simp
next
  case (Some s)
  then show ?thesis using assms by (simp add: lexes_Cons)
qed

lemma lexes_fill:
  assumes "has_place ps" "length vs = holes ps"
  shows "lexes (fill (map value_lexemes vs) ps) (spelled (fill (map value_lexemes vs) ps))"
  using assms
proof (induction ps arbitrary: vs)
  case (Cons p ps)
  note place = has_place_Cons [OF Cons.prems(1)]
  show ?case
  proof (cases "\<exists>x. p = Piece x")
    case True
    then obtain x where p: "p = Piece x" by blast
    then have "stands_before x (spelled (fill (map value_lexemes vs) ps))"
      using place(2) [of x] Cons.prems(2) by (intro stands_before_fill) auto
    with p Cons.IH [OF place(1), of vs] Cons.prems(2) show ?thesis by (auto simp: lexes_Cons)
  next
    case False
    then have "holes (p # ps) = Suc (holes ps)" by (cases p) auto
    with Cons.prems(2) obtain v ws where vs: "vs = v # ws" "length ws = holes ps" by (cases vs) auto
    have fill: "fill (map value_lexemes vs) (p # ps) = value_lexemes v @ fill (map value_lexemes ws) ps"
      using False vs(1) by (cases p) auto
    have "stands_before (LString []) (spelled (fill (map value_lexemes ws) ps))"
      using place(3) False stands_before_fill [of "LString []" ps ws] vs(2) by auto
    then show ?thesis
      unfolding fill using Cons.IH [OF place(1) vs(2)] by (intro lexes_value) auto
  qed
qed (simp add: has_place_def)

section \<open>The substitution of the PostgreSQL front end\<close>

text \<open>
  The statements whose holes the substitution sees: outside string literals there is no single quote, no
  dollar sign and no question mark but the holes', and no digit follows the number of a hole. Comments
  and quoted identifiers may hold anything else. No literal or hole touches a word before it, which would
  make it another kind of literal (\<open>E''\<close> strings, where a backslash escapes).
\<close>

fun starts_with_literal :: "piece list \<Rightarrow> bool" where
  "starts_with_literal (Piece (LString v) # ps) \<longleftrightarrow> True"
| "starts_with_literal (Numbered n # ps) \<longleftrightarrow> True"
| "starts_with_literal (Mark # ps) \<longleftrightarrow> True"
| "starts_with_literal ps \<longleftrightarrow> False"

fun seen_by_substitution :: "piece list \<Rightarrow> bool" where
  "seen_by_substitution [] \<longleftrightarrow> True"
| "seen_by_substitution (p # ps) \<longleftrightarrow>
     (case p of
        Piece (LString v) \<Rightarrow> True
      | Piece x \<Rightarrow> set (spell x) \<inter> {squote, CHR ''$'', CHR ''?''} = {} \<and>
          (\<forall>c \<in> set (spell x). x = LChar c \<and> (is_word_char c \<or> c = CHR ''&'') \<longrightarrow> \<not> starts_with_literal ps)
      | Numbered n \<Rightarrow> 0 < n \<and> n < 2 ^ 64 \<and> (written ps = [] \<or> \<not> is_ascii_digit (hd (written ps)))
      | Mark \<Rightarrow> True) \<and> seen_by_substitution ps"

text \<open>The values in the order of the holes: \<open>$n\<close> takes the n-th, and the k-th hole's \<open>?\<close> the k-th.\<close>

fun hole_values :: "'a list \<Rightarrow> nat \<Rightarrow> piece list \<Rightarrow> 'a list" where
  "hole_values vs k [] = []"
| "hole_values vs k (Piece x # ps) = hole_values vs k ps"
| "hole_values vs k (Numbered n # ps) = vs ! (n - 1) # hole_values vs (Suc k) ps"
| "hole_values vs k (Mark # ps) = vs ! k # hole_values vs (Suc k) ps"

fun values_suffice :: "nat \<Rightarrow> nat \<Rightarrow> piece list \<Rightarrow> bool" where
  "values_suffice m k [] \<longleftrightarrow> True"
| "values_suffice m k (Piece x # ps) \<longleftrightarrow> values_suffice m k ps"
| "values_suffice m k (Numbered n # ps) \<longleftrightarrow> n \<le> m \<and> values_suffice m (Suc k) ps"
| "values_suffice m k (Mark # ps) \<longleftrightarrow> k < m \<and> values_suffice m (Suc k) ps"

lemma length_hole_values [simp]: "length (hole_values vs k ps) = holes ps"
  by (induction vs k ps rule: hole_values.induct) simp_all

text \<open>After a string literal there is no hole, and no quote.\<close>

lemma written_after_literal:
  assumes "stands_before (LString v) (spelled (blanks ps))"
  shows "written ps = [] \<or> hd (written ps) \<noteq> squote"
proof (cases ps)
  case (Cons p qs)
  with assms show ?thesis by (cases p) (auto simp: hd_append)
qed simp

lemma substitute_pieces:
  assumes "has_place ps" "seen_by_substitution ps" "values_suffice (length vs) k ps"
  shows "substitute_from chk (map (\<lambda>v. quote_string_literal v target) vs) k (written ps) =
    Inr (spelled (fill (map value_lexemes (map Some (hole_values vs k ps))) ps))"
  using assms
proof (induction ps arbitrary: k)
  case (Cons p ps)
  note place = has_place_Cons [OF Cons.prems(1)]
  show ?case
  proof (cases p)
    case (Piece x)
    have IH: "substitute_from chk (map (\<lambda>v. quote_string_literal v target) vs) k (written ps) =
        Inr (spelled (fill (map value_lexemes (map Some (hole_values vs k ps))) ps))"
      using Cons.IH [OF place(1)] Cons.prems Piece by simp
    show ?thesis
    proof (cases "\<exists>v. x = LString v")
      case True
      then obtain v where x: "x = LString v" by blast
      have "written ps = [] \<or> hd (written ps) \<noteq> squote"
        using place(2) [of x] Piece x by (intro written_after_literal) auto
      from scan_quoted_body [OF this, of v] IH Piece x show ?thesis by (simp add: substitute_from.simps(2))
    next
      case False
      then have "set (spell x) \<inter> {squote, CHR ''$'', CHR ''?''} = {}"
        using Cons.prems(2) Piece by (cases x) auto
      then have "substitute_from chk lits k (spell x @ rest) = prepend (spell x) (substitute_from chk lits k rest)" for lits rest
        by (intro substitute_text) auto
      with IH Piece show ?thesis by simp
    qed
  next
    case (Numbered n)
    with Cons.prems(2,3) have "n - 1 < length vs" by auto
    with Numbered Cons.prems Cons.IH [OF place(1), of "Suc k"] show ?thesis
      by (simp add: substitute_dollar numbered_literal_show_nat literal_at_def quote_string_literal_def)
  next
    case Mark
    with Cons.prems Cons.IH [OF place(1), of "Suc k"] show ?thesis
      by (simp add: substitute_from.simps(2) literal_at_def quote_string_literal_def)
  qed
qed simp

end
