(* ===== verification/Pg_Server.thy ===== *)
theory Pg_Server
  imports Pg_Params Holes
begin

text \<open>
  The PostgreSQL front end, \<open>src/server/pg.rs\<close>: authentication, errors, the encoding of result rows,
  the simple query protocol, and the extended one (describing statements and portals, rendering bound
  parameters as literals). The wire crate pgwire is a parameter: \<open>known\<close> says which OIDs it has a type
  for, the record \<open>portal\<close> holds what a \<open>Portal\<close> gives (its parameters decoded at a type, its result
  formats), and an \<open>encoder\<close> is \<open>DataRowEncoder::encode_field\<close>. Types are their OIDs.
\<close>

section \<open>Errors\<close>

record error_info =
  ei_severity :: string
  ei_code :: string
  ei_message :: string

datatype pg_error =
    InvalidPassword string
  | UserError error_info
  | WireError string   \<comment> \<open>any other error the crate returns\<close>

text \<open>How a handler fails: with an error it sends, or by a panic that ends the connection's task.\<close>

datatype pg_fault = Sent pg_error | Crash

definition sanitize :: "string \<Rightarrow> string" where
  "sanitize s = map (\<lambda>c. if is_control c then CHR '' '' else c) s"

definition user_error :: "string \<Rightarrow> error \<Rightarrow> pg_error" where
  "user_error code e = UserError \<lparr>ei_severity = ''ERROR'', ei_code = code, ei_message = sanitize (display_error e)\<rparr>"

fun to_pgerr :: "error \<Rightarrow> pg_error" where
  "to_pgerr (Parse m) = user_error ''42000'' (Parse m)"
| "to_pgerr (Translate m) = user_error ''42000'' (Translate m)"
| "to_pgerr (Config m) = user_error ''42000'' (Config m)"
| "to_pgerr (Unsupported m) = user_error ''42000'' (Unsupported m)"
| "to_pgerr e = user_error ''XX000'' e"

fun pg_fault_of :: "fault \<Rightarrow> pg_fault" where
  "pg_fault_of (Err e) = Sent (to_pgerr e)"
| "pg_fault_of Panic = Crash"

section \<open>Listeners and sessions\<close>

record token_auth =
  ta_user :: "string option"
  ta_password :: "string option"

record pg_handlers =
  pg_dialect :: target_dialect
  pg_translator :: translator
  pg_auth :: token_auth

definition pg_handlers_new ::
  "target_dialect \<Rightarrow> front_dialect \<Rightarrow> string option \<Rightarrow> string option \<Rightarrow> pg_handlers" where
  "pg_handlers_new dialect front username password =
     \<lparr>pg_dialect = dialect, pg_translator = new_translator front dialect,
      pg_auth = \<lparr>ta_user = username, ta_password = password\<rparr>\<rparr>"

text \<open>The password the crate compares with; \<open>login\<close> is \<open>login.user()\<close>.\<close>

definition get_password :: "token_auth \<Rightarrow> string option \<Rightarrow> pg_error + string" where
  "get_password auth login =
     (case ta_user auth of
        Some expected \<Rightarrow>
          (if login \<noteq> Some expected then Inl (InvalidPassword (case login of Some u \<Rightarrow> u | None \<Rightarrow> []))
           else Inr (case ta_password auth of Some p \<Rightarrow> p | None \<Rightarrow> []))
      | None \<Rightarrow> Inr (case ta_password auth of Some p \<Rightarrow> p | None \<Rightarrow> []))"

text \<open>
  The session kept among the client's extensions. The copies of a session share its connection and
  its last insert id, so the extension always holds the session as the last statement left it.
\<close>

definition get_session :: "pg_handlers \<Rightarrow> 'db session option \<Rightarrow> 'db session" where
  "get_session h ext =
     (case ext of Some s \<Rightarrow> s | None \<Rightarrow> new_session (pg_dialect h) (pg_translator h))"

section \<open>Result columns and rows\<close>

datatype field_format = TextFormat | BinaryFormat

record field_info =
  fi_name :: string
  fi_type :: nat
  fi_format :: field_format

definition field_info_of :: "(nat \<Rightarrow> bool) \<Rightarrow> field_meta \<Rightarrow> field_format \<Rightarrow> field_info" where
  "field_info_of known meta format =
     (let oid = kind_to_pg_oid (fm_kind meta) in
      \<lparr>fi_name = fm_name meta, fi_type = (if known oid then oid else text_oid), fi_format = format\<rparr>)"

definition schema_for :: "(nat \<Rightarrow> bool) \<Rightarrow> field_meta list \<Rightarrow> (nat \<Rightarrow> field_format) \<Rightarrow> field_info list" where
  "schema_for known cols format_for = map (\<lambda>(i, f). field_info_of known f (format_for i)) (enumerate 0 cols)"

text \<open>The typed values handed to the encoder.\<close>

datatype wire_value =
    WBool "bool option"
  | WI16 "16 word option"
  | WI32 "32 word option"
  | WI64 "64 word option"
  | WF32 "32 word option"
  | WF64 "64 word option"
  | WText "string option"
  | WBytes "8 word list option"

definition wire_null :: "nat \<Rightarrow> wire_value" where
  "wire_null ty =
     (if ty = 16 then WBool None
      else if ty = 21 then WI16 None
      else if ty = 23 then WI32 None
      else if ty = 20 then WI64 None
      else if ty = 700 then WF32 None
      else if ty = 701 then WF64 None
      else if ty = 25 then WText None
      else if ty = 17 then WBytes None
      else WText None)"

definition unwrap_or :: "'a \<Rightarrow> 'a option \<Rightarrow> 'a" where
  "unwrap_or d x = (case x of Some a \<Rightarrow> a | None \<Rightarrow> d)"

definition wire_typed :: "runtime \<Rightarrow> nat \<Rightarrow> val \<Rightarrow> wire_value" where
  "wire_typed R ty v =
     (if ty = 16 then WBool (Some (unwrap_or False (as_bool v)))
      else if ty = 21 then WI16 (Some (unwrap_or 0 (as_i16 v)))
      else if ty = 23 then WI32 (Some (unwrap_or 0 (as_i32 v)))
      else if ty = 20 then WI64 (Some (unwrap_or 0 (as_i64 v)))
      else if ty = 700 then WF32 (Some (unwrap_or 0 (as_f32 R v)))
      else if ty = 701 then WF64 (Some (unwrap_or 0 (as_f64 R v)))
      else WText (Some (unwrap_or [] (as_pg_text R v))))"

fun wire_of :: "runtime \<Rightarrow> nat \<Rightarrow> cell \<Rightarrow> wire_value" where
  "wire_of R ty None = wire_null ty"
| "wire_of R ty (Some VNull) = wire_null ty"
| "wire_of R ty (Some (VBool b)) = WBool (Some b)"
| "wire_of R ty (Some v) = wire_typed R ty v"

text \<open>
  \<open>encode_field\<close> of the crate: the bytes of a field (\<open>None\<close> for NULL) of the given column, or an error,
  on which \<open>expect\<close> panics.
\<close>

type_synonym wire_field = "8 word list option"
type_synonym encoder = "field_info \<Rightarrow> wire_value \<Rightarrow> string + wire_field"

definition expect :: "string + 'a \<Rightarrow> 'a res" where
  "expect r = (case r of Inl e \<Rightarrow> Inl Panic | Inr a \<Rightarrow> Inr a)"

definition encode_cell :: "runtime \<Rightarrow> encoder \<Rightarrow> field_info list \<Rightarrow> cell list \<Rightarrow> nat \<Rightarrow> wire_field res" where
  "encode_cell R E schema row idx =
     (if idx < length row then expect (E (schema ! idx) (wire_of R (fi_type (schema ! idx)) (row ! idx)))
      else Inl Panic)"

definition encode_row :: "runtime \<Rightarrow> encoder \<Rightarrow> field_info list \<Rightarrow> cell list \<Rightarrow> wire_field list res" where
  "encode_row R E schema row = try_map (encode_cell R E schema row) [0..<length schema]"

definition encode_rows :: "runtime \<Rightarrow> encoder \<Rightarrow> field_info list \<Rightarrow> cell list list \<Rightarrow> wire_field list list res" where
  "encode_rows R E schema rows = try_map (encode_row R E schema) rows"

datatype response =
    QueryResponse "field_info list" "wire_field list list"
  | Execution string

definition command_tag :: "64 word \<Rightarrow> string \<Rightarrow> string" where
  "command_tag n command =
     (if command = ''INSERT'' then ''INSERT 0 '' @ show_nat (unat n)
      else if command \<in> {''UPDATE'', ''DELETE'', ''MOVE'', ''FETCH''} then command @ '' '' @ show_nat (unat n)
      else command)"

fun response_for ::
  "runtime \<Rightarrow> encoder \<Rightarrow> (nat \<Rightarrow> bool) \<Rightarrow> (nat \<Rightarrow> field_format) \<Rightarrow> outcome \<Rightarrow> response res" where
  "response_for R E known format_for (Rows cols rows) =
     (let schema = schema_for known cols format_for in
      map_res (QueryResponse schema) (encode_rows R E schema rows))"
| "response_for R E known format_for (Affected n lid command) = Inr (Execution (command_tag n command))"

definition simple_format :: "nat \<Rightarrow> field_format" where
  "simple_format idx = TextFormat"

section \<open>The simple query protocol\<close>

definition pg_simple_query ::
  "runtime \<Rightarrow> encoder \<Rightarrow> (nat \<Rightarrow> bool) \<Rightarrow> 'db driver \<Rightarrow> 'x sqlparser \<Rightarrow> pg_handlers \<Rightarrow> 'db session option \<Rightarrow>
   string \<Rightarrow> 'db session \<times> (pg_fault + response list)" where
  "pg_simple_query R E known D P h ext query =
     (case run_script R D P (get_session h ext) FrontPostgres query of
        (s, Inl f) \<Rightarrow> (s, Inl (pg_fault_of f))
      | (s, Inr outcomes) \<Rightarrow>
          (s, case try_map (response_for R E known simple_format) outcomes of
                Inl f \<Rightarrow> Inl (pg_fault_of f)
              | Inr rs \<Rightarrow> Inr rs))"

section \<open>Describing\<close>

fun is_select :: "'x statement \<Rightarrow> bool" where
  "is_select (Query q) \<longleftrightarrow> True"
| "is_select stmt \<longleftrightarrow> False"

fun has_returning :: "'x statement \<Rightarrow> bool" where
  "has_returning (Insert i) \<longleftrightarrow> ins_returning i \<noteq> None"
| "has_returning (Update u) \<longleftrightarrow> upd_returning u \<noteq> None"
| "has_returning (Delete d) \<longleftrightarrow> del_returning d \<noteq> None"
| "has_returning stmt \<longleftrightarrow> False"

text \<open>An \<open>Err\<close> is answered by no columns; a panic is not caught.\<close>

fun no_columns :: "fault \<Rightarrow> field_info list res" where
  "no_columns (Err e) = Inr []"
| "no_columns Panic = Inl Panic"

definition probe_backend ::
  "(nat \<Rightarrow> bool) \<Rightarrow> 'db driver \<Rightarrow> 'db session \<Rightarrow> string \<Rightarrow> 'db session \<times> field_info list res" where
  "probe_backend known D s probe =
     (case connection D s of
        (s1, Inl f) \<Rightarrow> (s1, no_columns f)
      | (s1, Inr conn) \<Rightarrow>
          (case describe D conn probe of
             (conn1, Inl f) \<Rightarrow> (s1\<lparr>ss_conn := Some conn1\<rparr>, no_columns f)
           | (conn1, Inr cols) \<Rightarrow>
               (s1\<lparr>ss_conn := Some conn1\<rparr>, Inr (map (\<lambda>f. field_info_of known f TextFormat) cols))))"

definition probe_result_schema ::
  "bool \<Rightarrow> (nat \<Rightarrow> bool) \<Rightarrow> 'db driver \<Rightarrow> 'x sqlparser \<Rightarrow> 'db session \<Rightarrow> string \<Rightarrow>
   'db session \<times> field_info list res" where
  "probe_result_schema chk known D P s sql =
     (case split_statements P FrontPostgres sql of
        Inl f \<Rightarrow> (s, no_columns f)
      | Inr [stmt] \<Rightarrow>
          (if \<not> is_select stmt \<and> \<not> has_returning stmt then (s, Inr [])
           else case translate_statement P (ss_translator s) stmt of
                  Inl f \<Rightarrow> (s, no_columns f)
                | Inr translated \<Rightarrow>
                    (case neutralize chk translated of
                       Inl f \<Rightarrow> (s, Inl f)
                     | Inr probe \<Rightarrow> probe_backend known D s probe))
      | Inr stmts \<Rightarrow> (s, Inr []))"

section \<open>Bound parameters\<close>

text \<open>
  A portal: the statement's text, the parameter types the client declared, the number of parameters,
  \<open>portal.parameter::<T>(i, ty)\<close> at each type the handler asks for, and the formats of the result.
\<close>

record portal =
  pt_statement :: string
  pt_types :: "nat option list"
  pt_len :: nat
  pt_bool :: "nat \<Rightarrow> pg_error + bool option"
  pt_int2 :: "nat \<Rightarrow> pg_error + 16 word option"
  pt_int4 :: "nat \<Rightarrow> pg_error + 32 word option"
  pt_int8 :: "nat \<Rightarrow> pg_error + 64 word option"
  pt_float4 :: "nat \<Rightarrow> pg_error + 32 word option"
  pt_float8 :: "nat \<Rightarrow> pg_error + 64 word option"
  pt_text :: "nat \<Rightarrow> pg_error + string option"
  pt_format :: "nat \<Rightarrow> field_format"

definition unknown_oid :: nat where "unknown_oid = 705"

definition declared_types :: "nat option list \<Rightarrow> nat list" where
  "declared_types tys = map (unwrap_or unknown_oid) tys"

text \<open>The types a client declared, or, when it declared none, those inferred from the statement.\<close>

definition statement_types ::
  "bool \<Rightarrow> (nat \<Rightarrow> bool) \<Rightarrow> runtime \<Rightarrow> 'db driver \<Rightarrow> 'x sqlparser \<Rightarrow> 'db session \<Rightarrow> nat option list \<Rightarrow> string \<Rightarrow>
   'db session \<times> (pg_fault + nat list)" where
  "statement_types chk known R D P s declared sql =
     (if \<not> list_all (\<lambda>t. t = None) declared then (s, Inr (declared_types declared))
      else case connection D s of
        (s1, Inl f) \<Rightarrow> (s1, Inl (pg_fault_of f))
      | (s1, Inr conn) \<Rightarrow>
          (case infer_param_types chk known R D P conn sql of
             (conn1, Inl f) \<Rightarrow> (s1\<lparr>ss_conn := Some conn1\<rparr>, Inl (pg_fault_of f))
           | (conn1, Inr types) \<Rightarrow> (s1\<lparr>ss_conn := Some conn1\<rparr>, Inr types)))"

definition effective_param_types ::
  "bool \<Rightarrow> (nat \<Rightarrow> bool) \<Rightarrow> runtime \<Rightarrow> 'db driver \<Rightarrow> 'x sqlparser \<Rightarrow> 'db session \<Rightarrow> portal \<Rightarrow>
   'db session \<times> (pg_fault + nat list)" where
  "effective_param_types chk known R D P s p = statement_types chk known R D P s (pt_types p) (pt_statement p)"

definition null_or :: "('a \<Rightarrow> string) \<Rightarrow> pg_error + 'a option \<Rightarrow> pg_error + string" where
  "null_or print r =
     (case r of Inl e \<Rightarrow> Inl e | Inr None \<Rightarrow> Inr ''NULL'' | Inr (Some v) \<Rightarrow> Inr (print v))"

definition param_literal :: "runtime \<Rightarrow> portal \<Rightarrow> nat \<Rightarrow> nat \<Rightarrow> pg_error + string" where
  "param_literal R p ty i =
     (if ty = 16 then null_or (\<lambda>b. if b then ''TRUE'' else ''FALSE'') (pt_bool p i)
      else if ty = 21 then null_or (\<lambda>v. show_int (sint v)) (pt_int2 p i)
      else if ty = 23 then null_or (\<lambda>v. show_int (sint v)) (pt_int4 p i)
      else if ty = 20 then null_or (\<lambda>v. show_int (sint v)) (pt_int8 p i)
      else if ty = 700 then null_or (show_float32 R) (pt_float4 p i)
      else if ty = 701 then null_or (show_float R) (pt_float8 p i)
      else null_or (\<lambda>s. quote_string_literal s Postgres) (pt_text p i))"

text \<open>\<open>types.get(i).cloned().unwrap_or(Type::TEXT)\<close>.\<close>

definition type_at :: "nat list \<Rightarrow> nat \<Rightarrow> nat" where
  "type_at types i = (if i < length types then types ! i else text_oid)"

fun collect_literals :: "runtime \<Rightarrow> portal \<Rightarrow> nat list \<Rightarrow> nat list \<Rightarrow> pg_error + string list" where
  "collect_literals R p types [] = Inr []"
| "collect_literals R p types (i # is) =
     (case param_literal R p (type_at types i) i of
        Inl e \<Rightarrow> Inl e
      | Inr literal \<Rightarrow>
          (case collect_literals R p types is of
             Inl e \<Rightarrow> Inl e
           | Inr literals \<Rightarrow> Inr (literal # literals)))"

definition params_as_literals :: "runtime \<Rightarrow> portal \<Rightarrow> nat list \<Rightarrow> pg_error + string list" where
  "params_as_literals R p types = collect_literals R p types [0..<pt_len p]"

section \<open>The extended query protocol\<close>

definition first_pg_outcome :: "outcome list \<Rightarrow> outcome" where
  "first_pg_outcome outcomes = (case outcomes of out # _ \<Rightarrow> out | [] \<Rightarrow> Affected 0 None ''OK'')"

definition run_bound ::
  "runtime \<Rightarrow> encoder \<Rightarrow> (nat \<Rightarrow> bool) \<Rightarrow> 'db driver \<Rightarrow> 'x sqlparser \<Rightarrow> 'db session \<Rightarrow> (nat \<Rightarrow> field_format) \<Rightarrow>
   string \<Rightarrow> 'db session \<times> (pg_fault + response)" where
  "run_bound R E known D P s format_for sql =
     (case run_script R D P s FrontPostgres sql of
        (s1, Inl f) \<Rightarrow> (s1, Inl (pg_fault_of f))
      | (s1, Inr outcomes) \<Rightarrow>
          (s1, case response_for R E known format_for (first_pg_outcome outcomes) of
                 Inl f \<Rightarrow> Inl (pg_fault_of f)
               | Inr r \<Rightarrow> Inr r))"

definition pg_extended_query ::
  "bool \<Rightarrow> runtime \<Rightarrow> encoder \<Rightarrow> (nat \<Rightarrow> bool) \<Rightarrow> 'db driver \<Rightarrow> 'x sqlparser \<Rightarrow> pg_handlers \<Rightarrow> 'db session option \<Rightarrow>
   portal \<Rightarrow> 'db session \<times> (pg_fault + response)" where
  "pg_extended_query chk R E known D P h ext p =
     (case effective_param_types chk known R D P (get_session h ext) p of
        (s, Inl f) \<Rightarrow> (s, Inl f)
      | (s, Inr types) \<Rightarrow>
          (case params_as_literals R p types of
             Inl e \<Rightarrow> (s, Inl (Sent e))
           | Inr literals \<Rightarrow>
               (case substitute_placeholders chk (pt_statement p) literals of
                  Inl f \<Rightarrow> (s, Inl (pg_fault_of f))
                | Inr sql \<Rightarrow> run_bound R E known D P s (pt_format p) sql)))"

definition describe_statement ::
  "bool \<Rightarrow> runtime \<Rightarrow> (nat \<Rightarrow> bool) \<Rightarrow> 'db driver \<Rightarrow> 'x sqlparser \<Rightarrow> pg_handlers \<Rightarrow> 'db session option \<Rightarrow>
   nat option list \<Rightarrow> string \<Rightarrow> 'db session \<times> (pg_fault + nat list \<times> field_info list)" where
  "describe_statement chk R known D P h ext declared sql =
     (case statement_types chk known R D P (get_session h ext) declared sql of
        (s, Inl f) \<Rightarrow> (s, Inl f)
      | (s, Inr types) \<Rightarrow>
          (case probe_result_schema chk known D P s sql of
             (s1, Inl f) \<Rightarrow> (s1, Inl (pg_fault_of f))
           | (s1, Inr schema) \<Rightarrow> (s1, Inr (types, schema))))"

definition describe_portal ::
  "bool \<Rightarrow> (nat \<Rightarrow> bool) \<Rightarrow> 'db driver \<Rightarrow> 'x sqlparser \<Rightarrow> pg_handlers \<Rightarrow> 'db session option \<Rightarrow> portal \<Rightarrow>
   'db session \<times> (pg_fault + field_info list)" where
  "describe_portal chk known D P h ext p =
     (case probe_result_schema chk known D P (get_session h ext) (pt_statement p) of
        (s, Inl f) \<Rightarrow> (s, Inl (pg_fault_of f))
      | (s, Inr schema) \<Rightarrow> (s, Inr schema))"

section \<open>Rows on the wire\<close>

definition encodes_row :: "runtime \<Rightarrow> encoder \<Rightarrow> field_info list \<Rightarrow> cell list \<Rightarrow> wire_field list \<Rightarrow> bool" where
  "encodes_row R E schema row fs \<longleftrightarrow>
     length schema \<le> length row \<and> length fs = length schema \<and>
     (\<forall>j < length schema. E (schema ! j) (wire_of R (fi_type (schema ! j)) (row ! j)) = Inr (fs ! j))"

lemma expect_simps [simp]: "expect r = Inr a \<longleftrightarrow> r = Inr a" "expect r = Inl f \<longleftrightarrow> f = Panic \<and> (\<exists>e. r = Inl e)"
  by (auto simp: expect_def split: sum.splits)

lemma encode_cell_Inr:
  "encode_cell R E schema row j = Inr b \<longleftrightarrow>
     j < length row \<and> E (schema ! j) (wire_of R (fi_type (schema ! j)) (row ! j)) = Inr b"
  by (simp add: encode_cell_def)

lemma encode_row_Inr: "encode_row R E schema row = Inr fs \<longleftrightarrow> encodes_row R E schema row fs"
proof -
  have "length schema \<le> length row" if "\<forall>j < length schema. j < length row"
    using that by (cases "length schema") (auto simp: Suc_le_eq)
  then show ?thesis
    by (auto simp: encode_row_def try_map_Inr list_all2_conv_all_nth encode_cell_Inr encodes_row_def)
qed

lemma encode_rows_Inr: "encode_rows R E schema rows = Inr out \<longleftrightarrow> list_all2 (encodes_row R E schema) rows out"
  by (simp add: encode_rows_def try_map_Inr encode_row_Inr)

lemma encode_rows_Inl: "encode_rows R E schema rows = Inl f \<Longrightarrow> f = Panic"
  by (auto simp: encode_rows_def encode_row_def encode_cell_def dest!: try_map_Inl split: if_splits)

lemma encode_rows_total:
  assumes "\<forall>row \<in> set rows. length schema \<le> length row" "\<forall>c w. \<exists>b. E c w = Inr b"
  shows "\<exists>out. encode_rows R E schema rows = Inr out"
proof -
  from assms(2) obtain g where g: "E c w = Inr (g c w)" for c w by metis
  let ?fs = "\<lambda>row. map (\<lambda>j. g (schema ! j) (wire_of R (fi_type (schema ! j)) (row ! j))) [0..<length schema]"
  have "\<forall>row \<in> set rows. encode_row R E schema row = Inr (?fs row)"
    using assms(1) unfolding encode_row_Inr by (simp add: encodes_row_def g)
  then have "encode_rows R E schema rows = Inr (map ?fs rows)"
    unfolding encode_rows_def by (rule try_map_total)
  then show ?thesis ..
qed

section \<open>What a field carries\<close>

text \<open>
  The contents of a column of type \<open>ty\<close>, said of the value and not of the code's coercions. A NULL is a
  NULL of the column's type (of text for the types the crate is given as text); a boolean is sent as one
  at every type. An integer column carries the number of an integer value when it fits the column's
  width and 0 otherwise, and 0 for anything that is not an integer; a boolean column carries whether a
  number is not zero or a text not empty; a float column the number, rounded by the runtime; any other
  column a text: the decimal digits of a number, the text itself, or the escaped bytes of a blob.
\<close>

fun wire_int :: "wire_value \<Rightarrow> int option" where
  "wire_int (WI16 w) = map_option sint w"
| "wire_int (WI32 w) = map_option sint w"
| "wire_int (WI64 w) = map_option sint w"
| "wire_int w = None"

fun wire_type :: "wire_value \<Rightarrow> nat" where
  "wire_type (WBool x) = 16"
| "wire_type (WI16 x) = 21"
| "wire_type (WI32 x) = 23"
| "wire_type (WI64 x) = 20"
| "wire_type (WF32 x) = 700"
| "wire_type (WF64 x) = 701"
| "wire_type (WText x) = 25"
| "wire_type (WBytes x) = 17"

fun wire_is_null :: "wire_value \<Rightarrow> bool" where
  "wire_is_null (WBool x) \<longleftrightarrow> x = None"
| "wire_is_null (WI16 x) \<longleftrightarrow> x = None"
| "wire_is_null (WI32 x) \<longleftrightarrow> x = None"
| "wire_is_null (WI64 x) \<longleftrightarrow> x = None"
| "wire_is_null (WF32 x) \<longleftrightarrow> x = None"
| "wire_is_null (WF64 x) \<longleftrightarrow> x = None"
| "wire_is_null (WText x) \<longleftrightarrow> x = None"
| "wire_is_null (WBytes x) \<longleftrightarrow> x = None"

definition null_type :: "nat \<Rightarrow> nat" where
  "null_type ty = (if ty \<in> {16, 17, 20, 21, 23, 25, 700, 701} then ty else 25)"

definition int_bits :: "nat \<Rightarrow> nat" where
  "int_bits ty = (if ty = 21 then 16 else if ty = 23 then 32 else 64)"

definition number_in :: "nat \<Rightarrow> val \<Rightarrow> int" where
  "number_in bits v =
     (case int_of_value v of
        Some n \<Rightarrow> if - (2 ^ (bits - 1)) \<le> n \<and> n < 2 ^ (bits - 1) then n else 0
      | None \<Rightarrow> 0)"

definition truth_of :: "val \<Rightarrow> bool" where
  "truth_of v = (case int_of_value v of Some n \<Rightarrow> n \<noteq> 0 | None \<Rightarrow> (\<exists>c cs. v = VText (c # cs)))"

definition single_of :: "runtime \<Rightarrow> val \<Rightarrow> 32 word" where
  "single_of R v =
     (case int_of_value v of
        Some n \<Rightarrow> int_to_f32 R n
      | None \<Rightarrow> (case v of VReal f \<Rightarrow> f | VDouble f \<Rightarrow> f64_to_f32 R f | _ \<Rightarrow> 0))"

definition double_of :: "runtime \<Rightarrow> val \<Rightarrow> 64 word" where
  "double_of R v =
     (case int_of_value v of
        Some n \<Rightarrow> int_to_f64 R n
      | None \<Rightarrow> (case v of VReal f \<Rightarrow> f32_to_f64 R f | VDouble f \<Rightarrow> f | _ \<Rightarrow> 0))"

definition text_in :: "runtime \<Rightarrow> val \<Rightarrow> string" where
  "text_in R v =
     (case int_of_value v of
        Some n \<Rightarrow> show_int n
      | None \<Rightarrow>
          (case v of
             VReal f \<Rightarrow> format_float R (f32_to_f64 R f) | VDouble f \<Rightarrow> format_float R f
           | VText t \<Rightarrow> t | VBlob b \<Rightarrow> escape_bytea b | _ \<Rightarrow> []))"

definition carries_value :: "runtime \<Rightarrow> nat \<Rightarrow> val \<Rightarrow> wire_value \<Rightarrow> bool" where
  "carries_value R ty v w \<longleftrightarrow>
     (if ty \<in> {20, 21, 23} then wire_type w = ty \<and> wire_int w = Some (number_in (int_bits ty) v)
      else if ty = 16 then w = WBool (Some (truth_of v))
      else if ty = 700 then w = WF32 (Some (single_of R v))
      else if ty = 701 then w = WF64 (Some (double_of R v))
      else w = WText (Some (text_in R v)))"

fun carries :: "runtime \<Rightarrow> nat \<Rightarrow> cell \<Rightarrow> wire_value \<Rightarrow> bool" where
  "carries R ty None w \<longleftrightarrow> wire_is_null w \<and> wire_type w = null_type ty"
| "carries R ty (Some VNull) w \<longleftrightarrow> wire_is_null w \<and> wire_type w = null_type ty"
| "carries R ty (Some (VBool b)) w \<longleftrightarrow> w = WBool (Some b)"
| "carries R ty (Some v) w \<longleftrightarrow> carries_value R ty v w"

lemma carries_null: "wire_is_null w \<and> wire_type w = null_type ty \<longleftrightarrow> w = wire_null ty"
  by (cases w) (auto simp: null_type_def wire_null_def)

lemma sint_value:
  "sint (unwrap_or 0 (fit_value v :: 'b::len word option)) = number_in (LENGTH('b)) v"
proof (cases "fit_value v :: 'b word option")
  case None
  then show ?thesis by (auto simp: unwrap_or_def fit_value_def fit_def number_in_def split: if_splits option.splits)
next
  case (Some w)
  then obtain n where n: "int_of_value v = Some n" "fit n = Some w"
    by (auto simp: fit_value_def split: option.splits)
  from sint_fit [OF n(2)] n Some show ?thesis
    by (auto simp: unwrap_or_def fit_def number_in_def split: if_splits)
qed

lemma wire_int_eq:
  "wire_type w = 21 \<and> wire_int w = Some (sint (i :: 16 word)) \<longleftrightarrow> w = WI16 (Some i)"
  "wire_type w = 23 \<and> wire_int w = Some (sint (j :: 32 word)) \<longleftrightarrow> w = WI32 (Some j)"
  "wire_type w = 20 \<and> wire_int w = Some (sint (k :: 64 word)) \<longleftrightarrow> w = WI64 (Some k)"
  by (cases w; auto simp: signed_word_eqI)+

lemma carries_value_iff:
  assumes "v \<noteq> VNull" "\<And>b. v \<noteq> VBool b"
  shows "carries_value R ty v w \<longleftrightarrow> w = wire_typed R ty v"
proof -
  have "truth_of v = unwrap_or False (as_bool v)"
    by (cases v) (auto simp: truth_of_def unwrap_or_def signed_eq_0_iff neq_Nil_conv)
  moreover have "single_of R v = unwrap_or 0 (as_f32 R v)" "double_of R v = unwrap_or 0 (as_f64 R v)"
    "text_in R v = unwrap_or [] (as_pg_text R v)"
    using assms by (cases v; simp add: single_of_def double_of_def text_in_def unwrap_or_def)+
  moreover note
    wire_int_eq(1) [of w "unwrap_or 0 (fit_value v)", unfolded sint_value]
    wire_int_eq(2) [of w "unwrap_or 0 (fit_value v)", unfolded sint_value]
    wire_int_eq(3) [of w "unwrap_or 0 (fit_value v)", unfolded sint_value]
  ultimately show ?thesis
    by (simp add: carries_value_def wire_typed_def int_bits_def as_int_fit)
qed

lemma carries_iff: "carries R ty c w \<longleftrightarrow> w = wire_of R ty c"
proof (cases c)
  case (Some v)
  then show ?thesis by (cases v) (simp_all add: carries_null carries_value_iff)
qed (simp add: carries_null)

definition row_arrives :: "runtime \<Rightarrow> encoder \<Rightarrow> field_info list \<Rightarrow> cell list \<Rightarrow> wire_field list \<Rightarrow> bool" where
  "row_arrives R E schema row fs \<longleftrightarrow>
     length schema \<le> length row \<and> length fs = length schema \<and>
     (\<forall>j < length schema. \<exists>w. carries R (fi_type (schema ! j)) (row ! j) w \<and> E (schema ! j) w = Inr (fs ! j))"

lemma encodes_row_arrives: "encodes_row R E schema row fs \<longleftrightarrow> row_arrives R E schema row fs"
  by (simp add: encodes_row_def row_arrives_def carries_iff)

text \<open>
  C34. Result rows on the wire. Encoding never fails with an error a client could be told: it answers, or
  it panics. It answers exactly when every row has a cell for every column of the schema and the
  encoder accepts what each carries; then there is one data row per row, in order, with one field per
  column, the encoding of what the cell is worth at the column's type: the number itself in an
  integer column wide enough for it and 0 in a narrower one, the 64-bit one exact; a text, a float, a
  truth value or a NULL of that type as the definition \<open>carries\<close> says.
\<close>

theorem encode_rows_exact:
  "(encode_rows R E schema rows = Inr out \<longleftrightarrow> list_all2 (row_arrives R E schema) rows out) \<and>
   (\<forall>f. encode_rows R E schema rows = Inl f \<longrightarrow> f = Panic) \<and>
   ((\<forall>row \<in> set rows. length schema \<le> length row) \<and> (\<forall>c w. \<exists>b. E c w = Inr b) \<longrightarrow>
      (\<exists>out. encode_rows R E schema rows = Inr out))"
  using encode_rows_Inr [of R E schema rows out] encode_rows_total [of rows schema E R] encode_rows_Inl [of R E schema rows]
  by (auto simp: encodes_row_arrives [abs_def])

definition sample_encoder :: encoder where
  "sample_encoder c w = (case w of WI32 (Some i) \<Rightarrow> Inr (Some [ucast i]) | WI32 None \<Rightarrow> Inr None | _ \<Rightarrow> Inl ''no codec'')"

theorem encode_rows_exact_witness:
  "encode_rows sample_runtime sample_encoder [\<lparr>fi_name = ''a'', fi_type = 23, fi_format = TextFormat\<rparr>]
       [[Some (VBigInt 7)], [None]] = Inr [[Some [7]], [None]] \<and>
   encode_rows sample_runtime sample_encoder [\<lparr>fi_name = ''a'', fi_type = 23, fi_format = TextFormat\<rparr>] [[]] = Inl Panic"
proof -
  let ?sch = "[\<lparr>fi_name = ''a'', fi_type = 23, fi_format = TextFormat\<rparr>]"
  have "list_all2 (row_arrives sample_runtime sample_encoder ?sch) [[Some (VBigInt 7)], [None]] [[Some [7]], [None]]"
    by (simp add: encodes_row_arrives [symmetric] encodes_row_def wire_typed_def wire_null_def sample_encoder_def unwrap_or_def narrow_def fit_def)
  moreover have "\<not> list_all2 (row_arrives sample_runtime sample_encoder ?sch) [[]] out" for out
    by (cases out) (auto simp: row_arrives_def)
  moreover have "encode_rows sample_runtime sample_encoder ?sch [[]] = Inl Panic"
    if "\<And>out. encode_rows sample_runtime sample_encoder ?sch [[]] \<noteq> Inr out"
    using that encode_rows_exact [of sample_runtime sample_encoder ?sch "[[]]"] by (metis sum.exhaust)
  ultimately show ?thesis
    using encode_rows_exact [of sample_runtime sample_encoder ?sch "[[Some (VBigInt 7)], [None]]" "[[Some [7]], [None]]"]
      encode_rows_exact [of sample_runtime sample_encoder ?sch "[[]]"]
    by blast
qed

text \<open>Integers at an integer column: the number itself when it fits the column's width, 0 otherwise.\<close>

lemma sint_unwrap_fit:
  "sint (unwrap_or 0 (fit n :: 'b::len word option)) =
     (if - (2 ^ (LENGTH('b) - 1)) \<le> n \<and> n < 2 ^ (LENGTH('b) - 1) then n else 0)"
proof (cases "fit n :: 'b word option")
  case None
  then show ?thesis by (auto simp: unwrap_or_def fit_def split: if_splits)
next
  case (Some w)
  then have "sint w = n" by (rule sint_fit)
  with Some show ?thesis by (auto simp: unwrap_or_def fit_def split: if_splits)
qed

lemma wire_of_integer:
  assumes "is_integer v" "int_of_value v = Some n"
  shows "wire_int (wire_of R 21 (Some v)) = Some (if - (2 ^ 15) \<le> n \<and> n < 2 ^ 15 then n else 0)"
    "wire_int (wire_of R 23 (Some v)) = Some (if - (2 ^ 31) \<le> n \<and> n < 2 ^ 31 then n else 0)"
    "wire_int (wire_of R 20 (Some v)) = Some n"
proof -
  have eq: "wire_of R ty (Some v) = wire_typed R ty v" for ty
    using assms(1) by (cases v) simp_all
  have f: "fit_value v = fit n" by (simp add: fit_value_def assms(2))
  show "wire_int (wire_of R 21 (Some v)) = Some (if - (2 ^ 15) \<le> n \<and> n < 2 ^ 15 then n else 0)"
    using sint_unwrap_fit [of n, where 'b = 16] by (simp add: eq wire_typed_def as_int_fit fit_value_def assms(2))
  show "wire_int (wire_of R 23 (Some v)) = Some (if - (2 ^ 31) \<le> n \<and> n < 2 ^ 31 then n else 0)"
    using sint_unwrap_fit [of n, where 'b = 32] by (simp add: eq wire_typed_def as_int_fit fit_value_def assms(2))
  have "map_option sint (as_i64 v) = Some n"
    using assms by (cases v) (simp_all add: sint_scast_64)
  then show "wire_int (wire_of R 20 (Some v)) = Some n"
    by (auto simp: eq wire_typed_def unwrap_or_def)
qed

end
