(* ===== verification/Pg_Results.thy ===== *)
theory Pg_Results
  imports Pg_Server
begin

text \<open>
  What the PostgreSQL front end promises: bound parameters become literals that read back as the bound
  values and nothing else, every statement of a simple query gets the response its kind calls for, and
  errors reach the client with a state and a text without control characters.
\<close>

section \<open>Literals read back\<close>

datatype bound = BNull | BBool bool | BInt int | BText string

definition read_bound :: "string \<Rightarrow> bound option" where
  "read_bound s =
     (if s = ''NULL'' then Some BNull
      else if s = ''TRUE'' then Some (BBool True)
      else if s = ''FALSE'' then Some (BBool False)
      else if s \<noteq> [] \<and> hd s = squote then
        (case read_literal s of Some (v, []) \<Rightarrow> Some (BText v) | _ \<Rightarrow> None)
      else Some (BInt (read_int s)))"

definition as_bound :: "('a \<Rightarrow> bound) \<Rightarrow> pg_error + 'a option \<Rightarrow> bound option" where
  "as_bound f r = (case r of Inl e \<Rightarrow> None | Inr None \<Rightarrow> Some BNull | Inr (Some v) \<Rightarrow> Some (f v))"

text \<open>The value a portal binds to parameter \<open>i\<close> at a type; floats have no exact reading here.\<close>

definition bound_at :: "portal \<Rightarrow> nat \<Rightarrow> nat \<Rightarrow> bound option" where
  "bound_at p ty i =
     (if ty = 16 then as_bound BBool (pt_bool p i)
      else if ty = 21 then as_bound (\<lambda>v. BInt (sint v)) (pt_int2 p i)
      else if ty = 23 then as_bound (\<lambda>v. BInt (sint v)) (pt_int4 p i)
      else if ty = 20 then as_bound (\<lambda>v. BInt (sint v)) (pt_int8 p i)
      else if ty = 700 \<or> ty = 701 then None
      else as_bound BText (pt_text p i))"

lemma show_int_hd: "hd (show_int n) = CHR ''-'' \<or> is_ascii_digit (hd (show_int n))"
  using show_nat_digits [OF hd_in_set, OF show_nat_not_Nil] by (auto simp: show_int_def)

lemma show_int_not_Nil [simp]: "show_int n \<noteq> []"
  by (simp add: show_int_def)

lemma read_bound_int: "read_bound (show_int n) = Some (BInt n)"
proof -
  have "show_int n \<noteq> ''NULL''" "show_int n \<noteq> ''TRUE''" "show_int n \<noteq> ''FALSE''" "hd (show_int n) \<noteq> squote"
    using show_int_hd [of n] by (auto simp: is_ascii_digit_def)
  then show ?thesis by (simp add: read_bound_def read_int_show_int)
qed

lemma read_bound_text: "read_bound (quote_string_literal s t) = Some (BText s)"
  using read_literal_escaped [of "[]" s] by (simp add: read_bound_def quote_string_literal_def)

lemma read_bound_words [simp]:
  "read_bound ''NULL'' = Some BNull" "read_bound ''TRUE'' = Some (BBool True)" "read_bound ''FALSE'' = Some (BBool False)"
  by (simp_all add: read_bound_def)

lemma null_or_bound:
  assumes "null_or print r = Inr literal" "\<And>v. read_bound (print v) = Some (f v)"
  shows "\<exists>b. as_bound f r = Some b \<and> read_bound literal = Some b"
  using assms by (auto simp: null_or_def as_bound_def split: sum.splits option.splits)

lemmas null_or_reads =
  null_or_bound [where print = "\<lambda>b. if b then ''TRUE'' else ''FALSE''" and f = BBool]
  null_or_bound [where print = "\<lambda>v. show_int (sint v)" and f = "\<lambda>v. BInt (sint v)"]
  null_or_bound [where print = "\<lambda>s. quote_string_literal s Postgres" and f = BText]

lemma param_literal_reads:
  assumes "param_literal R p ty i = Inr literal" "ty \<noteq> 700" "ty \<noteq> 701"
  shows "\<exists>b. bound_at p ty i = Some b \<and> read_bound literal = Some b"
  using assms unfolding param_literal_def bound_at_def
  by (simp split: if_splits)
    (erule null_or_reads; simp add: read_bound_int read_bound_text)+

lemma collect_literals_Inr:
  "collect_literals R p types is = Inr literals \<longleftrightarrow>
     list_all2 (\<lambda>i literal. param_literal R p (type_at types i) i = Inr literal) is literals"
proof (induction "is" arbitrary: literals)
  case (Cons i "is")
  show ?case
    by (cases "param_literal R p (type_at types i) i"; cases "collect_literals R p types is")
      (auto simp: list_all2_Cons1 simp flip: Cons.IH)
qed auto

lemma params_as_literals_Inr:
  "params_as_literals R p types = Inr literals \<longleftrightarrow>
     length literals = pt_len p \<and> (\<forall>i < pt_len p. param_literal R p (type_at types i) i = Inr (literals ! i))"
  by (auto simp: params_as_literals_def collect_literals_Inr list_all2_conv_all_nth)

text \<open>
  C27. Bound parameters become literals that mean the bound values: one literal per parameter, in order,
  and each, at every type but the two float types, reads back as the value the portal binds, NULL and
  texts holding quotes included; a parameter that does not decode fails the whole rendering with its
  own error.
\<close>

theorem params_literals_roundtrip:
  "(case params_as_literals R p types of
      Inr literals \<Rightarrow> length literals = pt_len p \<and>
        (\<forall>i < pt_len p. type_at types i \<notin> {700, 701} \<longrightarrow>
           (\<exists>b. bound_at p (type_at types i) i = Some b \<and> read_bound (literals ! i) = Some b))
    | Inl e \<Rightarrow> \<exists>i < pt_len p. param_literal R p (type_at types i) i = Inl e)"
proof (cases "params_as_literals R p types")
  case (Inr literals)
  then have "length literals = pt_len p"
    "\<And>i. i < pt_len p \<Longrightarrow> param_literal R p (type_at types i) i = Inr (literals ! i)"
    by (simp_all add: params_as_literals_Inr)
  with param_literal_reads [OF this(2)] show ?thesis by (simp add: Inr)
next
  case (Inl e)
  have "\<exists>i \<in> set is. param_literal R p (type_at types i) i = Inl e" if "collect_literals R p types is = Inl e" for "is"
    using that by (induction "is") (auto split: sum.splits)
  from this [of "[0..<pt_len p]"] Inl show ?thesis by (auto simp: params_as_literals_def)
qed

definition sample_portal :: "string \<Rightarrow> nat option list \<Rightarrow> string list \<Rightarrow> portal" where
  "sample_portal sql tys vs = \<lparr>pt_statement = sql, pt_types = tys, pt_len = length vs,
     pt_bool = (\<lambda>i. Inr None), pt_int2 = (\<lambda>i. Inr (Some (-2))), pt_int4 = (\<lambda>i. Inr None), pt_int8 = (\<lambda>i. Inr None),
     pt_float4 = (\<lambda>i. Inr None), pt_float8 = (\<lambda>i. Inr None),
     pt_text = (\<lambda>i. if i < length vs then Inr (Some (vs ! i)) else Inl (WireError ''no such parameter'')),
     pt_format = (\<lambda>i. TextFormat)\<rparr>"

theorem params_literals_roundtrip_witness:
  "\<exists>literals. params_as_literals sample_runtime (sample_portal ''SELECT $1, $2'' [] [''it'' @ [squote] @ ''s'', ''x'']) [25, 21] = Inr literals \<and>
     map read_bound literals = [Some (BText (''it'' @ [squote] @ ''s'')), Some (BInt (-2))]"
proof -
  define p where "p = sample_portal ''SELECT $1, $2'' [] [''it'' @ [squote] @ ''s'', ''x'']"
  define a where "a = quote_string_literal (''it'' @ [squote] @ ''s'') Postgres"
  define b where "b = show_int (-2)"
  have n: "pt_len p = 2" and t: "type_at [25, 21] 0 = 25" "type_at [25, 21] 1 = 21"
    by (simp_all add: p_def sample_portal_def type_at_def)
  have "param_literal sample_runtime p 25 0 = Inr a" "param_literal sample_runtime p 21 1 = Inr b"
    by (simp_all add: param_literal_def null_or_def p_def a_def b_def sample_portal_def)
  then have l: "params_as_literals sample_runtime p [25, 21] = Inr [a, b]"
    using t by (simp add: params_as_literals_Inr less_Suc_eq n numeral_2_eq_2)
  have v: "bound_at p 25 0 = Some (BText (''it'' @ [squote] @ ''s''))" "bound_at p 21 1 = Some (BInt (-2))"
    by (simp_all add: bound_at_def as_bound_def p_def sample_portal_def)
  from params_literals_roundtrip [where R = sample_runtime and p = p and types = "[25, 21]"]
  have r: "i < 2 \<Longrightarrow> type_at [25, 21] i \<notin> {700, 701} \<Longrightarrow>
      \<exists>b'. bound_at p (type_at [25, 21] i) i = Some b' \<and> read_bound ([a, b] ! i) = Some b'" for i
    unfolding l n by simp
  from r [of 0] r [of 1] l show ?thesis
    unfolding t v p_def [symmetric] by simp
qed

section \<open>The extended protocol binds texts as literals\<close>

lemma literals_of_texts:
  assumes "pt_len p = length vs" "\<And>i. i < length vs \<Longrightarrow> pt_text p i = Inr (Some (vs ! i))"
    "\<And>i. i < length vs \<Longrightarrow> type_at types i \<notin> {16, 21, 23, 20, 700, 701}"
  shows "params_as_literals R p types = Inr (map (\<lambda>v. quote_string_literal v Postgres) vs)"
  using assms by (simp add: params_as_literals_Inr param_literal_def null_or_def)

text \<open>
  C32. Executing a portal whose parameters are texts. For a statement whose placeholders stand where a value
  may and are all seen (outside string literals the statement has no other single quote, dollar sign or
  question mark, so none in its comments and quoted identifiers, and no literal or placeholder touches a word
  before it, as in \<open>E''\<close> strings), the text that is run is the statement with
  each placeholder replaced by the string literal of its value, and the lexical grammar of SQL, comments and
  quoted identifiers included, reads in it the statement's own lexemes and those literals and nothing else,
  whatever characters the values hold: to the parser, no value can become SQL. (The text is PostgreSQL's,
  where a backslash is a character; how the literals are printed again for a MySQL target is not part of it.)
  The types used are the declared ones or those Describe reported for the same session.
\<close>

theorem extended_query_binds_texts:
  assumes "has_place ps" "seen_by_substitution ps" "values_suffice (length vs) 0 ps" "pt_statement p = written ps"
    "pt_len p = length vs" "\<And>i. i < length vs \<Longrightarrow> pt_text p i = Inr (Some (vs ! i))"
    "effective_param_types chk known R D P (get_session h ext) p = (s, Inr types)"
    "\<And>i. i < length vs \<Longrightarrow> type_at types i \<notin> {16, 21, 23, 20, 700, 701}"
    "xs = fill (map (\<lambda>v. [LString v]) (hole_values vs 0 ps)) ps"
  shows "pg_extended_query chk R E known D P h ext p = run_bound R E known D P s (pt_format p) (concat (map spell xs)) \<and>
    lexes xs (concat (map spell xs)) \<and>
    (\<forall>s1 types' schema. describe_statement chk R known D P h ext (pt_types p) (pt_statement p) = (s1, Inr (types', schema)) \<longrightarrow>
       types' = types)"
proof -
  have xs: "xs = fill (map value_lexemes (map Some (hole_values vs 0 ps))) ps"
    using assms(9) by (simp add: comp_def)
  have "params_as_literals R p types = Inr (map (\<lambda>v. quote_string_literal v Postgres) vs)"
    using assms(5,6,8) by (rule literals_of_texts)
  moreover have "substitute_placeholders chk (pt_statement p) (map (\<lambda>v. quote_string_literal v Postgres) vs) =
      Inr (concat (map spell xs))"
    using substitute_pieces [OF assms(1-3), of chk Postgres] by (simp add: assms(4) substitute_placeholders_def xs spelled_def)
  moreover have "lexes xs (concat (map spell xs))"
    using lexes_fill [OF assms(1), of "map Some (hole_values vs 0 ps)"] by (simp add: xs spelled_def)
  ultimately show ?thesis
    using assms(7) by (simp add: pg_extended_query_def describe_statement_def effective_param_types_def split: prod.splits sum.splits)
qed

text \<open>
  A statement with a comment in which there is a placeholder is not one of these: a value with a line break
  ends the comment.
\<close>

lemma comment_placeholder_escapes:
  "substitute_placeholders chk ''SELECT a -- $1'' [quote_string_literal (newline # ''FROM t'') Postgres] =
     Inr (''SELECT a -- '' @ squote # newline # ''FROM t'' @ [squote])"
proof -
  have "wf_template [TText ''SELECT a -- '', TDollar 1]" by simp
  moreover have "show_nat (Suc 0) = ''1''" by code_simp
  ultimately show ?thesis
    using substitute_from_template [of "[TText ''SELECT a -- '', TDollar 1]" chk "[quote_string_literal (newline # ''FROM t'') Postgres]" 0]
    by (simp add: substitute_placeholders_def literal_at_def quote_string_literal_def)
qed

theorem extended_query_binds_texts_witness:
  "lexes (map LChar ''a = '' @ [LString ([squote] @ '' OR 1=1''), LLine ''x''])
     (''a = '' @ squote # squote # squote # '' OR 1=1'' @ squote # ''--x'')"
proof -
  let ?ps = "map Piece (map LChar ''a = '') @ [Numbered 1, Piece (LLine ''x'')]"
  let ?vs = "[[squote] @ '' OR 1=1'']"
  let ?xs = "fill (map (\<lambda>v. [LString v]) (hole_values ?vs 0 ?ps)) ?ps"
  let ?p = "sample_portal (written ?ps) [Some 25] ?vs"
  let ?h = "pg_handlers_new Sqlite FrontPostgres None None"
  have ok: "has_place ?ps" "seen_by_substitution ?ps" "values_suffice (length ?vs) 0 ?ps"
    by (auto simp: has_place_def lexes_Cons starts_with_def is_ascii_digit_def is_word_char_def is_alphanumeric_def)
  have "effective_param_types False (\<lambda>t. True) sample_runtime (sample_driver True) (demo_parser []) (get_session ?h None) ?p =
      (get_session ?h None, Inr [25])"
    by (simp add: effective_param_types_def statement_types_def sample_portal_def declared_types_def unwrap_or_def)
  from extended_query_binds_texts [OF ok _ _ _ this, where xs = ?xs]
  have "lexes ?xs (concat (map spell ?xs))"
    by (simp add: sample_portal_def type_at_def)
  then show ?thesis by simp
qed

section \<open>A negative number after a minus sign\<close>

text \<open>
  Literals of numbers are not put in parentheses: a negative one bound to a placeholder that follows a
  minus sign starts a comment.
\<close>

lemma negative_parameter_starts_comment:
  assumes "n < 0" "squote \<notin> set w" "CHR ''$'' \<notin> set w" "CHR ''?'' \<notin> set w"
  shows "substitute_placeholders chk (w @ ''-$1'') [show_int n] = Inr (w @ ''--'' @ show_nat (nat (- n)))"
proof -
  have "wf_template [TText (w @ ''-''), TDollar 1]" using assms(2-4) by simp
  moreover have "show_nat (Suc 0) = ''1''" by code_simp
  ultimately show ?thesis
    using substitute_from_template [of "[TText (w @ ''-''), TDollar 1]" chk "[show_int n]" 0] assms(1)
    by (simp add: substitute_placeholders_def literal_at_def show_int_def)
qed

section \<open>Responses of a simple query\<close>

definition response_fits :: "target_dialect \<Rightarrow> 'x statement \<Rightarrow> response \<Rightarrow> bool" where
  "response_fits dialect stmt r \<longleftrightarrow>
     (case r of
        QueryResponse schema rows \<Rightarrow> gives_rows dialect stmt \<and> (\<forall>row \<in> set rows. length row = length schema)
      | Execution tag \<Rightarrow> \<not> gives_rows dialect stmt \<and> (\<forall>c. fixed_command stmt = Some c \<longrightarrow> (\<exists>n. tag = command_tag n c)))"

lemma encode_rows_width: "encode_rows R E schema rows = Inr out \<Longrightarrow> \<forall>fs \<in> set out. length fs = length schema"
  by (auto simp: encode_rows_Inr list_all2_conv_all_nth encodes_row_def in_set_conv_nth)

lemma response_for_fits:
  assumes "outcome_fits dialect stmt out" "response_for R E known format_for out = Inr r"
  shows "response_fits dialect stmt r"
  using assms by (cases out) (auto simp: response_fits_def outcome_fits_def Let_def dest: encode_rows_width)

text \<open>
  A simple query that succeeds gets one response per statement, in order: a row set for the statements
  that give rows, every data row as wide as its row description, and otherwise the command tag of the
  statement, with the row count where PostgreSQL has one. The session keeps its dialects.
\<close>

theorem simple_query_responses:
  assumes "session_ok (pg_dialect h) (pg_translator h) (get_session h ext)"
    "pg_simple_query R E known D P h ext query = (s', Inr rs)"
  shows "session_ok (pg_dialect h) (pg_translator h) s' \<and>
    (\<exists>stmts. split_statements P FrontPostgres query = Inr stmts \<and> list_all2 (response_fits (pg_dialect h)) stmts rs)"
proof -
  obtain outs where run: "run_script R D P (get_session h ext) FrontPostgres query = (s', Inr outs)"
    and rs: "try_map (response_for R E known simple_format) outs = Inr rs"
    using assms(2) by (auto simp: pg_simple_query_def split: prod.splits sum.splits)
  from run_script_succeeds [OF assms(1) run] obtain stmts where
    ok: "session_ok (pg_dialect h) (pg_translator h) s'" "split_statements P FrontPostgres query = Inr stmts"
    and fits: "list_all2 (outcome_fits (pg_dialect h)) stmts outs" by blast
  have "list_all2 (\<lambda>out r. response_for R E known simple_format out = Inr r) outs rs"
    using rs by (simp add: try_map_Inr)
  then have "list_all2 (response_fits (pg_dialect h)) stmts rs"
    using fits by (fastforce simp: list_all2_conv_all_nth intro: response_for_fits)
  then show ?thesis using ok by blast
qed

theorem simple_query_responses_witness:
  "\<exists>rs. snd (pg_simple_query sample_runtime sample_encoder (\<lambda>t. True) (sample_driver True) (demo_parser [Use (), SetStmt ()])
       (pg_handlers_new Sqlite FrontMysql None None) None ''USE d; SET x = 1'') = Inr rs \<and>
     list_all2 (response_fits Sqlite) [Use (), SetStmt ()] rs"
proof -
  let ?h = "pg_handlers_new Sqlite FrontMysql None None"
  have g: "get_session ?h None = demo_session" "pg_dialect ?h = Sqlite" "pg_translator ?h = new_translator FrontMysql Sqlite"
    by (simp_all add: get_session_def pg_handlers_new_def demo_session_def)
  have run: "run_script R (sample_driver True) (demo_parser [Use (), SetStmt ()]) demo_session FrontPostgres sql =
      (demo_session\<lparr>ss_conn := Some 0\<rparr>, Inr [ok_outcome ''USE'', ok_outcome ''SET''])" for R sql
    by (simp add: run_script_def split_statements_def demo_parser_def connection_def demo_session_def new_session_def
      acquire_owned_def sample_driver_def run_statement_def intercept_statement_def last_insert_id_outcome_def)
  have "pg_simple_query sample_runtime sample_encoder (\<lambda>t. True) (sample_driver True) (demo_parser [Use (), SetStmt ()])
       ?h None ''USE d; SET x = 1'' = (demo_session\<lparr>ss_conn := Some 0\<rparr>, Inr [Execution ''USE'', Execution ''SET''])"
    by (simp add: pg_simple_query_def g run ok_outcome_def command_tag_def)
  from simple_query_responses [OF _ this] demo_session_ok this show ?thesis
    by (auto simp: g split_statements_def demo_parser_def)
qed

section \<open>Errors of a simple query\<close>

lemma space_not_control: "\<not> is_control CHR '' ''"
  by (simp add: is_control_def)

lemma sanitize_clean: "\<forall>c \<in> set (sanitize s). \<not> is_control c" "length (sanitize s) = length s"
  by (auto simp: sanitize_def space_not_control)

lemma sanitize_id: "\<forall>c \<in> set s. \<not> is_control c \<Longrightarrow> sanitize s = s"
  by (simp add: sanitize_def map_idI)

definition clean_error :: "string \<Rightarrow> error \<Rightarrow> pg_error \<Rightarrow> bool" where
  "clean_error code e pe \<longleftrightarrow>
     (\<exists>m. pe = UserError \<lparr>ei_severity = ''ERROR'', ei_code = code, ei_message = m\<rparr> \<and>
        length m = length (display_error e) \<and> (\<forall>c \<in> set m. \<not> is_control c) \<and>
        ((\<forall>c \<in> set (display_error e). \<not> is_control c) \<longrightarrow> m = display_error e))"

lemma user_error_clean: "clean_error code e (user_error code e)"
  unfolding clean_error_def user_error_def
  using sanitize_clean [of "display_error e"] sanitize_id [of "display_error e"] by blast

lemma to_pgerr_clean:
  "clean_error (case e of Backend m \<Rightarrow> ''XX000'' | Io m \<Rightarrow> ''XX000'' | Server m \<Rightarrow> ''XX000'' | _ \<Rightarrow> ''42000'') e (to_pgerr e)"
  by (cases e) (simp_all add: user_error_clean)



end
