(* ===== verification/Wire_Types.thy ===== *)
theory Wire_Types
  imports Pg_Results Create_Table
begin

text \<open>
  The way of a column through the components, for a SQLite target: the type mapping of \<open>CREATE TABLE\<close>,
  the declared type in SQLite's catalogue, the column kind guessed from it, the wire type a PostgreSQL
  client is told, the parameter type inferred from it, and the value sent.
\<close>

section \<open>Types through the catalogue\<close>

text \<open>
  The table a client's column types go through, in the words of PostgreSQL: the OID a result column of
  the type is announced with, and the one a parameter of that column is inferred to have. 16 is
  \<open>bool\<close>, 20 \<open>int8\<close>, 23 \<open>int4\<close>, 701 \<open>float8\<close>, 17 \<open>bytea\<close>, 25 \<open>text\<close>, 1700 \<open>numeric\<close>. Types that are in no row
  have no entry: the ones SQLite is sent unchanged.
\<close>

fun wire_row :: "'x data_type \<Rightarrow> (nat \<times> nat) option" where
  "wire_row (Plain t) =
     (if t \<in> {Bool, Boolean} then Some (16, 16)
      else if t \<in> {Float4, Float32, Real, RealUnsigned} then Some (701, 701)
      else if t \<in> {Float8, Float64, DoublePrecision, DoublePrecisionUnsigned} then Some (701, 701)
      else if t = Bytea then Some (17, 17)
      else if t \<in> {Text, TinyText, MediumText, LongText} then Some (25, 25)
      else if t \<in> {Date, Uuid, JSON, JSONB} then Some (25, 25)
      else None)"
| "wire_row (Sized t x) =
     (if t \<in> {BigInt, Int8, BigIntUnsigned, Int8Unsigned} then Some (20, 20)
      else if t \<in> {IntType, Int4, Integer, MediumInt, IntUnsigned, Int4Unsigned, IntegerUnsigned} then Some (23, 23)
      else if t \<in> {SmallInt, Int2, TinyInt, SmallIntUnsigned, Int2Unsigned} then Some (23, 23)
      else if t \<in> {Float, Double, DoubleUnsigned} then Some (701, 701)
      else if t \<in> {Binary, Varbinary, Blob, Bytes, Bit, BitVarying, VarBit} then Some (17, 17)
      else if t \<in> {Varchar, Char, Character, CharacterVarying, CharVarying, StringType, Clob} then Some (25, 25)
      else if t \<in> {Time, Datetime, Timestamp, TimestampNtz, Interval} then Some (25, 25)
      else if t \<in> {Numeric, Decimal, Dec, BigDecimal} then Some (25, 1700)
      else None)"
| "wire_row dt = None"

text \<open>The name a type is created with in SQLite, if the mapping gives it one.\<close>

fun sqlite_name :: "'x data_type \<Rightarrow> string option" where
  "sqlite_name (Custom n args) = None"
| "sqlite_name dt =
     (case map_type dt Sqlite of
        Inr (Custom [i] []) \<Rightarrow> Some (id_value i)
      | _ \<Rightarrow> None)"

lemma sqlite_names:
  "kind_to_pg_oid (sqlite_affinity_kind ''BOOLEAN'') = 16 \<and> oid_for_declared_type ''BOOLEAN'' = Some 16"
  "kind_to_pg_oid (sqlite_affinity_kind ''REAL'') = 701 \<and> oid_for_declared_type ''REAL'' = Some 701"
  "kind_to_pg_oid (sqlite_affinity_kind ''TEXT'') = 25 \<and> oid_for_declared_type ''TEXT'' = Some 25"
  "kind_to_pg_oid (sqlite_affinity_kind ''BLOB'') = 17 \<and> oid_for_declared_type ''BLOB'' = Some 17"
  "kind_to_pg_oid (sqlite_affinity_kind ''BIGINT'') = 20 \<and> oid_for_declared_type ''BIGINT'' = Some 20"
  "kind_to_pg_oid (sqlite_affinity_kind ''SMALLINT'') = 23 \<and> oid_for_declared_type ''SMALLINT'' = Some 23"
  "kind_to_pg_oid (sqlite_affinity_kind ''INTEGER'') = 23 \<and> oid_for_declared_type ''INTEGER'' = Some 23"
  "kind_to_pg_oid (sqlite_affinity_kind ''NUMERIC'') = 25 \<and> oid_for_declared_type ''NUMERIC'' = Some 1700"
  by code_simp+

lemma obj_name: "obj n = [ident_new n]" "id_value (ident_new n) = n"
  by (simp_all add: obj_def object_name_from_def ident_new_def)

text \<open>
  C33. Column types through SQLite's catalogue. A column's type is created under the name the type mapping
  gives it, and a client is told of the column by what is read back from that name: the kind guessed from
  it, as an OID, and the type inferred for a parameter of the column. For every type the mapping renames
  these are the two of \<open>wire_row\<close>, and for every type it does not rename there is no name: booleans, texts,
  byte strings and 32-bit and 64-bit integers arrive as themselves; the 16-bit and 8-bit integers as 32-bit
  ones and every float as the 64-bit one; dates, times, timestamps, intervals, UUIDs and JSON as texts, not
  as their own types; a numeric column is returned as text while its parameters are announced as numeric.
\<close>

theorem sqlite_column_types:
  "wire_row dt =
     map_option (\<lambda>s. (kind_to_pg_oid (sqlite_affinity_kind s), the (oid_for_declared_type s))) (sqlite_name dt) \<and>
   (case sqlite_name dt of Some s \<Rightarrow> oid_for_declared_type s \<noteq> None | None \<Rightarrow> True)"
proof (cases dt)
  case (Plain t)
  then show ?thesis by (cases t) (simp_all add: map_type_def obj_name sqlite_names)
next
  case (Sized t x)
  then show ?thesis by (cases t) (simp_all add: map_type_def type_groups obj_name sqlite_names)
qed (simp_all add: map_type_def)

section \<open>Generated ids\<close>

text \<open>
  C40. An auto-increment column of a SQLite target, whatever its width was, is created as \<open>INTEGER\<close>, so a
  client is told a 32-bit column, and an id of 64-bit size is not cut but sent as 0: exactly the ids
  between -2^31 and 2^31 - 1 arrive.
\<close>

theorem generated_ids_on_sqlite:
  assumes "detected P Sqlite col = Some w" "known 23" "is_integer v" "int_of_value v = Some n"
  shows "\<exists>col'. rewrite_column P Sqlite col = Inr (col', Some (id_value (col_name col))) \<and>
    col_data_type col' = named_type ''INTEGER'' \<and>
    fi_type (field_info_of known \<lparr>fm_name = id_value (col_name col'), fm_kind = sqlite_affinity_kind ''INTEGER''\<rparr> fmt) = 23 \<and>
    wire_int (wire_of R 23 (Some v)) = Some (if - (2 ^ 31) \<le> n \<and> n < 2 ^ 31 then n else 0)"
  using rewrite_column_ok [of P Sqlite col] assms(1,2) sqlite_names(7) wire_of_integer(2) [OF assms(3,4), of R]
  by (auto simp: field_info_of_def)

theorem generated_ids_on_sqlite_witness:
  "wire_int (wire_of sample_runtime 23 (Some (VBigInt 3000000000))) = Some 0"
proof -
  let ?col = "\<lparr>col_name = ident_new ''id'', col_data_type = Sized BigInt (), col_options = [auto_option ''AUTO_INCREMENT'']\<rparr>"
  have p: "show_name sample_parser (obj ''BIGINT'') = ''BIGINT''"
    by (simp add: sample_parser_def obj_def object_name_from_def ident_new_def)
  have d: "detected sample_parser Sqlite ?col = Some AutoInt" by code_simp
  from generated_ids_on_sqlite [OF d, of "\<lambda>t. True" "VBigInt 3000000000" 3000000000 TextFormat sample_runtime]
  show ?thesis by auto
qed

end
