(* ===== verification/Pg_Describe.thy ===== *)
theory Pg_Describe
  imports Pg_Results
begin

text \<open>
  Describe and Execute of the extended protocol, \<open>src/server/pg.rs\<close> over \<open>describe\<close> and \<open>fetch\<close> of
  \<open>src/backend/mod.rs\<close>: a client decodes the rows it is sent by the columns it was announced, and the two
  come from different texts, a wrapped probe and the statement itself.
\<close>

section \<open>The probe and the statement\<close>

lemma dropWhile_hd: "xs \<noteq> [] \<Longrightarrow> \<not> p (hd xs) \<Longrightarrow> dropWhile p xs = xs"
  by (cases xs) simp_all

text \<open>The select list of the probe is a star, which names no column of the catalog.\<close>

lemma probe_names: "sqlite_result_column_names (probe_sql t) = [None]"
proof -
  have "trim (probe_sql t) = probe_sql t"
    by (simp add: trim_matches_def trim_start_def trim_end_def probe_sql_def dropWhile_hd is_whitespace_def)
  moreover have "find_sub '' FROM '' (to_ascii_uppercase (probe_sql t)) = Some 8"
    by (simp add: probe_sql_def to_ascii_uppercase_def ascii_upper_def starts_with_def)
  moreover have "starts_with ''SELECT'' (to_ascii_uppercase (probe_sql t))"
    by (simp add: probe_sql_def to_ascii_uppercase_def ascii_upper_def starts_with_def)
  moreover have "take 8 (probe_sql t) = ''SELECT *''"
    by (simp add: probe_sql_def)
  moreover have "result_column_name '' *'' = None" by code_simp
  ultimately show ?thesis by (simp add: sqlite_result_column_names_def Let_def)
qed

text \<open>The kinds the catalog gives, on a backend whose probes are reads.\<close>

definition catalog_kinds :: "'db driver \<Rightarrow> 'db \<Rightarrow> string \<Rightarrow> nat \<Rightarrow> type_kind option list" where
  "catalog_kinds D c sql n =
     (if snd (from_conn D c) = Sqlite then snd (resolve_sqlite_column_kinds D c sql n) else [])"

lemma probe_kinds: "get (catalog_kinds D c (probe_sql t) n) i \<in> {None, Some None}"
  by (auto simp: catalog_kinds_def resolve_sqlite_column_kinds_def Let_def probe_names get_def split: prod.splits if_splits)

lemma fetch_first:
  assumes "quiet_probes D" "dv_fetch_all D c sql = (c, Inr (first # others))"
  shows "fetch D c sql =
    (c, map_res (Pair (map (column_field first (catalog_kinds D c sql (length (row_columns first)))) [0..<length (row_columns first)]))
          (try_map (decode_row (length (row_columns first))) (first # others)))"
proof -
  obtain d where d: "from_conn D c = (c, d)" using from_conn_quiet [OF assms(1), of c] by (metis prod.collapse)
  obtain a where a: "resolve_sqlite_column_kinds D c sql (length (row_columns first)) = (c, a)"
    using resolve_quiet [OF assms(1), of c sql] by (metis prod.collapse)
  show ?thesis using assms(2) d a by (simp add: fetch_def catalog_kinds_def Let_def del: try_map.simps)
qed

lemma reapply_first:
  assumes "quiet_probes D"
  shows "reapply_sqlite_kinds D c sql cols =
    (c, map (override_kind (catalog_kinds D c sql (length cols))) (enumerate 0 cols))"
proof -
  obtain d where d: "from_conn D c = (c, d)" using from_conn_quiet [OF assms(1), of c] by (metis prod.collapse)
  obtain a where a: "resolve_sqlite_column_kinds D c sql (length cols) = (c, a)"
    using resolve_quiet [OF assms(1), of c sql] by (metis prod.collapse)
  have "map (override_kind []) (enumerate 0 cols) = cols"
    by (rule nth_equalityI) (auto simp: override_kind_def get_def nth_enumerate_eq)
  with d a show ?thesis by (simp add: reapply_sqlite_kinds_def catalog_kinds_def)
qed

lemma override_probe:
  assumes "\<And>i. get a i \<in> {None, Some None}"
  shows "map (override_kind b) (enumerate 0 (map (column_field row a) [0..<n])) = map (column_field row b) [0..<n]"
proof (rule nth_equalityI)
  fix i assume "i < length (map (override_kind b) (enumerate 0 (map (column_field row a) [0..<n])))"
  then have i: "i < n" by simp
  from assms [of i] have "get a i = None \<or> get a i = Some None" by simp
  with i show "map (override_kind b) (enumerate 0 (map (column_field row a) [0..<n])) ! i = map (column_field row b) [0..<n] ! i"
    by (auto simp: nth_enumerate_eq override_kind_def column_field_def column_kind_def Let_def split: option.splits)
qed simp

text \<open>
  The columns described are those fetched: for a statement that reads, on any backend, when the wrapped
  probe gives its first row.
\<close>

lemma describe_as_fetched:
  assumes "quiet_probes D" "dv_fetch_all D c sql = (c, Inr (first # others))"
    "dv_fetch_all D c (probe_sql sql) = (c, Inr [first])" "fetch D c sql = (c', Inr (cols, rows))"
  shows "c' = c \<and> rows \<noteq> [] \<and> describe D c sql = (c, Inr cols)"
proof -
  let ?n = "length (row_columns first)"
  let ?cols = "map (column_field first (catalog_kinds D c sql ?n)) [0..<?n]"
  from assms(4) fetch_first [OF assms(1,2)] have cols: "c' = c" "cols = ?cols"
    "try_map (decode_row ?n) (first # others) = Inr rows"
    by (auto simp del: try_map.simps)
  then obtain vals where vals: "decode_row ?n first = Inr vals" "rows \<noteq> []"
    unfolding try_map_Inr list_all2_Cons1 by blast
  have "fetch D c (probe_sql sql) =
      (c, Inr (map (column_field first (catalog_kinds D c (probe_sql sql) ?n)) [0..<?n], [vals]))"
    using fetch_first [OF assms(1,3)] vals by simp
  moreover have "reapply_sqlite_kinds D c sql (map (column_field first (catalog_kinds D c (probe_sql sql) ?n)) [0..<?n]) = (c, ?cols)"
    using reapply_first [OF assms(1)] override_probe [OF probe_kinds] by simp
  ultimately show ?thesis using cols vals by (simp add: describe_def)
qed

section \<open>Describe and Execute\<close>

lemma intercept_passes:
  assumes "\<not> intercepted P s stmt"
  shows "intercept_statement R D P s c stmt = (c, Inr None)"
  using assms intercept_kinds [of P s stmt R D c] by (metis intercepted_def prod.collapse)

lemma run_query:
  assumes "split_statements P front sql = Inr [Query q]" "\<not> intercepted P s (Query q)"
    "backend_text P (ss_translator s) (Query q) = Inr t" "ss_conn s = Some c" "fetch D c t = (c, r)"
  shows "run_script R D P s front sql = (s, map_res (\<lambda>(cols, rows). [Rows cols rows]) r)"
proof -
  have "connection D s = (s, Inr c)" using assms(4) by (simp add: connection_def)
  moreover have "run_statement R D P s (Query q) = (s, map_res (\<lambda>(cols, rows). Rows cols rows) r)"
    using assms intercept_passes [OF assms(2), of R D c] by (cases r) (auto simp: run_statement_def)
  ultimately show ?thesis using assms(1) by (cases r) (auto simp: run_script_def)
qed

text \<open>The columns of a schema as a client tells them apart: their names and their types.\<close>

definition announced :: "field_info list \<Rightarrow> (string \<times> nat) list" where
  "announced schema = map (\<lambda>f. (fi_name f, fi_type f)) schema"

lemma announced_schema:
  "announced (schema_for known cols format_for) = announced (map (\<lambda>f. field_info_of known f TextFormat) cols)"
  by (rule nth_equalityI) (auto simp: announced_def schema_for_def nth_enumerate_eq field_info_of_def Let_def)

text \<open>A portal of one query without parameters, and the text the backend is sent for it.\<close>

definition plain_query :: "bool \<Rightarrow> 'x sqlparser \<Rightarrow> translator \<Rightarrow> portal \<Rightarrow> 'x query \<Rightarrow> string \<Rightarrow> bool" where
  "plain_query chk P tr p q t \<longleftrightarrow>
     split_statements P FrontPostgres (pt_statement p) = Inr [Query q] \<and>
     backend_text P tr (Query q) = Inr t \<and> translate_statement P tr (Query q) = Inr t \<and>
     pt_len p = 0 \<and> (\<exists>hs. parse_hints P (pt_statement p) = Some hs \<and> h_columns hs = [] \<and> h_max_index hs = 0) \<and>
     neutralize chk t = Inr t \<and> substitute_placeholders chk (pt_statement p) [] = Inr (pt_statement p)"

text \<open>
  C35. What Describe announces is what Execute sends, for the portals that can be compared: one query that
  the proxy does not answer itself, without parameters and without a placeholder or column that would have
  its type looked up, whose translation, which Describe probes, is also the text Execute sends
  (\<open>plain_query\<close>); on a session that has its connection, to a backend on which the proxy's own lookups change
  nothing (\<open>quiet_probes\<close>), which has at least one row for the query and gives the first one for its wrapped
  probe. Under these conditions an execution that succeeds sends rows whose columns have, in order, the
  names and the types that describing the portal announces, SQLite's columns of guessed types included, and
  neither changes the session.
\<close>

theorem described_as_executed:
  assumes "quiet_probes D" "ss_conn (get_session h ext) = Some c"
    "plain_query chk P (ss_translator (get_session h ext)) p q t" "\<not> intercepted P (get_session h ext) (Query q)"
    "dv_fetch_all D c t = (c, Inr (first # others))" "dv_fetch_all D c (probe_sql t) = (c, Inr [first])"
    "pg_extended_query chk R E known D P h ext p = (s', Inr r)"
  shows "s' = get_session h ext \<and>
    (\<exists>schema described rows. r = QueryResponse schema rows \<and> rows \<noteq> [] \<and>
       describe_portal chk known D P h ext p = (get_session h ext, Inr described) \<and> announced described = announced schema)"
proof -
  let ?s = "get_session h ext"
  note plain = assms(3) [unfolded plain_query_def]
  obtain f where f: "fetch D c t = (c, f)" using fetch_first [OF assms(1,5)] by simp
  have conn: "connection D ?s = (?s, Inr c)" using assms(2) by (simp add: connection_def)
  have same: "?s\<lparr>ss_conn := Some c\<rparr> = ?s" using assms(2) by simp
  have "\<exists>types. effective_param_types chk known R D P ?s p = (?s, Inr types)"
    using plain conn same
    by (auto simp: effective_param_types_def statement_types_def infer_param_types_def param_types_def)
  then have run: "(s', Inr r) = run_bound R E known D P ?s (pt_format p) (pt_statement p)"
    using assms(7) plain by (auto simp: pg_extended_query_def params_as_literals_def)
  have "run_script R D P ?s FrontPostgres (pt_statement p) = (?s, map_res (\<lambda>(cols, rows). [Rows cols rows]) f)"
    using plain run_query [OF _ assms(4) _ assms(2) f] by blast
  with run obtain cols rows schema out where s': "s' = ?s" and rows: "f = Inr (cols, rows)"
    and r: "r = QueryResponse (schema_for known cols (pt_format p)) out"
      "encode_rows R E (schema_for known cols (pt_format p)) rows = Inr out"
    by (cases f) (auto simp: run_bound_def first_pg_outcome_def Let_def split: sum.splits)
  note d = describe_as_fetched [OF assms(1,5,6) f [unfolded rows]]
  have "out \<noteq> []" using r(2) d by (auto simp: encode_rows_Inr)
  moreover have "describe_portal chk known D P h ext p = (?s, Inr (map (\<lambda>f. field_info_of known f TextFormat) cols))"
    using plain conn same d by (simp add: describe_portal_def probe_result_schema_def probe_backend_def)
  ultimately show ?thesis using s' r(1) announced_schema [of known cols "pt_format p"] by auto
qed

text \<open>
  The statements that give rows without being queries (\<open>SHOW\<close>, \<open>DESCRIBE\<close>) are described without columns;
  executed, they send rows all the same.
\<close>

theorem shown_rows_not_described:
  assumes "session_ok (pg_dialect h) (pg_translator h) (get_session h ext)"
    "split_statements P FrontPostgres (pt_statement p) = Inr [stmt]" "gives_rows (pg_dialect h) stmt" "\<not> is_select stmt"
    "run_bound R E known D P (get_session h ext) (pt_format p) (pt_statement p) = (s', Inr r)"
  shows "describe_portal chk known D P h ext p = (get_session h ext, Inr []) \<and> (\<exists>schema rows. r = QueryResponse schema rows)"
proof
  from assms(3,4) have "\<not> has_returning stmt" by (cases stmt) simp_all
  with assms(2,4) show "describe_portal chk known D P h ext p = (get_session h ext, Inr [])"
    by (simp add: describe_portal_def probe_result_schema_def)
  obtain outs where run: "run_script R D P (get_session h ext) FrontPostgres (pt_statement p) = (s', Inr outs)"
    and r: "response_for R E known (pt_format p) (first_pg_outcome outs) = Inr r"
    using assms(5) by (auto simp: run_bound_def split: prod.splits sum.splits)
  from run_script_succeeds [OF assms(1) run] assms(2) obtain out where
    "outs = [out]" "outcome_fits (pg_dialect h) stmt out" by (auto simp: list_all2_Cons1)
  with r assms(3) show "\<exists>schema rows. r = QueryResponse schema rows"
    by (cases out) (auto simp: first_pg_outcome_def outcome_fits_def Let_def)
qed

text \<open>A query of one column on SQLite, for a PostgreSQL client.\<close>

definition described_query :: "unit query" where
  "described_query = \<lparr>q_body = Select \<lparr>sel_projection = [UnnamedExpr (Identifier (ident_new ''a''))],
     sel_from = [], sel_selection = None, sel_rest = ()\<rparr>, q_limit_clause = None, q_rest = ()\<rparr>"

definition described_text :: string where
  "described_text = ''SELECT '' @ [dquote] @ ''a'' @ [dquote] @ '' FROM '' @ [dquote] @ ''t'' @ [dquote]"

definition described_session :: "nat session" where
  "described_session = (new_session Sqlite (new_translator FrontPostgres Sqlite))\<lparr>ss_conn := Some 0\<rparr>"

lemma described_plain:
  "plain_query chk (demo_parser [Query described_query]) (new_translator FrontPostgres Sqlite)
     (sample_portal ''SELECT a FROM t'' [] []) described_query described_text"
proof -
  have "translate_statement (demo_parser [Query described_query]) (new_translator FrontPostgres Sqlite) (Query described_query) =
      Inr described_text"
    by code_simp
  moreover have "parse_hints (demo_parser [Query described_query]) ''SELECT a FROM t'' = Some no_hints"
    by code_simp
  moreover have "max_positional_placeholder described_text = 0" by code_simp
  moreover have "substitute_placeholders chk described_text [] = Inr described_text"
    "substitute_placeholders chk ''SELECT a FROM t'' [] = Inr ''SELECT a FROM t''"
    by (cases chk; code_simp)+
  ultimately show ?thesis
    by (simp add: plain_query_def sample_portal_def split_statements_def demo_parser_def backend_text_def
      new_translator_def front_dialect_matches_target_def neutralize_def vec_repeat_def no_hints_def)
qed

theorem described_as_executed_witness:
  "\<exists>schema rows described. snd (pg_extended_query False sample_runtime (\<lambda>c w. Inr None) (\<lambda>t. True) (sample_driver True)
       (demo_parser [Query described_query]) (pg_handlers_new Sqlite FrontPostgres None None) (Some described_session)
       (sample_portal ''SELECT a FROM t'' [] [])) = Inr (QueryResponse schema rows) \<and> rows \<noteq> [] \<and>
     snd (describe_portal False (\<lambda>t. True) (sample_driver True) (demo_parser [Query described_query])
       (pg_handlers_new Sqlite FrontPostgres None None) (Some described_session) (sample_portal ''SELECT a FROM t'' [] [])) =
       Inr described \<and> announced described = announced schema"
proof -
  let ?P = "demo_parser [Query described_query]" and ?D = "sample_driver True" and ?p = "sample_portal ''SELECT a FROM t'' [] []"
  let ?h = "pg_handlers_new Sqlite FrontPostgres None None" and ?E = "\<lambda>c w. Inr None"
  have s: "get_session ?h (Some described_session) = described_session" "ss_conn described_session = Some 0"
    "ss_translator described_session = new_translator FrontPostgres Sqlite"
    by (simp_all add: get_session_def described_session_def new_session_def)
  have passes: "\<not> intercepted ?P described_session (Query described_query)" by code_simp
  have rows: "dv_fetch_all ?D 0 t = (0, Inr [id_row 5])" for t by (simp add: sample_driver_def)
  have "\<not> isl (snd (pg_extended_query False sample_runtime ?E (\<lambda>t. True) ?D ?P ?h (Some described_session) ?p))"
    by code_simp
  then obtain s' r where run: "pg_extended_query False sample_runtime ?E (\<lambda>t. True) ?D ?P ?h (Some described_session) ?p = (s', Inr r)"
    by (cases "pg_extended_query False sample_runtime ?E (\<lambda>t. True) ?D ?P ?h (Some described_session) ?p") (metis isl_def old.sum.exhaust snd_conv)
  show ?thesis
    using described_as_executed [OF sample_driver_quiet _ _ _ rows rows run, of described_query described_text]
      described_plain passes run
    unfolding s by auto
qed

end
