(* ===== verification/Pg_Protocol.thy ===== *)
theory Pg_Protocol
  imports Pg_Results
begin

text \<open>
  A PostgreSQL connection as a state machine: its state is the session among the client's extensions,
  its steps are the four requests the handlers of \<open>src/server/pg.rs\<close> answer.
\<close>

section \<open>Requests\<close>

datatype pg_request =
    SimpleQuery string
  | Execute portal
  | DescribeStatement "nat option list" string
  | DescribePortal portal

text \<open>The session a request leaves, whatever it answers.\<close>

fun session_after ::
  "bool \<Rightarrow> runtime \<Rightarrow> encoder \<Rightarrow> (nat \<Rightarrow> bool) \<Rightarrow> 'db driver \<Rightarrow> 'x sqlparser \<Rightarrow> pg_handlers \<Rightarrow> 'db session option \<Rightarrow>
   pg_request \<Rightarrow> 'db session" where
  "session_after chk R E known D P h ext (SimpleQuery sql) = fst (pg_simple_query R E known D P h ext sql)"
| "session_after chk R E known D P h ext (Execute p) = fst (pg_extended_query chk R E known D P h ext p)"
| "session_after chk R E known D P h ext (DescribeStatement tys sql) = fst (describe_statement chk R known D P h ext tys sql)"
| "session_after chk R E known D P h ext (DescribePortal p) = fst (describe_portal chk known D P h ext p)"

inductive pg_reachable ::
  "bool \<Rightarrow> runtime \<Rightarrow> encoder \<Rightarrow> (nat \<Rightarrow> bool) \<Rightarrow> 'db driver \<Rightarrow> 'x sqlparser \<Rightarrow> pg_handlers \<Rightarrow> 'db session option \<Rightarrow> bool"
  for chk R E known D P h
where
  connected: "pg_reachable chk R E known D P h None"
| request: "pg_reachable chk R E known D P h ext \<Longrightarrow>
    pg_reachable chk R E known D P h (Some (session_after chk R E known D P h ext req))"

inductive_simps pg_reachable_None: "pg_reachable chk R E known D P h None"
inductive_cases pg_reachable_Some: "pg_reachable chk R E known D P h (Some s)"

section \<open>What a request can change\<close>

text \<open>The same session but for its connection, which is kept once there is one.\<close>

definition same_session :: "'db session \<Rightarrow> 'db session \<Rightarrow> bool" where
  "same_session s s' \<longleftrightarrow>
     ss_dialect s' = ss_dialect s \<and> ss_translator s' = ss_translator s \<and>
     ss_last_insert_id s' = ss_last_insert_id s \<and> (ss_conn s \<noteq> None \<longrightarrow> ss_conn s' \<noteq> None)"

lemma same_session_refl [simp]: "same_session s s"
  by (simp add: same_session_def)

lemma same_session_trans: "same_session s s1 \<Longrightarrow> same_session s1 s2 \<Longrightarrow> same_session s s2"
  by (simp add: same_session_def)

lemma same_session_ok: "same_session s s' \<Longrightarrow> session_ok dialect tr s \<Longrightarrow> session_ok dialect tr s'"
  by (simp add: same_session_def session_ok_def)

lemma connection_same: "connection D s = (s1, r) \<Longrightarrow> same_session s s1"
  by (auto simp: connection_def same_session_def split: option.splits sum.splits)

lemma connection_used: "connection D s = (s1, r) \<Longrightarrow> same_session s (s1\<lparr>ss_conn := Some c\<rparr>)"
  by (drule connection_same) (simp add: same_session_def)

lemma statement_types_same: "same_session s (fst (statement_types chk known R D P s declared sql))"
  by (auto simp: statement_types_def connection_same connection_used split: prod.splits sum.splits)

lemma probe_backend_same: "same_session s (fst (probe_backend known D s sql))"
  by (auto simp: probe_backend_def connection_same connection_used split: prod.splits sum.splits)

lemma probe_same: "same_session s (fst (probe_result_schema chk known D P s sql))"
  by (auto simp: probe_result_schema_def probe_backend_same split: prod.splits sum.splits list.splits)

lemma describe_portal_same: "same_session (get_session h ext) (fst (describe_portal chk known D P h ext p))"
  using probe_same [of "get_session h ext" chk known D P "pt_statement p"]
  by (auto simp: describe_portal_def split: prod.splits sum.splits)

lemma describe_statement_same: "same_session (get_session h ext) (fst (describe_statement chk R known D P h ext tys sql))"
proof -
  obtain s r where st: "statement_types chk known R D P (get_session h ext) tys sql = (s, r)"
    by (cases "statement_types chk known R D P (get_session h ext) tys sql")
  have "same_session (get_session h ext) s"
    using statement_types_same [of "get_session h ext" chk known R D P tys sql] st by simp
  then show ?thesis
    using probe_same [of s chk known D P sql] st
    by (auto simp: describe_statement_def same_session_trans split: prod.splits sum.splits)
qed

text \<open>A script keeps a connected session connected, and only an \<open>INSERT\<close> can store an id.\<close>

lemma run_script_connected:
  assumes "session_ok dialect tr s" "ss_conn s \<noteq> None"
  shows "ss_conn (fst (run_script R D P s front sql)) \<noteq> None"
proof (cases rule: run_script_cases [of P front sql R D s])
  case (run stmts s1 conn)
  then have "ready dialect tr s1" using assms(1) by (simp add: ready_def session_ok_def)
  from script.run_inv [OF this, of R D P stmts] run show ?thesis by (simp add: ready_def)
qed (use assms in auto)

lemma run_statement_id:
  assumes "\<not> is_insert stmt"
  shows "ss_last_insert_id (fst (run_statement R D P s stmt)) = ss_last_insert_id s"
proof (cases "ss_conn s")
  case None
  then show ?thesis by (simp add: run_statement_def)
next
  case (Some conn)
  then show ?thesis
    by (cases rule: run_statement_cases [of s conn R D P stmt]) (simp_all add: track_insert_id_def assms)
qed

lemma run_steps_id:
  "\<forall>stmt \<in> set stmts. \<not> is_insert stmt \<Longrightarrow>
   ss_last_insert_id (fst (run_steps (run_statement R D P) s stmts)) = ss_last_insert_id s"
proof (induction stmts arbitrary: s)
  case (Cons stmt stmts)
  obtain s1 r where st: "run_statement R D P s stmt = (s1, r)" by (cases "run_statement R D P s stmt")
  with run_statement_id [of stmt R D P s] Cons.prems have "ss_last_insert_id s1 = ss_last_insert_id s" by simp
  with Cons.IH [of s1] Cons.prems st show ?case by (auto split: sum.splits prod.splits)
qed simp

definition inserts :: "'x sqlparser \<Rightarrow> string \<Rightarrow> bool" where
  "inserts P sql \<longleftrightarrow> (case split_statements P FrontPostgres sql of Inl f \<Rightarrow> False | Inr stmts \<Rightarrow> list_ex is_insert stmts)"

lemma run_script_id:
  assumes "\<not> inserts P sql"
  shows "ss_last_insert_id (fst (run_script R D P s FrontPostgres sql)) = ss_last_insert_id s"
proof (cases rule: run_script_cases [of P FrontPostgres sql R D s])
  case (run stmts s1 conn)
  then have "\<forall>stmt \<in> set stmts. \<not> is_insert stmt" using assms by (simp add: inserts_def list_ex_iff)
  from run_steps_id [OF this, of R D P s1] run show ?thesis by simp
qed auto

lemma simple_query_session:
  "fst (pg_simple_query R E known D P h ext sql) = fst (run_script R D P (get_session h ext) FrontPostgres sql)"
  by (auto simp: pg_simple_query_def split: prod.splits sum.splits)

text \<open>An executed portal leaves the session as it found it, or as one script leaves it.\<close>

lemma extended_query_session:
  obtains
    (stopped) "same_session (get_session h ext) (fst (pg_extended_query chk R E known D P h ext p))"
  | (ran) s types literals sql where
    "same_session (get_session h ext) s" "params_as_literals R p types = Inr literals"
    "substitute_placeholders chk (pt_statement p) literals = Inr sql"
    "fst (pg_extended_query chk R E known D P h ext p) = fst (run_script R D P s FrontPostgres sql)"
proof -
  obtain s r where st: "effective_param_types chk known R D P (get_session h ext) p = (s, r)"
    by (cases "effective_param_types chk known R D P (get_session h ext) p")
  have same: "same_session (get_session h ext) s"
    using statement_types_same [of "get_session h ext" chk known R D P "pt_types p" "pt_statement p"] st
    by (simp add: effective_param_types_def)
  show ?thesis
  proof (cases "\<exists>types literals sql. r = Inr types \<and> params_as_literals R p types = Inr literals \<and>
      substitute_placeholders chk (pt_statement p) literals = Inr sql")
    case True
    then obtain types literals sql where
      "r = Inr types" "params_as_literals R p types = Inr literals"
      "substitute_placeholders chk (pt_statement p) literals = Inr sql" by blast
    moreover from this have "fst (pg_extended_query chk R E known D P h ext p) = fst (run_script R D P s FrontPostgres sql)"
      using st by (auto simp: pg_extended_query_def run_bound_def split: prod.splits sum.splits)
    ultimately show ?thesis using same ran by blast
  next
    case False
    then have "fst (pg_extended_query chk R E known D P h ext p) = s"
      using st by (auto simp: pg_extended_query_def split: sum.splits)
    with same stopped show ?thesis by simp
  qed
qed

section \<open>The invariant of a connection\<close>

lemma session_after_ok:
  assumes "session_ok dialect tr (get_session h ext)"
  shows "session_ok dialect tr (session_after chk R E known D P h ext req) \<and>
    (ss_conn (get_session h ext) \<noteq> None \<longrightarrow> ss_conn (session_after chk R E known D P h ext req) \<noteq> None)"
proof (cases req)
  case (SimpleQuery sql)
  then show ?thesis
    by (simp add: simple_query_session run_script_ok [OF assms] run_script_connected [OF assms])
next
  case (Execute p)
  show ?thesis
  proof (cases rule: extended_query_session [of h ext chk R E known D P p])
    case stopped
    with Execute same_session_ok [OF stopped assms] show ?thesis by (simp add: same_session_def)
  next
    case (ran s types literals sql)
    note ok = same_session_ok [OF ran(1) assms]
    from Execute ran show ?thesis
      by (simp add: same_session_def run_script_ok [OF ok] run_script_connected [OF ok])
  qed
next
  case (DescribeStatement tys sql)
  then show ?thesis
    using describe_statement_same [of h ext chk R known D P tys sql] assms same_session_ok by (auto simp: same_session_def)
next
  case (DescribePortal p)
  then show ?thesis
    using describe_portal_same [of h ext chk known D P p] assms same_session_ok by (auto simp: same_session_def)
qed

lemma pg_reachable_ok:
  "pg_reachable chk R E known D P h ext \<Longrightarrow> session_ok (pg_dialect h) (pg_translator h) (get_session h ext)"
proof (induction rule: pg_reachable.induct)
  case connected
  show ?case by (simp add: get_session_def session_ok_def new_session_def)
next
  case (request ext req)
  from session_after_ok [OF request.IH, of chk R E known D P req] show ?case
    by (simp add: get_session_def [of h "Some _"])
qed

text \<open>The statements a request can store an id with: none for a Describe.\<close>

fun may_insert :: "'x sqlparser \<Rightarrow> pg_request \<Rightarrow> bool" where
  "may_insert P (SimpleQuery sql) \<longleftrightarrow> inserts P sql"
| "may_insert P (Execute p) \<longleftrightarrow> True"
| "may_insert P req \<longleftrightarrow> False"

lemma request_keeps_id:
  assumes "\<not> may_insert P req"
  shows "ss_last_insert_id (session_after chk R E known D P h ext req) = ss_last_insert_id (get_session h ext)"
proof (cases req)
  case (SimpleQuery sql)
  with assms run_script_id [of P sql R D "get_session h ext"] show ?thesis by (simp add: simple_query_session)
next
  case (DescribeStatement tys sql)
  with describe_statement_same [of h ext chk R known D P tys sql] show ?thesis by (simp add: same_session_def)
next
  case (DescribePortal p)
  with describe_portal_same [of h ext chk known D P p] show ?thesis by (simp add: same_session_def)
qed (use assms in simp)

end
