(* ===== verification/Dedicated.thy ===== *)
theory Dedicated
  imports Pg_Protocol Mysql_Server
begin

text \<open>
  A wire session has one backend connection of its own. Only \<open>Session::connection\<close> acquires one; every
  other operation is the same function whatever acquiring would give, so a connected session does not
  depend on the pool again.
\<close>

section \<open>Operations that do not acquire\<close>

abbreviation repool :: "'db driver \<Rightarrow> string + 'db \<Rightarrow> 'db driver" where
  "repool D a \<equiv> D\<lparr>dv_acquire := a\<rparr>"

named_theorems same_pool

lemma driver_pool [same_pool]:
  "dv_fetch_all (repool D a) = dv_fetch_all D" "dv_fetch_optional (repool D a) = dv_fetch_optional D"
  "dv_fetch_one (repool D a) = dv_fetch_one D" "dv_execute (repool D a) = dv_execute D"
  by simp_all

lemma from_conn_pool [same_pool]: "from_conn (repool D a) conn = from_conn D conn"
  unfolding from_conn_def same_pool ..

lemma last_rowid_pool [same_pool]: "last_rowid (repool D a) conn lid = last_rowid D conn lid"
  unfolding last_rowid_def same_pool ..

lemma execute_pool [same_pool]: "execute (repool D a) conn sql = execute D conn sql"
  unfolding execute_def same_pool ..

lemma table_affinities_pool [same_pool]: "table_affinities (repool D a) conn m ts = table_affinities D conn m ts"
  by (induction ts arbitrary: conn m) (auto split: prod.splits sum.splits)

lemma resolve_pool [same_pool]: "resolve_sqlite_column_kinds (repool D a) conn sql n = resolve_sqlite_column_kinds D conn sql n"
  unfolding resolve_sqlite_column_kinds_def same_pool ..

lemma fetch_pool [same_pool]: "fetch (repool D a) conn sql = fetch D conn sql"
  unfolding fetch_def same_pool ..

lemma reapply_pool [same_pool]: "reapply_sqlite_kinds (repool D a) conn sql cols = reapply_sqlite_kinds D conn sql cols"
  unfolding reapply_sqlite_kinds_def same_pool ..

lemma describe_pool [same_pool]: "describe (repool D a) conn sql = describe D conn sql"
  unfolding describe_def same_pool ..

lemma listings_pool [same_pool]:
  "run_rows (repool D a) conn sql = run_rows D conn sql"
  "column_listing (repool D a) s conn raw = column_listing D s conn raw"
  unfolding run_rows_def column_listing_def same_pool by simp_all

lemma shows_pool [same_pool]:
  "show_tables (repool D a) s conn opts = show_tables D s conn opts"
  "show_databases (repool D a) s conn = show_databases D s conn"
  "show_columns (repool D a) P s conn opts = show_columns D P s conn opts"
  "describe_table (repool D a) P s conn name = describe_table D P s conn name"
  "show_create_table R (repool D a) P s conn name = show_create_table R D P s conn name"
  unfolding show_tables_def show_databases_def show_columns_def describe_table_def show_create_table_def same_pool
  by simp_all

lemma intercept_statement_pool [same_pool]: "intercept_statement R (repool D a) P s conn stmt = intercept_statement R D P s conn stmt"
  unfolding intercept_statement_def same_pool ..

lemma track_pool [same_pool]: "track_insert_id (repool D a) s conn stmt lid = track_insert_id D s conn stmt lid"
  unfolding track_insert_id_def same_pool ..

lemma run_statement_pool [same_pool]: "run_statement R (repool D a) P = run_statement R D P"
  by (intro ext) (simp only: run_statement_def same_pool)

lemma column_decl_pool [same_pool]: "column_decl R (repool D a) conn t c b = column_decl R D conn t c b"
  unfolding column_decl_def same_pool ..

lemma declared_oid_pool [same_pool]: "declared_oid R (repool D a) conn t c b = declared_oid R D conn t c b"
  unfolding declared_oid_def same_pool ..

lemma search_tables_pool [same_pool]: "search_tables R (repool D a) conn ts c b = search_tables R D conn ts c b"
  by (induction ts arbitrary: conn) (auto simp: same_pool split: prod.splits option.splits)

lemma resolve_hint_pool [same_pool]: "resolve_hint R (repool D a) b ts conn c = resolve_hint R D b ts conn c"
  unfolding resolve_hint_def same_pool ..

lemma resolve_hints_pool [same_pool]: "resolve_hints R (repool D a) b ts conn cs = resolve_hints R D b ts conn cs"
  by (induction cs arbitrary: conn) (auto simp: same_pool split: prod.splits)

lemma infer_pool [same_pool]: "infer_param_types chk known R (repool D a) P conn sql = infer_param_types chk known R D P conn sql"
  unfolding infer_param_types_def catalog_is_sqlite_def same_pool ..

section \<open>A connected session\<close>

lemma connection_pool: "ss_conn s \<noteq> None \<Longrightarrow> connection (repool D a) s = connection D s"
  by (auto simp: connection_def)

lemma run_script_pool:
  assumes "ss_conn s \<noteq> None"
  shows "run_script R (repool D a) P s front sql = run_script R D P s front sql"
  unfolding run_script_def same_pool connection_pool [OF assms] ..

lemma statement_types_pool:
  assumes "ss_conn s \<noteq> None"
  shows "statement_types chk known R (repool D a) P s tys sql = statement_types chk known R D P s tys sql"
  unfolding statement_types_def same_pool connection_pool [OF assms] ..

lemma probe_pool:
  assumes "ss_conn s \<noteq> None"
  shows "probe_result_schema chk known (repool D a) P s sql = probe_result_schema chk known D P s sql"
  unfolding probe_result_schema_def probe_backend_def same_pool connection_pool [OF assms] ..

lemma statement_types_connected:
  assumes "ss_conn s \<noteq> None" "statement_types chk known R D P s tys sql = (s1, r)"
  shows "ss_conn s1 \<noteq> None"
  using statement_types_same [of s chk known R D P tys sql] assms by (simp add: same_session_def)

text \<open>What a request answers, its session aside.\<close>

datatype pg_answer =
    Responses "pg_fault + response list"
  | Executed "pg_fault + response"
  | Described "pg_fault + nat list \<times> field_info list"
  | DescribedPortal "pg_fault + field_info list"

fun answer ::
  "bool \<Rightarrow> runtime \<Rightarrow> encoder \<Rightarrow> (nat \<Rightarrow> bool) \<Rightarrow> 'db driver \<Rightarrow> 'x sqlparser \<Rightarrow> pg_handlers \<Rightarrow> 'db session option \<Rightarrow>
   pg_request \<Rightarrow> pg_answer" where
  "answer chk R E known D P h ext (SimpleQuery sql) = Responses (snd (pg_simple_query R E known D P h ext sql))"
| "answer chk R E known D P h ext (Execute p) = Executed (snd (pg_extended_query chk R E known D P h ext p))"
| "answer chk R E known D P h ext (DescribeStatement tys sql) = Described (snd (describe_statement chk R known D P h ext tys sql))"
| "answer chk R E known D P h ext (DescribePortal p) = DescribedPortal (snd (describe_portal chk known D P h ext p))"

lemma extended_query_pool:
  assumes c: "ss_conn (get_session h ext) \<noteq> None"
  shows "pg_extended_query chk R E known (repool D a) P h ext p = pg_extended_query chk R E known D P h ext p"
proof -
  obtain s r where st: "statement_types chk known R D P (get_session h ext) (pt_types p) (pt_statement p) = (s, r)"
    by (cases "statement_types chk known R D P (get_session h ext) (pt_types p) (pt_statement p)")
  note s = statement_types_connected [OF c st]
  show ?thesis
    unfolding pg_extended_query_def effective_param_types_def statement_types_pool [OF c] st run_bound_def
      prod.case run_script_pool [OF s] ..
qed

lemma describe_statement_pool:
  assumes c: "ss_conn (get_session h ext) \<noteq> None"
  shows "describe_statement chk R known (repool D a) P h ext tys sql = describe_statement chk R known D P h ext tys sql"
proof -
  obtain s r where st: "statement_types chk known R D P (get_session h ext) tys sql = (s, r)"
    by (cases "statement_types chk known R D P (get_session h ext) tys sql")
  note s = statement_types_connected [OF c st]
  show ?thesis
    unfolding describe_statement_def statement_types_pool [OF c] st prod.case probe_pool [OF s] ..
qed

text \<open>
  C4. A client does not depend on the pool once it has its backend connection: no later request of it
  acquires one. Whatever the pool would answer from then on, another connection or a failure, each
  PostgreSQL request, a query, an execution or a Describe, gives the same answer and leaves the same session,
  still connected, and each MySQL query gives the same answer and leaves the same session too.
\<close>

theorem connection_is_dedicated:
  assumes "ss_conn (get_session h ext) \<noteq> None"
  shows "answer chk R E known (repool D a) P h ext req = answer chk R E known D P h ext req \<and>
    session_after chk R E known (repool D a) P h ext req = session_after chk R E known D P h ext req \<and>
    (session_ok dialect tr (get_session h ext) \<longrightarrow> ss_conn (session_after chk R E known D P h ext req) \<noteq> None) \<and>
    my_handle_query R (repool D a) P (get_session h ext) query = my_handle_query R D P (get_session h ext) query"
proof -
  note pool = run_script_pool [OF assms] extended_query_pool [OF assms] describe_statement_pool [OF assms] probe_pool [OF assms]
  have "answer chk R E known (repool D a) P h ext req = answer chk R E known D P h ext req \<and>
    session_after chk R E known (repool D a) P h ext req = session_after chk R E known D P h ext req"
    by (cases req) (simp_all add: pool pg_simple_query_def describe_portal_def)
  then show ?thesis
    using session_after_ok [of dialect tr h ext chk R E known D P req] assms
    by (simp add: my_handle_query_def pool)
qed

theorem connection_is_dedicated_witness:
  "answer False sample_runtime sample_encoder (\<lambda>t. True) (repool (sample_driver True) (Inl ''pool timed out'')) (demo_parser [Use ()])
      (pg_handlers_new Sqlite FrontPostgres None None) (Some (demo_session\<lparr>ss_conn := Some 4\<rparr>)) (SimpleQuery ''USE d'') =
   answer False sample_runtime sample_encoder (\<lambda>t. True) (sample_driver True) (demo_parser [Use ()])
      (pg_handlers_new Sqlite FrontPostgres None None) (Some (demo_session\<lparr>ss_conn := Some 4\<rparr>)) (SimpleQuery ''USE d'')"
proof -
  have "ss_conn (get_session (pg_handlers_new Sqlite FrontPostgres None None) (Some (demo_session\<lparr>ss_conn := Some 4\<rparr>))) \<noteq> None"
    by (simp add: get_session_def)
  from connection_is_dedicated [OF this] show ?thesis by blast
qed

end
