(* ===== verification/Mysql_Rows.thy ===== *)
theory Mysql_Rows
  imports Mysql_Wire
begin

text \<open>
  Result sets on the MySQL wire: \<open>serialize_column\<close>, \<open>serialize_row\<close> and \<open>serialize_row_binary\<close> of
  \<open>result_set.rs\<close>, the OK, ERR and EOF packets of \<open>protocol/packet.rs\<close>, and the packets
  \<open>send_result_set\<close> of \<open>connection.rs\<close> writes, with the readers of a client.
\<close>

section \<open>Numbers read from texts\<close>

text \<open>\<open>str::parse\<close> at the signed types: an optional sign, digits, and the range of the type.\<close>

definition parse_digits :: "string \<Rightarrow> int option" where
  "parse_digits ds = (if ds \<noteq> [] \<and> (\<forall>c \<in> set ds. is_ascii_digit c) then Some (int (digits_val ds)) else None)"

definition parse_int :: "string \<Rightarrow> int option" where
  "parse_int s =
     (case s of
        [] \<Rightarrow> None
      | c # ds \<Rightarrow>
          if c = CHR ''-'' then map_option uminus (parse_digits ds)
          else if c = CHR ''+'' then parse_digits ds
          else parse_digits s)"

definition parse_signed :: "string \<Rightarrow> 'b::len word option" where
  "parse_signed s = (case parse_int s of None \<Rightarrow> None | Some n \<Rightarrow> fit n)"

text \<open>The parsers of floats.\<close>

record float_parser =
  parse_f32 :: "string \<Rightarrow> 32 word option"
  parse_f64 :: "string \<Rightarrow> 64 word option"

lemma parse_int_show_int: "parse_int (show_int n) = Some n"
proof -
  have pd: "parse_digits (show_nat k) = Some (int k)" for k
    using show_nat_digits by (auto simp: parse_digits_def)
  show ?thesis
  proof (cases "n < 0")
    case True
    then show ?thesis by (simp add: parse_int_def show_int_def pd)
  next
    case False
    have "hd (show_nat (nat n)) \<in> set (show_nat (nat n))" by simp
    then have "is_ascii_digit (hd (show_nat (nat n)))" by (rule show_nat_digits)
    then have "hd (show_nat (nat n)) \<noteq> CHR ''-''" "hd (show_nat (nat n)) \<noteq> CHR ''+''"
      by (auto simp: is_ascii_digit_def)
    with False pd [of "nat n"] show ?thesis
      by (cases "show_nat (nat n)") (auto simp: parse_int_def show_int_def)
  qed
qed

lemma parse_signed_show: "parse_signed (show_int n) = fit n"
  by (simp add: parse_signed_def parse_int_show_int)

section \<open>Columns and rows\<close>

fun type_byte :: "column_type \<Rightarrow> 8 word" where
  "type_byte Decimal = 0x00"
| "type_byte Tiny = 0x01"
| "type_byte Short = 0x02"
| "type_byte Long = 0x03"
| "type_byte Float = 0x04"
| "type_byte Double = 0x05"
| "type_byte TypeNull = 0x06"
| "type_byte Timestamp = 0x07"
| "type_byte LongLong = 0x08"
| "type_byte Int24 = 0x09"
| "type_byte Date = 0x0a"
| "type_byte Time = 0x0b"
| "type_byte DateTime = 0x0c"
| "type_byte Year = 0x0d"
| "type_byte VarChar = 0x0f"
| "type_byte Bit = 0x10"
| "type_byte Json = 0xf5"
| "type_byte Blob = 0xfc"
| "type_byte VarString = 0xfd"
| "type_byte TypeString = 0xfe"

definition serialize_column :: "column \<Rightarrow> bytes" where
  "serialize_column col =
     write_lenenc_str (utf8 ''def'') @ write_lenenc_str [] @ write_lenenc_str [] @ write_lenenc_str [] @
     write_lenenc_str (utf8 (cl_name col)) @ write_lenenc_str (utf8 (cl_name col)) @
     [0x0c] @ le_bytes 2 0x2d @ le_bytes 4 255 @ [type_byte (cl_type col)] @ le_bytes 2 0 @ [0] @ le_bytes 2 0"

fun write_cell :: "bytes option \<Rightarrow> bytes" where
  "write_cell (Some s) = write_lenenc_str s"
| "write_cell None = [0xfb]"

definition text_value :: "string option \<Rightarrow> bytes" where
  "text_value v = write_cell (map_option utf8 v)"

definition serialize_row :: "string option list \<Rightarrow> bytes" where
  "serialize_row row = concat (map text_value row)"

text \<open>\<open>null_bitmap[(i + 2) / 8] |= 1 << ((i + 2) % 8)\<close>, for every NULL.\<close>

definition set_bit_at :: "nat \<Rightarrow> bytes \<Rightarrow> bytes" where
  "set_bit_at k bm = bm[k div 8 := or (bm ! (k div 8)) (push_bit (k mod 8) 1)]"

fun mark_nulls :: "nat \<Rightarrow> string option list \<Rightarrow> bytes \<Rightarrow> bytes" where
  "mark_nulls i [] bm = bm"
| "mark_nulls i (v # vs) bm = mark_nulls (Suc i) vs (if v = None then set_bit_at (i + 2) bm else bm)"

definition null_bitmap :: "string option list \<Rightarrow> bytes" where
  "null_bitmap row = mark_nulls 0 row (replicate ((length row + 7 + 2) div 8) 0)"

definition int_bytes :: "'b::len word option \<Rightarrow> bytes" where
  "int_bytes w = le_bytes (LENGTH('b) div 8) (unat (case w of Some n \<Rightarrow> n | None \<Rightarrow> 0))"

definition binary_value :: "float_parser \<Rightarrow> column_type \<Rightarrow> string \<Rightarrow> bytes" where
  "binary_value F ty s =
     (if ty = Tiny then int_bytes (parse_signed s :: 8 word option)
      else if ty = Short then int_bytes (parse_signed s :: 16 word option)
      else if ty = Long \<or> ty = Int24 then int_bytes (parse_signed s :: 32 word option)
      else if ty = LongLong then int_bytes (parse_signed s :: 64 word option)
      else if ty = Float then int_bytes (parse_f32 F s)
      else if ty = Double then int_bytes (parse_f64 F s)
      else write_lenenc_str (utf8 s))"

definition type_of :: "column list \<Rightarrow> nat \<Rightarrow> column_type" where
  "type_of columns i = (if i < length columns then cl_type (columns ! i) else VarString)"

fun binary_values :: "float_parser \<Rightarrow> column list \<Rightarrow> nat \<Rightarrow> string option list \<Rightarrow> bytes" where
  "binary_values F columns i [] = []"
| "binary_values F columns i (v # vs) =
     (case v of None \<Rightarrow> [] | Some s \<Rightarrow> binary_value F (type_of columns i) s) @ binary_values F columns (Suc i) vs"

definition serialize_row_binary :: "float_parser \<Rightarrow> string option list \<Rightarrow> column list \<Rightarrow> bytes" where
  "serialize_row_binary F row columns = 0x00 # null_bitmap row @ binary_values F columns 0 row"

section \<open>Status packets\<close>

definition build_ok_packet :: "64 word \<Rightarrow> 64 word \<Rightarrow> bytes" where
  "build_ok_packet affected_rows last_insert_id =
     [0x00] @ write_lenenc_int affected_rows @ write_lenenc_int last_insert_id @ le_bytes 2 2 @ le_bytes 2 0"

definition build_err_packet :: "nat \<Rightarrow> string \<Rightarrow> string \<Rightarrow> bytes" where
  "build_err_packet code state message =
     [0xff] @ le_bytes 2 code @ utf8 ''#'' @
     (if length (utf8 state) \<ge> 5 then take 5 (utf8 state)
      else utf8 state @ replicate (5 - length (utf8 state)) 0x20) @
     utf8 message"

definition build_eof_packet :: bytes where
  "build_eof_packet = [0xfe] @ le_bytes 2 0 @ le_bytes 2 2"

text \<open>
  The payloads \<open>send_result_set\<close> writes, one packet each; \<open>deprecate_eof\<close> is the negotiated capability
  (never set: the server's default flags leave it out).
\<close>

definition result_payloads :: "float_parser \<Rightarrow> bool \<Rightarrow> bool \<Rightarrow> result_set \<Rightarrow> bytes list" where
  "result_payloads F deprecate_eof binary rs =
     (if result_set_is_empty rs \<and> rs_rows rs = [] then
        [build_ok_packet 0 (case rs_last_insert_id rs of Some n \<Rightarrow> n | None \<Rightarrow> 0)]
      else
        [write_lenenc_int (of_nat (length (rs_columns rs)))] @
        map serialize_column (rs_columns rs) @
        (if deprecate_eof then [] else [build_eof_packet]) @
        map (\<lambda>row. if binary then serialize_row_binary F row (rs_columns rs) else serialize_row row) (rs_rows rs) @
        [if deprecate_eof then build_ok_packet 0 0 else build_eof_packet])"

fun write_packets :: "8 word \<Rightarrow> bytes list \<Rightarrow> bytes \<times> 8 word" where
  "write_packets seq [] = ([], seq)"
| "write_packets seq (p # ps) =
     (case write_packet seq p of (out, seq1) \<Rightarrow>
        case write_packets seq1 ps of (outs, seq2) \<Rightarrow> (out @ outs, seq2))"

definition send_result_set :: "float_parser \<Rightarrow> bool \<Rightarrow> bool \<Rightarrow> result_set \<Rightarrow> 8 word \<Rightarrow> bytes \<times> 8 word" where
  "send_result_set F deprecate_eof binary rs seq = write_packets seq (result_payloads F deprecate_eof binary rs)"

definition send_error :: "mysql_failure \<Rightarrow> 8 word \<Rightarrow> bytes \<times> 8 word" where
  "send_error e seq = write_packet seq (build_err_packet (error_code e) (sql_state e) (error_message e))"

section \<open>What a client reads\<close>

subsection \<open>Text rows\<close>

definition read_cell :: "bytes \<Rightarrow> (bytes option \<times> bytes) option" where
  "read_cell buf =
     (if buf \<noteq> [] \<and> hd buf = 0xfb then Some (None, tl buf)
      else map_option (map_prod Some (\<lambda>r. r)) (read_lenenc_str buf))"

definition short_cell :: "bytes option \<Rightarrow> bool" where
  "short_cell v \<longleftrightarrow> (\<forall>s. v = Some s \<longrightarrow> length s < 2 ^ 64)"

interpretation cells: codec write_cell read_cell short_cell
proof
  fix v rest
  assume "short_cell v"
  then show "read_cell (write_cell v @ rest) = Some (v, rest)"
    using write_lenenc_str_hd by (cases v) (auto simp: read_cell_def short_cell_def lenenc_str_roundtrip)
qed

abbreviation read_text_row :: "nat \<Rightarrow> bytes \<Rightarrow> (bytes option list \<times> bytes) option" where
  "read_text_row \<equiv> read_many read_cell"

definition short_texts :: "string option list \<Rightarrow> bool" where
  "short_texts row \<longleftrightarrow> (\<forall>s. Some s \<in> set row \<longrightarrow> length (utf8 s) < 2 ^ 64)"

lemma text_row_roundtrip:
  assumes "short_texts row"
  shows "read_text_row (length row) (serialize_row row @ rest) = Some (map (map_option utf8) row, rest)"
proof -
  have "list_all short_cell (map (map_option utf8) row)"
    using assms by (auto simp: list_all_iff short_cell_def short_texts_def)
  from cells.read_many_written [OF this, of rest] show ?thesis
    by (simp add: serialize_row_def text_value_def [abs_def] comp_def)
qed

subsection \<open>The NULL bitmap\<close>

definition bit_at :: "nat \<Rightarrow> bytes \<Rightarrow> bool" where
  "bit_at k bm \<longleftrightarrow> bit (bm ! (k div 8)) (k mod 8)"

lemma length_set_bit_at [simp]: "length (set_bit_at k bm) = length bm"
  by (simp add: set_bit_at_def)

lemma bit_set_bit_at:
  assumes "m div 8 < length bm"
  shows "bit_at k (set_bit_at m bm) \<longleftrightarrow> k = m \<or> bit_at k bm"
proof (cases "k div 8 = m div 8")
  case True
  have "bit (push_bit (m mod 8) (1 :: 8 word)) (k mod 8) \<longleftrightarrow> k mod 8 = m mod 8"
    by (auto simp: bit_exp_iff)
  moreover have "k mod 8 = m mod 8 \<longleftrightarrow> k = m"
    using True by (metis div_mult_mod_eq)
  ultimately show ?thesis using True assms by (auto simp: bit_at_def set_bit_at_def bit_or_iff)
next
  case False
  then have "k \<noteq> m" by auto
  with False show ?thesis by (simp add: bit_at_def set_bit_at_def)
qed

lemma mark_nulls_bits:
  assumes "i + length vs + 2 \<le> 8 * length bm"
  shows "length (mark_nulls i vs bm) = length bm \<and>
    (bit_at k (mark_nulls i vs bm) \<longleftrightarrow> bit_at k bm \<or> (\<exists>j < length vs. vs ! j = None \<and> k = i + j + 2))"
  using assms
proof (induction vs arbitrary: i bm)
  case (Cons v vs)
  let ?bm = "if v = None then set_bit_at (i + 2) bm else bm"
  have "(i + 2) div 8 < length bm" using Cons.prems by simp
  then have "bit_at k ?bm \<longleftrightarrow> bit_at k bm \<or> v = None \<and> k = i + 2"
    by (auto simp: bit_set_bit_at)
  moreover have "length (mark_nulls (Suc i) vs ?bm) = length ?bm \<and>
      (bit_at k (mark_nulls (Suc i) vs ?bm) \<longleftrightarrow> bit_at k ?bm \<or> (\<exists>j < length vs. vs ! j = None \<and> k = Suc i + j + 2))"
    using Cons.prems by (intro Cons.IH) simp
  moreover have "(\<exists>j < length (v # vs). (v # vs) ! j = None \<and> k = i + j + 2) \<longleftrightarrow>
      v = None \<and> k = i + 2 \<or> (\<exists>j < length vs. vs ! j = None \<and> k = Suc i + j + 2)"
    by (auto simp: less_Suc_eq_0_disj)
  ultimately show ?case by auto
qed simp

lemma null_bitmap_bits:
  "length (null_bitmap row) = (length row + 9) div 8"
  "i < length row \<Longrightarrow> bit_at (i + 2) (null_bitmap row) \<longleftrightarrow> row ! i = None"
proof -
  let ?bm = "replicate ((length row + 7 + 2) div 8) (0 :: 8 word)"
  have le: "0 + length row + 2 \<le> 8 * length ?bm" by simp
  from mark_nulls_bits [OF le] show "length (null_bitmap row) = (length row + 9) div 8"
    by (simp add: null_bitmap_def)
  assume i: "i < length row"
  then have "(i + 2) div 8 \<le> (length row + 1) div 8" by (intro div_le_mono) simp
  also have "\<dots> < (length row + 1 + 8) div 8" by (simp only: div_add_self2)
  finally have "(i + 2) div 8 < (length row + 9) div 8" by (simp add: add.assoc)
  then have "\<not> bit_at (i + 2) ?bm" by (simp add: bit_at_def)
  with mark_nulls_bits [OF le, of "i + 2"] i show "bit_at (i + 2) (null_bitmap row) \<longleftrightarrow> row ! i = None"
    by (auto simp: null_bitmap_def)
qed

subsection \<open>Binary rows\<close>

datatype bin_value = BinInt int | BinBits nat | BinText bytes

definition read_fixed :: "nat \<Rightarrow> (nat \<Rightarrow> bin_value) \<Rightarrow> bytes \<Rightarrow> (bin_value \<times> bytes) option" where
  "read_fixed k f buf = (if length buf < k then None else Some (f (of_le (take k buf)), drop k buf))"

definition read_value :: "column_type \<Rightarrow> bytes \<Rightarrow> (bin_value \<times> bytes) option" where
  "read_value ty buf =
     (if ty = Tiny then read_fixed 1 (\<lambda>n. BinInt (sint (of_nat n :: 8 word))) buf
      else if ty = Short then read_fixed 2 (\<lambda>n. BinInt (sint (of_nat n :: 16 word))) buf
      else if ty = Long \<or> ty = Int24 then read_fixed 4 (\<lambda>n. BinInt (sint (of_nat n :: 32 word))) buf
      else if ty = LongLong then read_fixed 8 (\<lambda>n. BinInt (sint (of_nat n :: 64 word))) buf
      else if ty = Float then read_fixed 4 BinBits buf
      else if ty = Double then read_fixed 8 BinBits buf
      else map_option (map_prod BinText (\<lambda>r. r)) (read_lenenc_str buf))"

fun read_values :: "column list \<Rightarrow> bytes \<Rightarrow> nat \<Rightarrow> nat \<Rightarrow> bytes \<Rightarrow> (bin_value option list \<times> bytes) option" where
  "read_values columns bm i 0 buf = Some ([], buf)"
| "read_values columns bm i (Suc n) buf =
     (case (if bit_at (i + 2) bm then Some (None, buf)
            else map_option (map_prod Some (\<lambda>r. r)) (read_value (type_of columns i) buf)) of
        None \<Rightarrow> None
      | Some (v, rest) \<Rightarrow> map_option (map_prod ((#) v) (\<lambda>r. r)) (read_values columns bm (Suc i) n rest))"

definition read_binary_row :: "column list \<Rightarrow> nat \<Rightarrow> bytes \<Rightarrow> (bin_value option list \<times> bytes) option" where
  "read_binary_row columns n buf =
     (let len = (n + 9) div 8 in
      if length buf < Suc len \<or> hd buf \<noteq> 0x00 then None
      else read_values columns (take len (tl buf)) 0 n (drop len (tl buf)))"

text \<open>What a text stands for at a column type: its number, 0 when it is none of the type.\<close>

definition num :: "'b::len word option \<Rightarrow> bin_value" where
  "num w = BinInt (case w of Some n \<Rightarrow> sint n | None \<Rightarrow> 0)"

definition bits :: "'b::len word option \<Rightarrow> bin_value" where
  "bits w = BinBits (case w of Some n \<Rightarrow> unat n | None \<Rightarrow> 0)"

definition sent_value :: "float_parser \<Rightarrow> column_type \<Rightarrow> string \<Rightarrow> bin_value" where
  "sent_value F ty s =
     (if ty = Tiny then num (parse_signed s :: 8 word option)
      else if ty = Short then num (parse_signed s :: 16 word option)
      else if ty = Long \<or> ty = Int24 then num (parse_signed s :: 32 word option)
      else if ty = LongLong then num (parse_signed s :: 64 word option)
      else if ty = Float then bits (parse_f32 F s)
      else if ty = Double then bits (parse_f64 F s)
      else BinText (utf8 s))"

lemma read_fixed_le: "n < 256 ^ k \<Longrightarrow> read_fixed k f (le_bytes k n @ rest) = Some (f n, rest)"
  by (simp add: read_fixed_def of_le_bytes_small)

lemma unat_bound: "unat (w :: 'b::len word) < 2 ^ LENGTH('b)"
  by (rule unsigned_less)

lemma int_bytes_read:
  fixes w :: "'b::len word option"
  assumes "LENGTH('b) = 8 * k"
  shows "read_fixed k (\<lambda>n. BinInt (sint (of_nat n :: 'b word))) (int_bytes w @ rest) = Some (num w, rest)"
    "read_fixed k BinBits (int_bytes w @ rest) = Some (bits w, rest)"
proof -
  have "unat (case w of Some n \<Rightarrow> n | None \<Rightarrow> 0) < (256::nat) ^ k"
    using unat_bound [of "case w of Some n \<Rightarrow> n | None \<Rightarrow> 0"] assms
    by (simp add: power_mult)
  from read_fixed_le [OF this] show
    "read_fixed k (\<lambda>n. BinInt (sint (of_nat n :: 'b word))) (int_bytes w @ rest) = Some (num w, rest)"
    "read_fixed k BinBits (int_bytes w @ rest) = Some (bits w, rest)"
    using assms by (auto simp: int_bytes_def num_def bits_def split: option.splits)
qed

lemma read_value_sent:
  assumes "length (utf8 s) < 2 ^ 64"
  shows "read_value ty (binary_value F ty s @ rest) = Some (sent_value F ty s, rest)"
  using assms int_bytes_read(1) [of 1 "parse_signed s :: 8 word option"] int_bytes_read(1) [of 2 "parse_signed s :: 16 word option"]
    int_bytes_read(1) [of 4 "parse_signed s :: 32 word option"] int_bytes_read(1) [of 8 "parse_signed s :: 64 word option"]
    int_bytes_read(2) [of 4 "parse_f32 F s"] int_bytes_read(2) [of 8 "parse_f64 F s"]
  by (simp add: read_value_def binary_value_def sent_value_def lenenc_str_roundtrip)

lemma read_values_sent:
  assumes "short_texts vs" "\<And>j. j < length vs \<Longrightarrow> bit_at (i + j + 2) bm \<longleftrightarrow> vs ! j = None"
  shows "read_values columns bm i (length vs) (binary_values F columns i vs @ rest) =
    Some (map (\<lambda>(j, v). map_option (sent_value F (type_of columns j)) v) (enumerate i vs), rest)"
  using assms
proof (induction vs arbitrary: i)
  case (Cons v vs)
  have "bit_at (Suc i + j + 2) bm \<longleftrightarrow> vs ! j = None" if "j < length vs" for j
    using Cons.prems(2) [of "Suc j"] that by simp
  moreover have "short_texts vs" using Cons.prems(1) by (simp add: short_texts_def)
  ultimately have IH: "read_values columns bm (Suc i) (length vs) (binary_values F columns (Suc i) vs @ rest) =
      Some (map (\<lambda>(j, v). map_option (sent_value F (type_of columns j)) v) (enumerate (Suc i) vs), rest)"
    by (rule Cons.IH [rotated])
  have b: "bit_at (i + 2) bm \<longleftrightarrow> v = None" using Cons.prems(2) [of 0] by simp
  show ?case
  proof (cases v)
    case None
    with b IH show ?thesis by simp
  next
    case (Some s)
    with Cons.prems(1) have "length (utf8 s) < 2 ^ 64" by (simp add: short_texts_def)
    with Some b IH show ?thesis by (simp add: read_value_sent)
  qed
qed simp

lemma binary_row_roundtrip:
  assumes "short_texts row"
  shows "read_binary_row columns (length row) (serialize_row_binary F row columns @ rest) =
    Some (map (\<lambda>(j, v). map_option (sent_value F (type_of columns j)) v) (enumerate 0 row), rest)"
proof -
  have "read_values columns (null_bitmap row) 0 (length row) (binary_values F columns 0 row @ rest) =
      Some (map (\<lambda>(j, v). map_option (sent_value F (type_of columns j)) v) (enumerate 0 row), rest)"
    using assms null_bitmap_bits(2) [of _ row] by (intro read_values_sent) simp_all
  then show ?thesis
    by (simp add: read_binary_row_def serialize_row_binary_def null_bitmap_bits(1) Let_def)
qed

subsection \<open>Result sets\<close>

text \<open>
  A client reading a result: column definitions up to the announced count, then rows until a short
  packet that starts with \<open>0xfe\<close>, or an OK packet with its generated id.
\<close>

definition byte_type :: "8 word \<Rightarrow> column_type" where
  "byte_type b =
     (case find (\<lambda>t. type_byte t = b)
        [Decimal, Tiny, Short, Long, Float, Double, TypeNull, Timestamp, LongLong, Int24, Date, Time, DateTime, Year,
         VarChar, Bit, Json, Blob, VarString] of
        Some t \<Rightarrow> t | None \<Rightarrow> TypeString)"

definition read_column :: "bytes \<Rightarrow> (bytes \<times> column_type) option" where
  "read_column p =
     (case read_many read_lenenc_str 6 p of
        None \<Rightarrow> None
      | Some (ss, rest) \<Rightarrow> if length rest < 8 then None else Some (ss ! 4, byte_type (rest ! 7)))"

fun read_columns :: "nat \<Rightarrow> bytes \<Rightarrow> ((bytes \<times> column_type) list \<times> bytes) option" where
  "read_columns 0 stream = Some ([], stream)"
| "read_columns (Suc n) stream =
     (case read_message stream of
        None \<Rightarrow> None
      | Some (p, rest) \<Rightarrow>
          (case read_column p of
             None \<Rightarrow> None
           | Some c \<Rightarrow> map_option (map_prod ((#) c) (\<lambda>r. r)) (read_columns n rest)))"

definition is_eof :: "bytes \<Rightarrow> bool" where
  "is_eof p \<longleftrightarrow> p \<noteq> [] \<and> hd p = 0xfe \<and> length p < 9"

lemma read_message_shorter: "read_message stream = Some (p, rest) \<Longrightarrow> length rest < length stream"
proof (induction stream arbitrary: p rest rule: read_message.induct)
  case (1 stream)
  show ?case
  proof (cases "read_packet stream")
    case (Inl f)
    with "1.prems" show ?thesis by (simp add: read_message.simps [of stream])
  next
    case (Inr pr)
    obtain q r where pr: "pr = (q, r)" by (cases pr)
    note sh = read_packet_shorter [OF Inr [unfolded pr]]
    show ?thesis
    proof (cases "length (pk_payload q) < max_packet")
      case True
      with "1.prems" Inr pr sh show ?thesis by (simp add: read_message.simps [of stream])
    next
      case False
      with "1.prems" Inr pr obtain p' where r: "read_message r = Some (p', rest)"
        by (auto simp: read_message.simps [of stream])
      from "1.IH" [OF Inr pr [symmetric] False r] sh show ?thesis by simp
    qed
  qed
qed

function read_rows :: "(bytes \<Rightarrow> 'r option) \<Rightarrow> bytes \<Rightarrow> ('r list \<times> bytes) option" where
  "read_rows f stream =
     (case read_message stream of
        None \<Rightarrow> None
      | Some (p, rest) \<Rightarrow>
          if is_eof p then Some ([], rest)
          else (case f p of
                  None \<Rightarrow> None
                | Some r \<Rightarrow> map_option (map_prod ((#) r) (\<lambda>x. x)) (read_rows f rest)))"
  by pat_completeness auto

termination
  by (relation "measure (\<lambda>(f, stream). length stream)") (auto dest: read_message_shorter)

declare read_rows.simps [simp del]

datatype 'r client_result = ClientOk nat nat | ClientRows "(bytes \<times> column_type) list" "'r list"

definition read_result ::
  "((bytes \<times> column_type) list \<Rightarrow> bytes \<Rightarrow> 'r option) \<Rightarrow> bytes \<Rightarrow> ('r client_result \<times> bytes) option" where
  "read_result f stream =
     (case read_message stream of
        None \<Rightarrow> None
      | Some (p, rest) \<Rightarrow>
          if p = [] then None
          else if hd p = 0x00 then
            (case read_lenenc_int (tl p) of
               Inl e \<Rightarrow> None
             | Inr (n, q) \<Rightarrow>
                 (case read_lenenc_int q of
                    Inl e \<Rightarrow> None
                  | Inr (lid, _) \<Rightarrow> Some (ClientOk n lid, rest)))
          else
            (case read_lenenc_int p of
               Inl e \<Rightarrow> None
             | Inr (n, _) \<Rightarrow>
                 (case read_columns n rest of
                    None \<Rightarrow> None
                  | Some (cols, rest1) \<Rightarrow>
                      (case read_message rest1 of
                         None \<Rightarrow> None
                       | Some (e, rest2) \<Rightarrow>
                           if is_eof e then map_option (map_prod (ClientRows cols) (\<lambda>r. r)) (read_rows (f cols) rest2)
                           else None))))"

definition client_text_row :: "(bytes \<times> column_type) list \<Rightarrow> bytes \<Rightarrow> bytes option list option" where
  "client_text_row cols p = (case read_text_row (length cols) p of Some (r, []) \<Rightarrow> Some r | _ \<Rightarrow> None)"

definition client_binary_row :: "(bytes \<times> column_type) list \<Rightarrow> bytes \<Rightarrow> bin_value option list option" where
  "client_binary_row cols p =
     (case read_binary_row (map (column_new [] \<circ> snd) cols) (length cols) p of Some (r, []) \<Rightarrow> Some r | _ \<Rightarrow> None)"

lemma fst_write_packets:
  "fst (write_packets seq []) = []"
  "fst (write_packets seq (p # ps)) = fst (write_packet seq p) @ fst (write_packets (snd (write_packet seq p)) ps)"
  by (simp_all add: case_prod_beta)

lemma read_write_packets:
  "p \<noteq> [] \<Longrightarrow> read_message (fst (write_packets seq (p # ps)) @ rest) =
     Some (p, fst (write_packets (snd (write_packet seq p)) ps) @ rest)"
  unfolding fst_write_packets append_assoc by (rule write_packet_read(1))

declare write_packets.simps [simp del]

lemma byte_type_byte [simp]: "byte_type (type_byte t) = t"
  by (cases t) (simp_all add: byte_type_def)

lemma read_column_serialized:
  assumes "length (utf8 (cl_name c)) < 2 ^ 64"
  shows "read_column (serialize_column c) = Some (utf8 (cl_name c), cl_type c)"
proof -
  let ?ss = "[utf8 ''def'', [], [], [], utf8 (cl_name c), utf8 (cl_name c)]"
  let ?tail = "[0x0c] @ le_bytes 2 0x2d @ le_bytes 4 255 @ [type_byte (cl_type c)] @ le_bytes 2 0 @ [0] @ le_bytes 2 0"
  have "length (utf8 ''def'') < 2 ^ 64" by (simp add: utf8_def utf8_char_def)
  with assms have "list_all (\<lambda>s. length s < 2 ^ 64) ?ss" by simp
  note lenenc_strings.read_many_written [OF this, of ?tail]
  moreover have "length ?ss = 6" by simp
  ultimately have "read_many read_lenenc_str 6 (concat (map write_lenenc_str ?ss) @ ?tail) = Some (?ss, ?tail)"
    by metis
  then have "read_many read_lenenc_str 6 (serialize_column c) = Some (?ss, ?tail)"
    unfolding serialize_column_def list.map concat.simps append_assoc append_Nil .
  moreover have "?tail ! 7 = type_byte (cl_type c)"
    by (simp add: nth_append)
  ultimately show ?thesis by (simp add: read_column_def)
qed

lemma serialize_column_nonempty: "serialize_column c \<noteq> []"
  by (simp add: serialize_column_def)

lemma read_columns_written:
  assumes "\<forall>c \<in> set cs. length (utf8 (cl_name c)) < 2 ^ 64"
  shows "\<exists>seq'. read_columns (length cs) (fst (write_packets seq (map serialize_column cs @ ps)) @ rest) =
    Some (map (\<lambda>c. (utf8 (cl_name c), cl_type c)) cs, fst (write_packets seq' ps) @ rest)"
  using assms
proof (induction cs arbitrary: seq)
  case (Cons c cs)
  let ?seq = "snd (write_packet seq (serialize_column c))"
  from Cons obtain seq' where
    "read_columns (length cs) (fst (write_packets ?seq (map serialize_column cs @ ps)) @ rest) =
      Some (map (\<lambda>c. (utf8 (cl_name c), cl_type c)) cs, fst (write_packets seq' ps) @ rest)"
    by force
  then show ?case
    using Cons.prems read_write_packets [OF serialize_column_nonempty [of c], of seq] read_column_serialized [of c]
    by auto
qed auto

lemma build_eof_is_eof: "is_eof build_eof_packet" "build_eof_packet \<noteq> []"
  by (simp_all add: is_eof_def build_eof_packet_def)

lemma read_rows_written:
  assumes "\<And>row. row \<in> set rows \<Longrightarrow> pay row \<noteq> [] \<and> \<not> is_eof (pay row) \<and> f (pay row) = Some (g row)"
  shows "read_rows f (fst (write_packets seq (map pay rows @ [build_eof_packet])) @ rest) = Some (map g rows, rest)"
  using assms
proof (induction rows arbitrary: seq)
  case Nil
  then show ?case
    using read_write_packets [OF build_eof_is_eof(2), of seq "[]" rest] build_eof_is_eof(1)
    by (subst read_rows.simps) (simp add: fst_write_packets)
next
  case (Cons row rows)
  then have "pay row \<noteq> []" by simp
  from read_write_packets [OF this] Cons show ?case
    by (subst read_rows.simps) simp
qed

lemma write_lenenc_str_eof:
  assumes "length s < 2 ^ 64" "hd (write_lenenc_str s) = 0xfe"
  shows "9 \<le> length (write_lenenc_str s)"
proof -
  define n where "n = length s"
  have n: "unat (of_nat (length s) :: 64 word) = n" using assms(1) by (simp add: n_def unat_of_nat)
  have "n < 251 \<Longrightarrow> (of_nat n :: 8 word) \<noteq> 0xfe"
    by (simp add: unat_of_nat word_unat_eq_iff)
  with assms(2) show ?thesis
    unfolding write_lenenc_str_def write_lenenc_int_def Let_def n
    by (auto simp: n_def split: if_splits)
qed

lemma text_row_not_eof:
  assumes "short_texts row" "row \<noteq> []"
  shows "serialize_row row \<noteq> [] \<and> \<not> is_eof (serialize_row row)"
proof -
  obtain v vs where row: "row = v # vs" using assms(2) by (cases row) auto
  show ?thesis
  proof (cases v)
    case None
    then show ?thesis by (simp add: row serialize_row_def text_value_def is_eof_def)
  next
    case (Some s)
    have "length (utf8 s) < 2 ^ 64" using assms(1) by (simp add: row Some short_texts_def)
    from write_lenenc_str_eof [OF this] write_lenenc_str_hd [of "utf8 s"]
    show ?thesis by (auto simp: row Some serialize_row_def text_value_def is_eof_def)
  qed
qed

lemma count_packet:
  assumes "0 < n" "n < 2 ^ 64"
  shows "write_lenenc_int (of_nat n) \<noteq> []" "hd (write_lenenc_int (of_nat n)) \<noteq> 0"
    "read_lenenc_int (write_lenenc_int (of_nat n)) = Inr (n, [])"
proof -
  have n: "unat (of_nat n :: 64 word) = n" using assms(2) by (simp add: unat_of_nat)
  have "n < 251 \<Longrightarrow> (of_nat n :: 8 word) \<noteq> 0"
    using assms(1) by (simp add: unat_of_nat word_unat_eq_iff)
  then show "write_lenenc_int (of_nat n) \<noteq> []" "hd (write_lenenc_int (of_nat n)) \<noteq> 0"
    unfolding write_lenenc_int_def Let_def n by simp_all
  show "read_lenenc_int (write_lenenc_int (of_nat n)) = Inr (n, [])"
    using lenenc_int_roundtrip [of "of_nat n" "[]"] n by simp
qed

lemma rows_sent_read:
  assumes "rs_columns rs \<noteq> []" "length (rs_columns rs) < 2 ^ 64"
    "\<forall>c \<in> set (rs_columns rs). length (utf8 (cl_name c)) < 2 ^ 64"
    "\<And>row. row \<in> set (rs_rows rs) \<Longrightarrow>
       pay row \<noteq> [] \<and> \<not> is_eof (pay row) \<and> f (map (\<lambda>c. (utf8 (cl_name c), cl_type c)) (rs_columns rs)) (pay row) = Some (g row)"
    "\<And>row. (if binary then serialize_row_binary F row (rs_columns rs) else serialize_row row) = pay row"
  shows "read_result f (fst (send_result_set F False binary rs seq) @ rest) =
    Some (ClientRows (map (\<lambda>c. (utf8 (cl_name c), cl_type c)) (rs_columns rs)) (map g (rs_rows rs)), rest)"
proof -
  let ?n = "length (rs_columns rs)"
  let ?rows = "map pay (rs_rows rs) @ [build_eof_packet]"
  have n: "0 < ?n" using assms(1) by simp
  note count = count_packet [OF n assms(2)]
  have "result_payloads F False binary rs =
      write_lenenc_int (of_nat ?n) # map serialize_column (rs_columns rs) @ build_eof_packet # ?rows"
    using assms(1) by (simp add: result_payloads_def result_set_is_empty_def assms(5))
  moreover obtain seq1 where "read_columns ?n
      (fst (write_packets (snd (write_packet seq (write_lenenc_int (of_nat ?n))))
         (map serialize_column (rs_columns rs) @ build_eof_packet # ?rows)) @ rest) =
      Some (map (\<lambda>c. (utf8 (cl_name c), cl_type c)) (rs_columns rs), fst (write_packets seq1 (build_eof_packet # ?rows)) @ rest)"
    using read_columns_written [OF assms(3)] by blast
  moreover note read_write_packets [OF build_eof_is_eof(2), of seq1 ?rows rest]
  moreover have "read_rows (f (map (\<lambda>c. (utf8 (cl_name c), cl_type c)) (rs_columns rs)))
      (fst (write_packets (snd (write_packet seq1 build_eof_packet)) ?rows) @ rest) = Some (map g (rs_rows rs), rest)"
    using assms(4) by (rule read_rows_written)
  ultimately show ?thesis
    using read_write_packets [OF count(1)] count build_eof_is_eof(1)
    by (simp add: send_result_set_def read_result_def)
qed

lemma text_row_read:
  assumes "short_texts row" "length row = length cols"
  shows "client_text_row cols (serialize_row row) = Some (map (map_option utf8) row)"
  using text_row_roundtrip [OF assms(1), of "[]"] by (simp add: client_text_row_def assms(2))

lemma binary_row_read:
  assumes "short_texts row" "length row = length cols"
  shows "client_binary_row (map (\<lambda>c. (utf8 (cl_name c), cl_type c)) cols) (serialize_row_binary F row cols) =
    Some (map2 (\<lambda>c. map_option (sent_value F (cl_type c))) cols row)"
proof -
  let ?cols = "map (column_new [] \<circ> snd) (map (\<lambda>c. (utf8 (cl_name c), cl_type c)) cols)"
  have "binary_values F ?cols i row' = binary_values F cols i row'" for i row'
    by (induction row' arbitrary: i) (auto simp: type_of_def column_new_def split: option.splits)
  then have "serialize_row_binary F row cols = serialize_row_binary F row ?cols"
    by (simp only: serialize_row_binary_def)
  moreover have "map (\<lambda>(j, v). map_option (sent_value F (type_of ?cols j)) v) (enumerate 0 row) =
      map2 (\<lambda>c. map_option (sent_value F (cl_type c))) cols row"
    using assms(2) by (intro nth_equalityI) (simp_all add: nth_enumerate_eq type_of_def column_new_def)
  ultimately show ?thesis
    using binary_row_roundtrip [OF assms(1), of ?cols F "[]"] assms(2)
    by (simp add: client_binary_row_def)
qed

definition wire_columns :: "column list \<Rightarrow> (bytes \<times> column_type) list" where
  "wire_columns cols = map (\<lambda>c. (utf8 (cl_name c), cl_type c)) cols"

text \<open>Result sets that fit the protocol: short names and texts, and a cell for each column.\<close>

definition result_ok :: "result_set \<Rightarrow> bool" where
  "result_ok rs \<longleftrightarrow>
     length (rs_columns rs) < 2 ^ 64 \<and> (\<forall>c \<in> set (rs_columns rs). length (utf8 (cl_name c)) < 2 ^ 64) \<and>
     (\<forall>row \<in> set (rs_rows rs). short_texts row \<and> length row = length (rs_columns rs)) \<and>
     (rs_columns rs = [] \<longrightarrow> rs_rows rs = [])"

lemma text_result_read:
  assumes "result_ok rs" "rs_columns rs \<noteq> []"
  shows "read_result client_text_row (fst (send_result_set F False False rs seq) @ rest) =
    Some (ClientRows (wire_columns (rs_columns rs)) (map (map (map_option utf8)) (rs_rows rs)), rest)"
proof -
  have row: "short_texts row" "length row = length (wire_columns (rs_columns rs))" "row \<noteq> []"
    if "row \<in> set (rs_rows rs)" for row
    using assms that by (auto simp: result_ok_def wire_columns_def)
  show ?thesis
    using assms text_row_not_eof [OF row(1,3)] text_row_read [OF row(1,2)] unfolding wire_columns_def
    by (intro rows_sent_read [where pay = serialize_row]) (simp_all add: result_ok_def)
qed

lemma binary_result_read:
  assumes "result_ok rs" "rs_columns rs \<noteq> []"
  shows "read_result client_binary_row (fst (send_result_set F False True rs seq) @ rest) =
    Some (ClientRows (wire_columns (rs_columns rs))
      (map (map2 (\<lambda>c. map_option (sent_value F (cl_type c))) (rs_columns rs)) (rs_rows rs)), rest)"
proof -
  have row: "short_texts row" "length row = length (rs_columns rs)" if "row \<in> set (rs_rows rs)" for row
    using assms that by (auto simp: result_ok_def)
  show ?thesis
    using assms binary_row_read [OF row] unfolding wire_columns_def
    by (intro rows_sent_read [where pay = "\<lambda>row. serialize_row_binary F row (rs_columns rs)"])
      (simp_all add: result_ok_def serialize_row_binary_def is_eof_def)
qed

lemma ok_result_read:
  assumes "rs_columns rs = []" "rs_rows rs = []"
  shows "read_result client (fst (send_result_set F False binary rs seq) @ rest) =
    Some (ClientOk 0 (case rs_last_insert_id rs of Some n \<Rightarrow> unat n | None \<Rightarrow> 0), rest)"
proof -
  let ?lid = "case rs_last_insert_id rs of Some n \<Rightarrow> n | None \<Rightarrow> 0"
  have "build_ok_packet 0 ?lid \<noteq> []" by (simp add: build_ok_packet_def)
  from read_write_packets [OF this, of seq "[]" rest] assms show ?thesis
    by (simp add: send_result_set_def result_payloads_def result_set_is_empty_def fst_write_packets read_result_def
      build_ok_packet_def lenenc_int_roundtrip split: option.split)
qed

text \<open>
  C28. What a MySQL client reads is what the handler returned. A result set with columns, whose rows
  have a cell for each, arrives in the text form with the column names and types and every row in
  order, each cell its text and NULL where it was NULL; in the binary form of prepared statements with
  the same columns and rows, each cell as \<open>sent_value\<close> says: the number its text stands for at an
  integer type, the text itself at a text type. A result without columns and rows arrives
  as an OK with no affected rows and its generated id. The rest of the stream is left as it was.
\<close>

theorem result_set_arrives:
  assumes "result_ok rs"
  shows "(rs_columns rs \<noteq> [] \<longrightarrow>
       read_result client_text_row (fst (send_result_set F False False rs seq) @ rest) =
         Some (ClientRows (wire_columns (rs_columns rs)) (map (map (map_option utf8)) (rs_rows rs)), rest) \<and>
       read_result client_binary_row (fst (send_result_set F False True rs seq) @ rest) =
         Some (ClientRows (wire_columns (rs_columns rs))
           (map (map2 (\<lambda>c. map_option (sent_value F (cl_type c))) (rs_columns rs)) (rs_rows rs)), rest)) \<and>
     (rs_columns rs = [] \<longrightarrow>
       read_result client (fst (send_result_set F False binary rs seq) @ rest) =
         Some (ClientOk 0 (case rs_last_insert_id rs of Some n \<Rightarrow> unat n | None \<Rightarrow> 0), rest))"
  using assms by (auto simp: text_result_read binary_result_read ok_result_read result_ok_def)

definition sample_result :: result_set where
  "sample_result = \<lparr>rs_columns = [column_new ''n'' Long], rs_rows = [[Some ''7''], [None]], rs_last_insert_id = None\<rparr>"

definition no_floats :: float_parser where
  "no_floats = \<lparr>parse_f32 = (\<lambda>s. None), parse_f64 = (\<lambda>s. None)\<rparr>"

theorem result_set_arrives_witness:
  "read_result client_binary_row (fst (send_result_set no_floats False True sample_result 1)) =
     Some (ClientRows [(utf8 ''n'', Long)] [[Some (BinInt 7)], [None]], [])"
proof -
  have "sent_value no_floats Long ''7'' = BinInt 7"
    by (simp add: sent_value_def parse_signed_def parse_int_def parse_digits_def is_ascii_digit_def num_def fit_def
      digits_val_def digit_val_def)
  moreover have "result_ok sample_result"
    by (simp add: result_ok_def sample_result_def column_new_def short_texts_def utf8_def utf8_char_def)
  from result_set_arrives [OF this, of no_floats 1 "[]"]
  have "read_result client_binary_row (fst (send_result_set no_floats False True sample_result 1)) =
      Some (ClientRows (wire_columns (rs_columns sample_result))
        (map (map2 (\<lambda>c. map_option (sent_value no_floats (cl_type c))) (rs_columns sample_result)) (rs_rows sample_result)), [])"
    by (simp add: sample_result_def)
  ultimately show ?thesis
    by (simp add: sample_result_def column_new_def wire_columns_def)
qed

end
