(* ===== verification/Mysql_Prepared.thy ===== *)
theory Mysql_Prepared
  imports Mysql_Rows Holes
begin

text \<open>
  Prepared statements of the MySQL protocol, \<open>prepared.rs\<close> of the vendored crate: the positions of the
  \<open>?\<close> placeholders, the values put in their places, and the parameters read off a
  \<open>COM_STMT_EXECUTE\<close>. Positions are counted in characters; the marks, quotes and backslashes the code
  looks for are single bytes, which no other character contains.
\<close>

section \<open>Placeholders\<close>

abbreviation backslash :: char where "backslash \<equiv> CHR 0x5C"

text \<open>Inside single quotes, double quotes or backticks, and how a byte changes that.\<close>

record quoting =
  in_single :: bool
  in_double :: bool
  in_backtick :: bool

definition unquoted :: quoting where
  "unquoted = \<lparr>in_single = False, in_double = False, in_backtick = False\<rparr>"

definition quote_step :: "bool \<Rightarrow> char \<Rightarrow> quoting \<Rightarrow> quoting" where
  "quote_step escaped b q =
     (if b = squote \<and> \<not> in_double q \<and> \<not> in_backtick q
      then (if escaped then q else q\<lparr>in_single := \<not> in_single q\<rparr>)
      else if b = dquote \<and> \<not> in_single q \<and> \<not> in_backtick q
      then (if escaped then q else q\<lparr>in_double := \<not> in_double q\<rparr>)
      else if b = backtick \<and> \<not> in_single q \<and> \<not> in_double q then q\<lparr>in_backtick := \<not> in_backtick q\<rparr>
      else q)"

text \<open>The loop from index \<open>i\<close>; \<open>escaped\<close> tells that the byte before is a backslash.\<close>

fun find_params_from :: "nat \<Rightarrow> bool \<Rightarrow> quoting \<Rightarrow> string \<Rightarrow> nat list" where
  "find_params_from i escaped q [] = []"
| "find_params_from i escaped q (b # bs) =
     (if b = CHR ''?'' \<and> q = unquoted then [i] else []) @
     find_params_from (Suc i) (b = backslash) (quote_step escaped b q) bs"

definition find_param_positions :: "string \<Rightarrow> nat list" where
  "find_param_positions sql = find_params_from 0 False unquoted sql"

record prepared =
  ps_stmt_id :: "32 word"
  ps_sql :: string
  ps_num_params :: nat
  ps_param_positions :: "nat list"
  ps_param_buffers :: "(16 word \<rightharpoonup> bytes) option"

definition prepared_new :: "32 word \<Rightarrow> string \<Rightarrow> prepared" where
  "prepared_new stmt_id sql =
     \<lparr>ps_stmt_id = stmt_id, ps_sql = sql, ps_num_params = length (find_param_positions sql),
      ps_param_positions = find_param_positions sql, ps_param_buffers = None\<rparr>"

fun param_text :: "string option \<Rightarrow> string" where
  "param_text (Some val) = squote # double_char squote val @ [squote]"
| "param_text None = ''NULL''"

fun interpolate_from :: "string \<Rightarrow> nat \<Rightarrow> nat list \<Rightarrow> string option list \<Rightarrow> string mres" where
  "interpolate_from sql last_end [] vals = Inr (drop last_end sql)"
| "interpolate_from sql last_end (pos # qs) [] = Inl Panics"
| "interpolate_from sql last_end (pos # qs) (v # vals) =
     (case interpolate_from sql (pos + 1) qs vals of
        Inl f \<Rightarrow> Inl f
      | Inr out \<Rightarrow> Inr (take (pos - last_end) (drop last_end sql) @ param_text v @ out))"

definition interpolate :: "prepared \<Rightarrow> string option list \<Rightarrow> string mres" where
  "interpolate stmt vals =
     (if length vals < ps_num_params stmt then Inl (Fails (MProtocol ''not enough parameters''))
      else interpolate_from (ps_sql stmt) 0 (ps_param_positions stmt) vals)"

definition build_stmt_prepare_ok :: "prepared \<Rightarrow> bytes" where
  "build_stmt_prepare_ok stmt =
     [0x00] @ le_bytes 4 (unat (ps_stmt_id stmt)) @ le_bytes 2 0 @ le_bytes 2 (ps_num_params stmt) @ [0] @ le_bytes 2 0"

section \<open>Parameters\<close>

text \<open>
  \<open>read_lenenc_string_raw\<close>: the text and the bytes taken. The end \<open>header_size + len\<close> is a \<open>usize\<close>:
  where it overflows a checked build panics in the sum and an unchecked one in the slice after it.
\<close>

definition lenenc_header :: "bytes \<Rightarrow> (nat \<times> nat) mres" where
  "lenenc_header data =
     (if data = [] then Inl (Fails (MProtocol ''empty data for lenenc string''))
      else
        let first = hd data; truncated = Inl (Fails (MProtocol ''truncated lenenc string'')) in
        if first \<le> 0xfa then Inr (unat first, 1)
        else if first = 0xfc then (if length data < 3 then truncated else Inr (of_le (take 2 (drop 1 data)), 3))
        else if first = 0xfd then (if length data < 4 then truncated else Inr (of_le (take 3 (drop 1 data)), 4))
        else if first = 0xfe then (if length data < 9 then truncated else Inr (of_le (take 8 (drop 1 data)), 9))
        else Inl (Fails (MProtocol ''invalid lenenc prefix'')))"

definition read_lenenc_string_raw :: "runtime \<Rightarrow> bytes \<Rightarrow> (string \<times> nat) mres" where
  "read_lenenc_string_raw R data =
     (case lenenc_header data of
        Inl f \<Rightarrow> Inl f
      | Inr (len, header_size) \<Rightarrow>
          let total = header_size + len in
          if 2 ^ 64 \<le> total then Inl Panics
          else if length data < total then Inl (Fails (MProtocol ''truncated lenenc string data''))
          else Inr (utf8_lossy R (take len (drop header_size data)), total))"

definition read_number :: "nat \<Rightarrow> string \<Rightarrow> (nat \<Rightarrow> string) \<Rightarrow> bytes \<Rightarrow> (string \<times> nat) mres" where
  "read_number k name show_it data =
     (if length data < k then Inl (Fails (MProtocol (''truncated '' @ name @ '' value'')))
      else Inr (show_it (of_le (take k data)), k))"

definition read_binary_value :: "runtime \<Rightarrow> 8 word \<Rightarrow> bytes \<Rightarrow> (string \<times> nat) mres" where
  "read_binary_value R ty data =
     (if ty = 0x01 then read_number 1 ''TINY'' (\<lambda>n. show_int (sint (of_nat n :: 8 word))) data
      else if ty = 0x02 then read_number 2 ''SHORT'' (\<lambda>n. show_int (sint (of_nat n :: 16 word))) data
      else if ty = 0x03 then read_number 4 ''LONG'' (\<lambda>n. show_int (sint (of_nat n :: 32 word))) data
      else if ty = 0x04 then read_number 4 ''FLOAT'' (\<lambda>n. show_float32 R (of_nat n)) data
      else if ty = 0x05 then read_number 8 ''DOUBLE'' (\<lambda>n. show_float R (of_nat n)) data
      else if ty = 0x08 then read_number 8 ''LONGLONG'' (\<lambda>n. show_int (sint (of_nat n :: 64 word))) data
      else if ty = 0x06 then Inr (''NULL'', 0)
      else read_lenenc_string_raw R data)"

text \<open>The loop over the parameter types: from parameter \<open>i\<close>, the values at \<open>data\<close>.\<close>

fun read_params ::
  "runtime \<Rightarrow> bytes \<Rightarrow> (16 word \<rightharpoonup> bytes) option \<Rightarrow> nat \<Rightarrow> 8 word list \<Rightarrow> bytes \<Rightarrow> string option list mres" where
  "read_params R bitmap buffers i [] data = Inr []"
| "read_params R bitmap buffers i (ty # tys) data =
     (let cons = (\<lambda>v rest. case read_params R bitmap buffers (Suc i) tys rest of
                             Inl f \<Rightarrow> Inl f | Inr vs \<Rightarrow> Inr (v # vs)) in
      if bit_at i bitmap then cons None data
      else
        case (case buffers of None \<Rightarrow> None | Some m \<Rightarrow> m (of_nat i)) of
          Some buf \<Rightarrow> cons (Some (utf8_lossy R buf)) data
        | None \<Rightarrow>
            (case read_binary_value R ty data of
               Inl f \<Rightarrow> Inl f
             | Inr (s, k) \<Rightarrow> cons (Some s) (drop k data)))"

fun even_bytes :: "bytes \<Rightarrow> bytes" where
  "even_bytes (a # b # bs) = a # even_bytes bs"
| "even_bytes bs = bs"

definition parse_stmt_execute_data :: "runtime \<Rightarrow> bytes \<Rightarrow> prepared \<Rightarrow> string option list mres" where
  "parse_stmt_execute_data R data stmt =
     (let n = ps_num_params stmt; bitmap_len = (n + 7) div 8; types_len = n * 2 in
      if length data < 9 then Inl (Fails (MProtocol ''COM_STMT_EXECUTE too short''))
      else if n = 0 then Inr []
      else if length data < 9 + bitmap_len then Inl (Fails (MProtocol ''COM_STMT_EXECUTE: truncated null bitmap''))
      else if length data \<le> 9 + bitmap_len
      then Inl (Fails (MProtocol ''COM_STMT_EXECUTE: missing new-params-bound-flag''))
      else
        let bitmap = take bitmap_len (drop 9 data);
            new_params_bound = data ! (9 + bitmap_len);
            rest = drop (9 + bitmap_len + 1) data in
        if new_params_bound = 0 then Inr (replicate n None)
        else if length rest < types_len then Inl (Fails (MProtocol ''COM_STMT_EXECUTE: truncated param types''))
        else read_params R bitmap (ps_param_buffers stmt) 0 (even_bytes (take types_len rest)) (drop types_len rest))"

lemma announced_length_panics:
  assumes "2 ^ 64 \<le> n + 9" "n < 2 ^ 64"
  shows "read_lenenc_string_raw R (0xfe # le_bytes 8 n @ rest) = Inl Panics"
  using assms by (simp add: read_lenenc_string_raw_def lenenc_header_def Let_def of_le_bytes_small)

section \<open>Values in the places of the marks\<close>

text \<open>
  The statements whose marks the scan finds: no backslash in a string literal or quoted identifier, and
  outside of them no quote, backslash or question mark but the marks, so none in a comment.
\<close>

fun seen_by_scan :: "piece \<Rightarrow> bool" where
  "seen_by_scan (Piece (LString v)) \<longleftrightarrow> backslash \<notin> set v"
| "seen_by_scan (Piece (LIdent q v)) \<longleftrightarrow> q \<in> {dquote, backtick} \<and> backslash \<notin> set v"
| "seen_by_scan (Piece x) \<longleftrightarrow> set (spell x) \<inter> {squote, dquote, backtick, backslash, CHR ''?''} = {}"
| "seen_by_scan (Numbered n) \<longleftrightarrow> False"
| "seen_by_scan Mark \<longleftrightarrow> True"

abbreviation single_quoted :: quoting where
  "single_quoted \<equiv> unquoted\<lparr>in_single := True\<rparr>"

abbreviation double_quoted :: quoting where
  "double_quoted \<equiv> unquoted\<lparr>in_double := True\<rparr>"

abbreviation back_quoted :: quoting where
  "back_quoted \<equiv> unquoted\<lparr>in_backtick := True\<rparr>"

lemma quoting_simps [simp]:
  "unquoted \<noteq> single_quoted" "single_quoted \<noteq> unquoted" "unquoted \<noteq> double_quoted" "double_quoted \<noteq> unquoted"
  "unquoted \<noteq> back_quoted" "back_quoted \<noteq> unquoted"
  "quote_step False squote unquoted = single_quoted" "quote_step False squote single_quoted = unquoted"
  "quote_step False dquote unquoted = double_quoted" "quote_step False dquote double_quoted = unquoted"
  "quote_step False backtick unquoted = back_quoted" "quote_step False backtick back_quoted = unquoted"
  "c \<noteq> squote \<Longrightarrow> quote_step False c single_quoted = single_quoted"
  "c \<noteq> dquote \<Longrightarrow> quote_step False c double_quoted = double_quoted"
  "c \<noteq> backtick \<Longrightarrow> quote_step False c back_quoted = back_quoted"
  by (simp_all add: unquoted_def quote_step_def)

text \<open>
  A scan that keeps these quotes goes over a lexeme from outside all quotes to outside all quotes. Stated
  for any such scan, as the splitting of a text into statements is another one.
\<close>

locale quote_scan =
  fixes scan :: "'s \<Rightarrow> bool \<Rightarrow> quoting \<Rightarrow> string \<Rightarrow> 'a" and advance :: "'s \<Rightarrow> char \<Rightarrow> 's" and stops :: "char \<Rightarrow> bool"
  assumes scan_step: "\<not> (stops c \<and> q = unquoted) \<Longrightarrow>
      scan s escaped q (c # cs) = scan (advance s c) (c = backslash) (quote_step escaped c q) cs"
    and stops_not_quote: "stops c \<Longrightarrow> c \<notin> {squote, dquote, backtick, backslash}"
begin

lemma step_quote:
  "scan s escaped q (squote # cs) = scan (advance s squote) False (quote_step escaped squote q) cs"
  "scan s escaped q (dquote # cs) = scan (advance s dquote) False (quote_step escaped dquote q) cs"
  "scan s escaped q (backtick # cs) = scan (advance s backtick) False (quote_step escaped backtick q) cs"
  using scan_step [of squote q s escaped cs] scan_step [of dquote q s escaped cs] scan_step [of backtick q s escaped cs]
    stops_not_quote [of squote] stops_not_quote [of dquote] stops_not_quote [of backtick] by auto

lemma step_inside: "q \<noteq> unquoted \<Longrightarrow> scan s escaped q (c # cs) = scan (advance s c) (c = backslash) (quote_step escaped c q) cs"
  by (simp add: scan_step)

lemma over_text:
  "set w \<inter> {squote, dquote, backtick, backslash} = {} \<Longrightarrow> \<forall>c \<in> set w. \<not> stops c \<Longrightarrow>
     scan s False unquoted (w @ rest) = scan (foldl advance s w) False unquoted rest"
  by (induction w arbitrary: s) (auto simp: scan_step quote_step_def)

lemma over_body:
  assumes "backslash \<notin> set v" "(q, inside) \<in> {(squote, single_quoted), (dquote, double_quoted), (backtick, back_quoted)}"
  shows "scan s False inside (double_char q v @ rest) = scan (foldl advance s (double_char q v)) False inside rest"
  using assms by (induction v arbitrary: s) (auto simp: step_quote step_inside)

lemma over_quoted:
  assumes "backslash \<notin> set v" "q \<in> {squote, dquote, backtick}"
  shows "scan s False unquoted (q # double_char q v @ q # rest) =
    scan (foldl advance s (q # double_char q v @ [q])) False unquoted rest"
proof -
  from assms(2) obtain inside where q: "(q, inside) \<in> {(squote, single_quoted), (dquote, double_quoted), (backtick, back_quoted)}" by auto
  with over_body [OF assms(1) q] show ?thesis by (auto simp: step_quote)
qed

lemma over_piece:
  assumes "seen_by_scan (Piece x)" "(\<exists>v. x = LString v) \<or> (\<exists>q v. x = LIdent q v) \<or> (\<forall>c \<in> set (spell x). \<not> stops c)"
  shows "scan s False unquoted (spell x @ rest) = scan (foldl advance s (spell x)) False unquoted rest"
proof -
  consider v where "x = LString v" | q v where "x = LIdent q v" | "\<nexists>v. x = LString v" "\<nexists>q v. x = LIdent q v" by blast
  then show ?thesis
  proof cases
    case 3
    then have "set (spell x) \<inter> {squote, dquote, backtick, backslash, CHR ''?''} = {}" using assms(1) by (cases x) auto
    with 3 assms(2) show ?thesis by (intro over_text) auto
  qed (use assms(1) over_quoted in auto)
qed

end

interpretation params: quote_scan "\<lambda>i escaped q cs. find_params_from i escaped q cs" "\<lambda>i c. Suc i" "\<lambda>c. c = CHR ''?''"
  by unfold_locales auto

lemma foldl_Suc [simp]: "foldl (\<lambda>i c. Suc i) i w = i + length w"
  by (induction w arbitrary: i) simp_all

lemma find_params_piece:
  assumes "seen_by_scan (Piece x)"
  shows "find_params_from i False unquoted (spell x @ rest) = find_params_from (i + length (spell x)) False unquoted rest"
proof -
  have "(\<exists>v. x = LString v) \<or> (\<exists>q v. x = LIdent q v) \<or> (\<forall>c \<in> set (spell x). \<not> c = CHR ''?'')"
    using assms by (cases x) auto
  from params.over_piece [OF assms this] show ?thesis by simp
qed

lemma find_params_mark:
  "find_params_from i False unquoted (CHR ''?'' # rest) = i # find_params_from (Suc i) False unquoted rest"
  by (simp add: quote_step_def)

declare find_params_from.simps(2) [simp del]

lemma length_find_params:
  "list_all seen_by_scan ps \<Longrightarrow> length (find_params_from i False unquoted (written ps)) = holes ps"
  by (induction ps arbitrary: i rule: written.induct) (simp_all add: find_params_piece find_params_mark)

lemma param_text_value: "param_text v = spelled (value_lexemes v)"
  by (cases v) simp_all

lemma interpolate_from_pieces:
  assumes "list_all seen_by_scan ps" "length vals = holes ps" "last_end \<le> length pre"
  shows "interpolate_from (pre @ written ps) last_end (find_params_from (length pre) False unquoted (written ps)) vals =
    Inr (drop last_end pre @ spelled (fill (map value_lexemes vals) ps))"
  using assms
proof (induction ps arbitrary: pre vals last_end rule: written.induct)
  case (2 x ps)
  have "interpolate_from ((pre @ spell x) @ written ps) last_end
      (find_params_from (length (pre @ spell x)) False unquoted (written ps)) vals =
      Inr (drop last_end (pre @ spell x) @ spelled (fill (map value_lexemes vals) ps))"
    using "2.prems" by (intro "2.IH") simp_all
  then show ?case using "2.prems" find_params_piece [of x "length pre" "written ps"] by simp
next
  case (4 ps)
  from "4.prems"(2) obtain v vs where vals: "vals = v # vs" "length vs = holes ps" by (cases vals) auto
  have "interpolate_from ((pre @ ''?'') @ written ps) (length pre + 1)
      (find_params_from (length (pre @ ''?'')) False unquoted (written ps)) vs =
      Inr (drop (length pre + 1) (pre @ ''?'') @ spelled (fill (map value_lexemes vs) ps))"
    using "4.prems"(1) vals(2) by (intro "4.IH") simp_all
  then show ?case using "4.prems"(3) by (simp add: vals find_params_mark param_text_value)
qed simp_all

lemma interpolate_pieces:
  assumes "list_all seen_by_scan ps" "length vals = holes ps"
  shows "interpolate (prepared_new n (written ps)) vals = Inr (spelled (fill (map value_lexemes vals) ps))"
  using length_find_params [OF assms(1), of 0] interpolate_from_pieces [OF assms, of 0 "[]"] assms(2)
  by (simp add: interpolate_def prepared_new_def find_param_positions_def)

text \<open>
  C29. Binding in a MySQL prepared statement, for statements with string literals, quoted identifiers and
  comments as the scan can see them (no backslash in a literal or quoted identifier; no quote, backslash or
  question mark in a comment). The placeholders counted are exactly its marks, none inside a literal or a
  quoted identifier. With a value for every mark the result is the statement with each mark replaced, in
  order, by the literal of its value or by \<open>NULL\<close>; where the marks stand where a value may, the lexical
  grammar of standard SQL reads in it the statement's own lexemes and the values, whatever the values hold.
  With fewer values the result is an error.
\<close>

theorem mysql_interpolation:
  assumes "list_all seen_by_scan ps" "xs = fill (map value_lexemes vals) ps"
  shows "ps_num_params (prepared_new n (written ps)) = holes ps \<and>
    (length vals = holes ps \<longrightarrow>
       interpolate (prepared_new n (written ps)) vals = Inr (concat (map spell xs)) \<and>
       (has_place ps \<longrightarrow> lexes xs (concat (map spell xs)))) \<and>
    (length vals < holes ps \<longrightarrow>
       interpolate (prepared_new n (written ps)) vals = Inl (Fails (MProtocol ''not enough parameters'')))"
  using length_find_params [OF assms(1), of 0] interpolate_pieces [OF assms(1), of vals n] lexes_fill [of ps vals] assms(2)
  by (simp add: interpolate_def prepared_new_def find_param_positions_def spelled_def)

theorem mysql_interpolation_witness:
  "interpolate (prepared_new 1 (written (Piece (LString ''?'') # Piece (LChar CHR ''='') # Piece (LIdent backtick ''it's?'') #
       Piece (LChar CHR ''='') # Mark # [Piece (LLine ''x'')]))) [Some [squote]] =
     Inr (concat (map spell [LString ''?'', LChar CHR ''='', LIdent backtick ''it's?'', LChar CHR ''='', LString [squote], LLine ''x'']))"
proof -
  have "list_all seen_by_scan (Piece (LString ''?'') # Piece (LChar CHR ''='') # Piece (LIdent backtick ''it's?'') #
       Piece (LChar CHR ''='') # Mark # [Piece (LLine ''x'')])" by simp
  from mysql_interpolation [OF this refl, where vals = "[Some [squote]]" and n = 1] show ?thesis by simp
qed

text \<open>A quote in a comment hides the placeholders after it.\<close>

lemma comment_quote_hides_marks:
  "ps_num_params (prepared_new n (''SELECT a -- don't'' @ newline # ''WHERE id = ?'')) = 0"
proof -
  have "length (find_param_positions (''SELECT a -- don't'' @ newline # ''WHERE id = ?'')) = 0" by code_simp
  then show ?thesis by (simp add: prepared_new_def)
qed

section \<open>Backslashes\<close>

text \<open>
  The text after an opening quote up to its closing quote where a backslash escapes the character after
  it, as MySQL reads a literal.
\<close>

fun scan_escaped :: "string \<Rightarrow> string \<times> string" where
  "scan_escaped [] = ([], [])"
| "scan_escaped [c] = ([c], [])"
| "scan_escaped (c # d # cs) =
     (if c = backslash \<or> c = squote \<and> d = squote then (let (a, b) = scan_escaped cs in (c # d # a, b))
      else if c = squote then ([c], d # cs)
      else (let (a, b) = scan_escaped (d # cs) in (c # a, b)))"

lemma scan_escaped_body:
  assumes "backslash \<notin> set v" "rest \<noteq> []" "hd rest \<noteq> squote \<or> tl rest = [] \<or> hd (tl rest) \<noteq> squote"
  shows "scan_escaped (double_char squote v @ rest) =
    (double_char squote v @ fst (scan_escaped rest), snd (scan_escaped rest))"
  using assms(1)
proof (induction v)
  case (Cons c v)
  then show ?case
    using assms(2) by (cases "double_char squote v @ rest") (auto simp: case_prod_beta)
qed simp

text \<open>
  Read by MySQL's rules, the literal of a value without backslashes ends at its own closing quote; that
  of a value that ends in a backslash does not: the text after it, up to the next quote, is in the literal.
\<close>

theorem mysql_literal_end:
  assumes "backslash \<notin> set v" "rest \<noteq> []" "hd rest \<noteq> squote"
  shows "scan_escaped (tl (param_text (Some v) @ rest)) = (double_char squote v @ [squote], rest)"
    "scan_escaped (tl (param_text (Some (v @ [backslash])) @ rest)) =
       (double_char squote v @ [backslash, squote] @ fst (scan_escaped rest), snd (scan_escaped rest))"
  using scan_escaped_body [OF assms(1), of "squote # rest"] scan_escaped_body [OF assms(1), of "backslash # squote # rest"] assms
  by (cases rest; simp add: case_prod_beta)+

section \<open>Parameters read back\<close>

text \<open>Parameters as a client sends them: a value of one of the types, the texts at any other type byte.\<close>

datatype client_param =
    CNull "8 word"
  | CTiny "8 word"
  | CShort "16 word"
  | CLong "32 word"
  | CLongLong "64 word"
  | CFloat "32 word"
  | CDouble "64 word"
  | CText "8 word" string

fun param_type :: "client_param \<Rightarrow> 8 word" where
  "param_type (CNull ty) = ty"
| "param_type (CTiny w) = 0x01"
| "param_type (CShort w) = 0x02"
| "param_type (CLong w) = 0x03"
| "param_type (CFloat w) = 0x04"
| "param_type (CDouble w) = 0x05"
| "param_type (CLongLong w) = 0x08"
| "param_type (CText ty s) = ty"

fun param_bytes :: "client_param \<Rightarrow> bytes" where
  "param_bytes (CNull ty) = []"
| "param_bytes (CTiny w) = le_bytes 1 (unat w)"
| "param_bytes (CShort w) = le_bytes 2 (unat w)"
| "param_bytes (CLong w) = le_bytes 4 (unat w)"
| "param_bytes (CFloat w) = le_bytes 4 (unat w)"
| "param_bytes (CDouble w) = le_bytes 8 (unat w)"
| "param_bytes (CLongLong w) = le_bytes 8 (unat w)"
| "param_bytes (CText ty s) = write_lenenc_str (utf8 s)"

fun param_value :: "runtime \<Rightarrow> client_param \<Rightarrow> string option" where
  "param_value R (CNull ty) = None"
| "param_value R (CTiny w) = Some (show_int (sint w))"
| "param_value R (CShort w) = Some (show_int (sint w))"
| "param_value R (CLong w) = Some (show_int (sint w))"
| "param_value R (CFloat w) = Some (show_float32 R w)"
| "param_value R (CDouble w) = Some (show_float R w)"
| "param_value R (CLongLong w) = Some (show_int (sint w))"
| "param_value R (CText ty s) = Some s"

text \<open>A text sent at a type that is read as a text, of a length below a terabyte, which decodes as itself.\<close>

fun param_ok :: "runtime \<Rightarrow> client_param \<Rightarrow> bool" where
  "param_ok R (CText ty s) \<longleftrightarrow>
     ty \<notin> {1, 2, 3, 4, 5, 6, 8} \<and> length (utf8 s) < 2 ^ 40 \<and> utf8_lossy R (utf8 s) = s"
| "param_ok R p \<longleftrightarrow> True"

definition is_null :: "client_param \<Rightarrow> bool" where
  "is_null p \<longleftrightarrow> (\<exists>ty. p = CNull ty)"

definition execute_args :: "32 word \<Rightarrow> bytes \<Rightarrow> client_param list \<Rightarrow> bytes" where
  "execute_args n bitmap ps =
     le_bytes 4 (unat n) @ [0] @ le_bytes 4 1 @ bitmap @ [1] @
     concat (map (\<lambda>p. [param_type p, 0]) ps) @ concat (map param_bytes ps)"

lemma read_number_le:
  "n < 256 ^ k \<Longrightarrow> read_number k name f (le_bytes k n @ rest) = Inr (f n, k)"
  by (simp add: read_number_def of_le_bytes_small)

lemma lenenc_header_written:
  assumes "n < 2 ^ 64"
  shows "lenenc_header (write_lenenc_int (of_nat n) @ rest) = Inr (n, length (write_lenenc_int (of_nat n)))"
proof -
  have n: "unat (of_nat n :: 64 word) = n" using assms by (simp add: unat_of_nat)
  have small: "n < 251 \<Longrightarrow> unat (of_nat n :: 8 word) = n \<and> (of_nat n :: 8 word) \<le> 0xfa"
    by (simp add: unat_of_nat word_le_nat_alt)
  have "lenenc_header ((if n < 251 then le_bytes 1 n
        else if n < 65536 then 0xfc # le_bytes 2 n
        else if n < 16777216 then 0xfd # le_bytes 3 n
        else 0xfe # le_bytes 8 n) @ rest) =
      Inr (n, length (if n < 251 then le_bytes 1 n
        else if n < 65536 then 0xfc # le_bytes 2 n
        else if n < 16777216 then 0xfd # le_bytes 3 n
        else 0xfe # le_bytes 8 n))"
    using assms small by (simp add: lenenc_header_def Let_def of_le_bytes_small)
  then show ?thesis unfolding write_lenenc_int_def Let_def n .
qed

lemma read_string_raw_written:
  assumes "length b < 2 ^ 40"
  shows "read_lenenc_string_raw R (write_lenenc_str b @ rest) = Inr (utf8_lossy R b, length (write_lenenc_str b))"
proof -
  let ?h = "write_lenenc_int (of_nat (length b))"
  have "lenenc_header (?h @ b @ rest) = Inr (length b, length ?h)"
    using assms by (intro lenenc_header_written) simp
  moreover have "length ?h \<le> 9" by (simp add: write_lenenc_int_def Let_def)
  ultimately show ?thesis
    using assms by (simp add: read_lenenc_string_raw_def Let_def write_lenenc_str_def)
qed

lemma read_param_written:
  assumes "param_ok R p" "\<not> is_null p"
  shows "\<exists>s. param_value R p = Some s \<and>
    read_binary_value R (param_type p) (param_bytes p @ rest) = Inr (s, length (param_bytes p))"
proof -
  have b: "unat (w1 :: 8 word) < 256 ^ 1" "unat (w2 :: 16 word) < 256 ^ 2" "unat (w4 :: 32 word) < 256 ^ 4"
    "unat (w8 :: 64 word) < 256 ^ 8" for w1 w2 w4 w8
    using unat_bound [of w1] unat_bound [of w2] unat_bound [of w4] unat_bound [of w8] by simp_all
  have one: "read_number (Suc 0) name f (w # bs) = Inr (f (unat w), Suc 0)" for name f w bs
    by (simp add: read_number_def)
  from assms show ?thesis
    by (cases p)
      (simp_all add: is_null_def read_binary_value_def one read_number_le [OF b(2)]
        read_number_le [OF b(3)] read_number_le [OF b(4)] read_string_raw_written)
qed

lemma read_params_written:
  assumes "\<forall>p \<in> set ps. param_ok R p" "\<And>j. j < length ps \<Longrightarrow> bit_at (i + j) bitmap \<longleftrightarrow> is_null (ps ! j)"
  shows "read_params R bitmap None i (map param_type ps) (concat (map param_bytes ps) @ rest) = Inr (map (param_value R) ps)"
  using assms
proof (induction ps arbitrary: i)
  case (Cons p ps)
  have "bit_at (Suc i + j) bitmap \<longleftrightarrow> is_null (ps ! j)" if "j < length ps" for j
    using Cons.prems(2) [of "Suc j"] that by simp
  with Cons.prems(1) have IH:
    "read_params R bitmap None (Suc i) (map param_type ps) (concat (map param_bytes ps) @ rest) = Inr (map (param_value R) ps)"
    by (intro Cons.IH) simp_all
  have b: "bit_at i bitmap \<longleftrightarrow> is_null p" using Cons.prems(2) [of 0] by simp
  show ?case
  proof (cases "is_null p")
    case True
    then obtain ty where "p = CNull ty" by (auto simp: is_null_def)
    with b True IH show ?thesis by (simp add: Let_def)
  next
    case False
    with read_param_written [of R p "concat (map param_bytes ps) @ rest"] Cons.prems(1) obtain s where
      "param_value R p = Some s"
      "read_binary_value R (param_type p) (param_bytes p @ concat (map param_bytes ps) @ rest) = Inr (s, length (param_bytes p))"
      by auto
    with b False IH show ?thesis by (simp add: Let_def)
  qed
qed simp

lemma even_bytes_types: "even_bytes (concat (map (\<lambda>p. [f p, 0]) ps)) = map f ps"
  by (induction ps) simp_all

lemma parse_execute_parts:
  assumes "length head = 9" "ps_num_params stmt \<noteq> 0" "length bitmap = (ps_num_params stmt + 7) div 8"
    "length types = ps_num_params stmt * 2"
  shows "parse_stmt_execute_data R (head @ bitmap @ [0]) stmt = Inr (replicate (ps_num_params stmt) None)"
    "flag \<noteq> 0 \<Longrightarrow> parse_stmt_execute_data R (head @ bitmap @ flag # types @ vals) stmt =
       read_params R bitmap (ps_param_buffers stmt) 0 (even_bytes types) vals"
  using assms by (simp_all add: parse_stmt_execute_data_def Let_def nth_append)

lemma types_length: "length (concat (map (\<lambda>p. [f p, 0 :: 8 word]) ps)) = length ps * 2"
  by (induction ps) simp_all

lemma parse_execute_written:
  assumes "ps_num_params stmt = length ps" "ps_param_buffers stmt = None" "\<forall>p \<in> set ps. param_ok R p"
    "length bitmap = (length ps + 7) div 8" "\<And>i. i < length ps \<Longrightarrow> bit_at i bitmap \<longleftrightarrow> is_null (ps ! i)"
  shows "parse_stmt_execute_data R (execute_args n bitmap ps) stmt = Inr (map (param_value R) ps)"
proof (cases "ps = []")
  case True
  with assms(1) show ?thesis by (simp add: parse_stmt_execute_data_def Let_def execute_args_def)
next
  case False
  let ?types = "concat (map (\<lambda>p. [param_type p, 0]) ps)"
  let ?vals = "concat (map param_bytes ps)"
  note types = types_length [of param_type ps]
  have "read_params R bitmap None 0 (map param_type ps) (?vals @ []) = Inr (map (param_value R) ps)"
    using assms(3,5) by (intro read_params_written) simp_all
  moreover have "length (le_bytes 4 (unat n) @ [0] @ le_bytes 4 1) = 9" by simp
  note parse_execute_parts [OF this, where stmt = stmt and bitmap = bitmap and types = ?types and R = R]
  ultimately show ?thesis
    using assms(1,2,4) False types even_bytes_types [of param_type ps]
    by (simp add: execute_args_def)
qed



end
