(* ===== verification/Mysql_Builtins.thy ===== *)
theory Mysql_Builtins
  imports Mysql_Prepared Pg_Params
begin

text \<open>
  What the vendored server answers before the proxy sees a statement: the session variables of
  \<open>variables.rs\<close> and \<open>handle_builtin_query\<close> of \<open>connection.rs\<close> with the functions it calls, and the
  splitting of a text at its semicolons. Indices into texts are byte indices, and a slice that does not
  fall on a character panics, as in the code.
\<close>

section \<open>Slices by bytes\<close>

abbreviation panic :: "'a mres" where "panic \<equiv> Inl Panics"

definition byte_len :: "string \<Rightarrow> nat" where
  "byte_len s = length (utf8 s)"

text \<open>\<open>&s[n..]\<close> and \<open>&s[..n]\<close>.\<close>

fun byte_drop :: "nat \<Rightarrow> string \<Rightarrow> string mres" where
  "byte_drop n [] = (if n = 0 then Inr [] else panic)"
| "byte_drop n (c # cs) =
     (if n = 0 then Inr (c # cs)
      else if n < length (utf8_char c) then panic else byte_drop (n - length (utf8_char c)) cs)"

fun byte_take :: "nat \<Rightarrow> string \<Rightarrow> string mres" where
  "byte_take n [] = (if n = 0 then Inr [] else panic)"
| "byte_take n (c # cs) =
     (if n = 0 then Inr []
      else if n < length (utf8_char c) then panic
      else (case byte_take (n - length (utf8_char c)) cs of Inl f \<Rightarrow> Inl f | Inr s \<Rightarrow> Inr (c # s)))"

definition byte_find :: "string \<Rightarrow> string \<Rightarrow> nat option" where
  "byte_find p s = map_option (\<lambda>i. byte_len (take i s)) (find_sub p s)"

definition byte_rfind :: "string \<Rightarrow> string \<Rightarrow> nat option" where
  "byte_rfind p s = map_option (\<lambda>i. byte_len (take i s)) (rfind_sub p s)"

definition and_then :: "'a mres \<Rightarrow> ('a \<Rightarrow> 'b mres) \<Rightarrow> 'b mres" where
  "and_then r f = (case r of Inl e \<Rightarrow> Inl e | Inr a \<Rightarrow> f a)"

lemma and_then_simps [simp]: "and_then (Inl e) f = Inl e" "and_then (Inr a) f = f a"
  by (simp_all add: and_then_def)

lemma and_then_Inr: "and_then r f = Inr b \<longleftrightarrow> (\<exists>a. r = Inr a \<and> f a = Inr b)"
  by (cases r) auto

lemma and_then_cong [fundef_cong]:
  "r = r' \<Longrightarrow> (\<And>a. r' = Inr a \<Longrightarrow> f a = f' a) \<Longrightarrow> and_then r f = and_then r' f'"
  by (cases r') auto

text \<open>\<open>&s[1..s.len() - 1]\<close> of a text that starts and ends with the same quote.\<close>

definition quoted_with :: "char \<Rightarrow> string \<Rightarrow> bool" where
  "quoted_with q s \<longleftrightarrow> s \<noteq> [] \<and> hd s = q \<and> last s = q"

definition inner :: "string \<Rightarrow> string mres" where
  "inner s = (if length s < 2 then panic else Inr (butlast (tl s)))"

definition eq_ignore_ascii_case :: "string \<Rightarrow> string \<Rightarrow> bool" where
  "eq_ignore_ascii_case s t \<longleftrightarrow> to_ascii_lowercase s = to_ascii_lowercase t"

text \<open>\<open>str::to_lowercase\<close> on the characters of the model.\<close>

definition lower_char :: "char \<Rightarrow> char" where
  "lower_char c =
     (let n = (code_of c :: nat) in
      if 65 \<le> n \<and> n \<le> 90 \<or> 192 \<le> n \<and> n \<le> 222 \<and> n \<noteq> 215 then char_of (n + 32) else c)"

definition to_lowercase :: "string \<Rightarrow> string" where
  "to_lowercase s = map lower_char s"

text \<open>\<open>trim_start_matches\<close> of a text, as often as it is there; \<open>split_whitespace\<close>.\<close>

function trim_prefix :: "string \<Rightarrow> string \<Rightarrow> string" where
  "trim_prefix p s = (if p \<noteq> [] \<and> starts_with p s then trim_prefix p (drop (length p) s) else s)"
  by pat_completeness auto

termination
  by (relation "measure (\<lambda>(p, s). length s)") (auto simp: starts_with_iff)

declare trim_prefix.simps [simp del]

definition first_word :: "string \<Rightarrow> string option" where
  "first_word s =
     (let w = takeWhile (\<lambda>c. \<not> is_whitespace c) (dropWhile is_whitespace s) in if w = [] then None else Some w)"

section \<open>Session variables\<close>

datatype var_value = SvString string | SvInt "64 word" | SvBool bool | SvNull

fun to_mysql_string :: "var_value \<Rightarrow> string option" where
  "to_mysql_string (SvString s) = Some s"
| "to_mysql_string (SvInt i) = Some (show_int (sint i))"
| "to_mysql_string (SvBool b) = Some (if b then ''1'' else ''0'')"
| "to_mysql_string SvNull = None"

text \<open>The hash maps as lists of pairs with distinct keys; nothing depends on their order.\<close>

type_synonym var_map = "(string \<times> var_value) list"

record variables =
  sv_globals :: var_map
  sv_overrides :: var_map

definition var_insert :: "string \<Rightarrow> var_value \<Rightarrow> var_map \<Rightarrow> var_map" where
  "var_insert k v m = (k, v) # filter (\<lambda>(k', _). k' \<noteq> k) m"

definition var_remove :: "string \<Rightarrow> var_map \<Rightarrow> var_map" where
  "var_remove k m = filter (\<lambda>(k', _). k' \<noteq> k) m"

definition default_globals :: "string \<Rightarrow> string \<Rightarrow> var_map" where
  "default_globals os arch =
     [(''version'', SvString ''8.0.0-mysql-mimic''),
      (''version_comment'', SvString ''mysql-mimic''),
      (''version_compile_os'', SvString os),
      (''version_compile_machine'', SvString arch),
      (''character_set_client'', SvString ''utf8mb4''),
      (''character_set_connection'', SvString ''utf8mb4''),
      (''character_set_results'', SvString ''utf8mb4''),
      (''character_set_server'', SvString ''utf8mb4''),
      (''collation_connection'', SvString ''utf8mb4_general_ci''),
      (''collation_server'', SvString ''utf8mb4_general_ci''),
      (''sql_mode'', SvString ''ANSI''),
      (''wait_timeout'', SvInt 28800),
      (''interactive_timeout'', SvInt 28800),
      (''net_write_timeout'', SvInt 28800),
      (''transaction_isolation'', SvString ''READ-COMMITTED''),
      (''transaction_read_only'', SvBool False),
      (''autocommit'', SvBool True),
      (''max_allowed_packet'', SvInt 67108864),
      (''sql_auto_is_null'', SvBool False),
      (''sql_select_limit'', SvNull),
      (''lower_case_table_names'', SvInt 0),
      (''system_time_zone'', SvString ''UTC''),
      (''time_zone'', SvString ''UTC''),
      (''init_connect'', SvString []),
      (''license'', SvString ''MIT''),
      (''performance_schema'', SvInt 0),
      (''auto_increment_increment'', SvInt 1),
      (''external_user'', SvNull),
      (''query_cache_size'', SvInt 0),
      (''query_cache_type'', SvString ''OFF''),
      (''tx_isolation'', SvString ''READ-COMMITTED'')]"

definition var_get :: "variables \<Rightarrow> string \<Rightarrow> var_value option" where
  "var_get vs name =
     (let key = to_lowercase name in
      case map_of (sv_overrides vs) key of Some v \<Rightarrow> Some v | None \<Rightarrow> map_of (sv_globals vs) (to_lowercase key))"

definition var_set :: "string \<Rightarrow> var_value \<Rightarrow> variables \<Rightarrow> variables" where
  "var_set name value vs =
     (let key = to_lowercase name in
      if value = SvNull then vs\<lparr>sv_overrides := var_remove key (sv_overrides vs)\<rparr>
      else vs\<lparr>sv_overrides := var_insert key value (sv_overrides vs)\<rparr>)"

definition reset_all :: "variables \<Rightarrow> variables" where
  "reset_all vs = vs\<lparr>sv_overrides := []\<rparr>"

definition var_list :: "variables \<Rightarrow> var_map" where
  "var_list vs =
     sort_key fst (foldl (\<lambda>m (k, v). var_insert k v m) (foldl (\<lambda>m (k, v). var_insert k v m) [] (sv_globals vs)) (sv_overrides vs))"

section \<open>\<open>SET\<close>\<close>

definition scope_prefixes :: "string list" where
  "scope_prefixes =
     [''@@SESSION.'', ''@@session.'', ''@@LOCAL.'', ''@@local.'', ''@@GLOBAL.'', ''@@global.'', ''@@'']"

definition strip_scope :: "string \<Rightarrow> string" where
  "strip_scope s = foldl (\<lambda>s p. trim_prefix p s) s scope_prefixes"

definition strip_quotes :: "string \<Rightarrow> string" where
  "strip_quotes s = trim_matches (\<lambda>c. c = dquote) (trim_matches (\<lambda>c. c = squote) s)"

definition parse_set_value :: "variables \<Rightarrow> string \<Rightarrow> var_value mres" where
  "parse_set_value vs val =
     (let trimmed = trim val in
      if eq_ignore_ascii_case trimmed ''DEFAULT'' then Inr SvNull
      else if eq_ignore_ascii_case trimmed ''NULL'' then Inr SvNull
      else if starts_with ''@@'' trimmed
      then Inr (case var_get vs (strip_scope trimmed) of Some v \<Rightarrow> v | None \<Rightarrow> SvNull)
      else if eq_ignore_ascii_case trimmed ''ON'' \<or> eq_ignore_ascii_case trimmed ''TRUE'' then Inr (SvBool True)
      else if eq_ignore_ascii_case trimmed ''OFF'' \<or> eq_ignore_ascii_case trimmed ''FALSE'' then Inr (SvBool False)
      else
        case parse_signed trimmed of
          Some i \<Rightarrow> Inr (SvInt i)
        | None \<Rightarrow>
            if quoted_with squote trimmed \<or> quoted_with dquote trimmed
            then and_then (inner trimmed) (\<lambda>s. Inr (SvString s))
            else Inr (SvString trimmed))"

text \<open>\<open>splitn(2, '=')\<close>: the part before the first sign and the part after it, if there is one.\<close>

definition split_assignment :: "string \<Rightarrow> (string \<times> string) option" where
  "split_assignment s =
     (if CHR ''='' \<in> set s
      then Some (takeWhile (\<lambda>c. c \<noteq> CHR ''='') s, tl (dropWhile (\<lambda>c. c \<noteq> CHR ''='') s))
      else None)"

fun run_assignments :: "string list \<Rightarrow> variables \<Rightarrow> variables mres" where
  "run_assignments [] vs = Inr vs"
| "run_assignments (a # rest) vs =
     (case split_assignment (trim a) of
        None \<Rightarrow> run_assignments rest vs
      | Some (var_part, val_part) \<Rightarrow>
          and_then (parse_set_value vs (trim val_part))
            (\<lambda>value. run_assignments rest (var_set (strip_scope (trim var_part)) value vs)))"

definition parse_set_assignments :: "string \<Rightarrow> variables \<Rightarrow> variables mres" where
  "parse_set_assignments body = run_assignments (split_on CHR '','' body)"

definition known_charset :: "string \<Rightarrow> string" where
  "known_charset name = (if eq_ignore_ascii_case name ''DEFAULT'' then ''utf8mb4'' else name)"

definition set_names :: "string \<Rightarrow> string \<Rightarrow> string \<Rightarrow> variables \<Rightarrow> variables mres" where
  "set_names sql upper body vs =
     and_then (byte_drop 5 body) (\<lambda>names.
       let charset = known_charset (case first_word names of Some w \<Rightarrow> strip_quotes w | None \<Rightarrow> ''utf8mb4'');
           vs1 = var_set ''character_set_client'' (SvString charset) vs;
           vs2 = var_set ''character_set_connection'' (SvString charset) vs1;
           vs3 = var_set ''character_set_results'' (SvString charset) vs2 in
       case byte_find ''COLLATE'' upper of
         Some collate_pos \<Rightarrow>
           and_then (byte_drop (collate_pos + 7) sql)
             (\<lambda>rest. Inr (var_set ''collation_connection'' (SvString (strip_quotes (trim rest))) vs3))
       | None \<Rightarrow>
           Inr (if eq_ignore_ascii_case charset ''DEFAULT''
                then var_set ''collation_connection'' (SvString ''utf8mb4_general_ci'') vs3 else vs3))"

definition set_charset :: "bool \<Rightarrow> string \<Rightarrow> variables \<Rightarrow> variables mres" where
  "set_charset long_form body vs =
     (let start = (if long_form then (case byte_find ''SET'' body of Some p \<Rightarrow> p + 3 | None \<Rightarrow> 0) else 7) in
      and_then (byte_drop start body) (\<lambda>rest.
        let charset = known_charset (strip_quotes (trim rest)) in
        Inr (var_set ''character_set_results'' (SvString charset)
              (var_set ''character_set_client'' (SvString charset) vs))))"

definition handle_set_statement :: "runtime \<Rightarrow> string \<Rightarrow> variables \<Rightarrow> variables mres" where
  "handle_set_statement R sql vs =
     (let upper = to_uppercase R sql in
      and_then (byte_drop 4 sql) (\<lambda>sql4.
        and_then (byte_drop 4 upper) (\<lambda>upper4.
          let body = trim sql4; what = trim upper4 in
          if starts_with ''NAMES'' what then set_names sql upper body vs
          else if starts_with ''CHARSET'' what \<or> starts_with ''CHARACTER SET'' what
          then set_charset (starts_with ''CHARACTER SET'' what) body vs
          else parse_set_assignments body vs)))"

section \<open>\<open>SHOW VARIABLES\<close>\<close>

definition extract_like_pattern :: "runtime \<Rightarrow> string \<Rightarrow> string option mres" where
  "extract_like_pattern R sql =
     (case byte_find ''LIKE'' (to_uppercase R sql) of
        None \<Rightarrow> Inr None
      | Some pos \<Rightarrow>
          and_then (byte_drop (pos + 4) sql) (\<lambda>after.
            case trim after of
              [] \<Rightarrow> Inr None
            | quote # cs \<Rightarrow>
                Inr (if (quote = squote \<or> quote = dquote) \<and> quote \<in> set cs
                     then Some (takeWhile (\<lambda>c. c \<noteq> quote) cs) else None)))"

function like_match_recursive :: "bytes \<Rightarrow> bytes \<Rightarrow> bool" where
  "like_match_recursive pattern value =
     (case pattern of
        [] \<Rightarrow> value = []
      | p # ps \<Rightarrow>
          if p = 0x25
          then like_match_recursive ps value \<or> (case value of [] \<Rightarrow> False | v # vs \<Rightarrow> like_match_recursive pattern vs)
          else
            case value of
              [] \<Rightarrow> False
            | v # vs \<Rightarrow> (p = 0x5F \<or> p = v) \<and> like_match_recursive ps vs)"
  by pat_completeness auto

termination
  by (relation "measure (\<lambda>(p, v). length p + length v)") auto

declare like_match_recursive.simps [simp del]

definition like_match :: "string \<Rightarrow> string \<Rightarrow> bool" where
  "like_match pattern value = like_match_recursive (utf8 (to_lowercase pattern)) (utf8 (to_lowercase value))"

definition text_column :: "string \<Rightarrow> column" where
  "text_column n = column_new n VarString"

definition with_rows :: "column list \<Rightarrow> string option list list \<Rightarrow> result_set" where
  "with_rows cols rows = foldl add_row (result_set_new cols) rows"

definition handle_show_variables :: "runtime \<Rightarrow> variables \<Rightarrow> string \<Rightarrow> result_set mres" where
  "handle_show_variables R vs sql =
     and_then (extract_like_pattern R sql) (\<lambda>like_pattern.
       Inr (with_rows [text_column ''Variable_name'', text_column ''Value'']
         (map (\<lambda>(name, value). [Some name, to_mysql_string value])
           (filter (\<lambda>(name, value). case like_pattern of Some p \<Rightarrow> like_match p name | None \<Rightarrow> True) (var_list vs)))))"

section \<open>\<open>SELECT\<close> of variables, functions and constants\<close>

text \<open>The bytes of a scope prefix after \<open>@@\<close>.\<close>

definition scope_skip :: "runtime \<Rightarrow> string \<Rightarrow> nat" where
  "scope_skip R remaining =
     (let u = to_uppercase R remaining in
      if starts_with ''SESSION.'' u then 8
      else if starts_with ''GLOBAL.'' u then 7
      else if starts_with ''LOCAL.'' u then 6
      else 0)"

definition var_char :: "char \<Rightarrow> bool" where
  "var_char c \<longleftrightarrow> (code_of c :: nat) < 128 \<and> is_word_char c"

text \<open>The name of the column: an alias after \<open>AS\<close> and a blank, or the reference itself.\<close>

definition alias_or :: "string \<Rightarrow> string \<Rightarrow> string mres" where
  "alias_or full_ref after =
     (let trimmed_after = trim_start is_whitespace after in
      if byte_len trimmed_after < 3 then Inr full_ref
      else and_then (byte_take 2 trimmed_after) (\<lambda>two.
        if eq_ignore_ascii_case two ''AS'' \<and> length trimmed_after > 2 \<and> trimmed_after ! 2 \<in> {CHR '' '', CHR 0x09}
        then
          (let alias = takeWhile var_char (trim_start is_whitespace (drop 2 trimmed_after)) in
           Inr (if alias = [] then full_ref else alias))
        else Inr full_ref))"

lemma byte_drop_length: "byte_drop n s = Inr r \<Longrightarrow> length r \<le> length s"
  by (induction n s rule: byte_drop.induct) (auto split: if_splits)

function variable_refs :: "runtime \<Rightarrow> variables \<Rightarrow> string \<Rightarrow> (column \<times> string option) list mres" where
  "variable_refs R vs (c # d # cs) =
     (if c = CHR ''@'' \<and> d = CHR ''@'' then
        and_then (byte_drop (scope_skip R cs) cs) (\<lambda>named.
          let name = takeWhile var_char named; after = dropWhile var_char named;
              scope = take (length cs - length named) cs in
          and_then (alias_or (c # d # scope @ name) after) (\<lambda>col_name.
            and_then (variable_refs R vs after) (\<lambda>more.
              Inr ((text_column col_name, Option.bind (var_get vs name) to_mysql_string) # more))))
      else variable_refs R vs (d # cs))"
| "variable_refs R vs [c] = Inr []"
| "variable_refs R vs [] = Inr []"
  by pat_completeness auto

termination
proof (relation "measure (\<lambda>(R, vs, s). length s)")
  fix R :: runtime and vs c d cs named name after scope col_name
  assume n: "byte_drop (scope_skip R cs) cs = Inr named" and a: "after = dropWhile var_char named"
  have "length after \<le> length named" by (simp add: a length_dropWhile_le)
  with byte_drop_length [OF n] show "((R, vs, after), R, vs, c # d # cs) \<in> measure (\<lambda>(R, vs, s). length s)"
    by simp
qed auto

definition select_result :: "(column \<times> string option) list \<Rightarrow> result_set option" where
  "select_result items = (if items = [] then None else Some (with_rows (map fst items) [map snd items]))"

definition handle_select_variables :: "runtime \<Rightarrow> variables \<Rightarrow> string \<Rightarrow> result_set option mres" where
  "handle_select_variables R vs sql = and_then (variable_refs R vs sql) (\<lambda>items. Inr (select_result items))"

text \<open>What the connection knows of the client, with the attributes of its handshake, one value for a key.\<close>

record connection_info =
  ci_connection_id :: "32 word"
  ci_username :: string
  ci_database :: "string option"
  ci_connect_attrs :: "(string \<times> string) list"

definition mysql_functions :: "variables \<Rightarrow> connection_info \<Rightarrow> (string \<times> string option) list" where
  "mysql_functions vs info =
     [(''DATABASE()'', ci_database info),
      (''SCHEMA()'', ci_database info),
      (''CONNECTION_ID()'', Some (show_nat (unat (ci_connection_id info)))),
      (''USER()'', Some (case Option.bind (var_get vs ''external_user'') to_mysql_string of
                           Some u \<Rightarrow> u | None \<Rightarrow> ci_username info)),
      (''CURRENT_USER()'', Some (ci_username info)),
      (''VERSION()'', Option.bind (var_get vs ''version'') to_mysql_string)]"

definition handle_select_functions :: "runtime \<Rightarrow> variables \<Rightarrow> connection_info \<Rightarrow> string \<Rightarrow> result_set option" where
  "handle_select_functions R vs info sql =
     select_result (map (\<lambda>(name, value). (text_column name, value))
       (filter (\<lambda>(name, value). contains_sub name (to_uppercase R sql)) (mysql_functions vs info)))"

text \<open>The value and the type of a constant; \<open>None\<close> for anything else.\<close>

definition static_value :: "string \<Rightarrow> (column_type \<times> string option) option mres" where
  "static_value value_part =
     (case (parse_signed value_part :: 64 word option) of
        Some n \<Rightarrow> Inr (Some (LongLong, Some (show_int (sint n))))
      | None \<Rightarrow>
          if quoted_with squote value_part \<or> quoted_with dquote value_part
          then and_then (inner value_part) (\<lambda>s. Inr (Some (VarString, Some s)))
          else if eq_ignore_ascii_case value_part ''NULL'' then Inr (Some (TypeNull, None))
          else if eq_ignore_ascii_case value_part ''TRUE'' then Inr (Some (Tiny, Some ''1''))
          else if eq_ignore_ascii_case value_part ''FALSE'' then Inr (Some (Tiny, Some ''0''))
          else Inr None)"

text \<open>An expression of the list: the value and the alias, split at the last \<open>AS\<close>.\<close>

definition split_alias :: "runtime \<Rightarrow> string \<Rightarrow> (string \<times> string) mres" where
  "split_alias R expr =
     (case byte_rfind '' AS '' (to_uppercase R expr) of
        None \<Rightarrow> Inr (expr, expr)
      | Some as_pos \<Rightarrow>
          and_then (byte_take as_pos expr) (\<lambda>v. and_then (byte_drop (as_pos + 4) expr) (\<lambda>a. Inr (trim v, trim a))))"

fun static_items :: "runtime \<Rightarrow> string list \<Rightarrow> (column \<times> string option) list option mres" where
  "static_items R [] = Inr (Some [])"
| "static_items R (e # es) =
     and_then (split_alias R (trim e)) (\<lambda>(value_part, alias).
       and_then (static_value value_part) (\<lambda>v.
         case v of
           None \<Rightarrow> Inr None
         | Some (ty, value) \<Rightarrow>
             and_then (static_items R es) (\<lambda>more.
               Inr (map_option (Cons (column_new alias ty, value)) more))))"

definition handle_static_select :: "runtime \<Rightarrow> string \<Rightarrow> result_set option mres" where
  "handle_static_select R sql =
     (let upper = to_uppercase R sql in
      and_then (byte_drop 7 sql) (\<lambda>after.
        if contains_sub ''FROM'' upper \<or> contains_sub ''WHERE'' upper \<or> contains_sub ''JOIN'' upper then Inr None
        else and_then (static_items R (split_on CHR '','' (trim after)))
          (\<lambda>items. Inr (Option.bind items select_result))))"

section \<open>The dispatch\<close>

text \<open>Leading comments are cut off; one that does not end stays.\<close>

function strip_c_comments :: "string \<Rightarrow> string" where
  "strip_c_comments sql =
     (let s = trim_start is_whitespace sql in
      if starts_with ''/*'' s
      then (case find_sub ''*/'' s of None \<Rightarrow> s | Some end_pos \<Rightarrow> strip_c_comments (drop (end_pos + 2) s))
      else s)"
  by pat_completeness auto

termination
proof (relation "measure length")
  fix sql s end_pos
  assume s: "s = trim_start is_whitespace sql" and "starts_with ''/*'' s"
  then have "0 < length s" by (auto simp: starts_with_iff)
  moreover have "length s \<le> length sql" by (simp add: s trim_start_def length_dropWhile_le)
  ultimately have "length s - (end_pos + 2) < length sql" by linarith
  then show "(drop (end_pos + 2) s, sql) \<in> measure length" by simp
qed simp

declare strip_c_comments.simps [simp del]

text \<open>
  The answer to a statement the server takes itself, with the state it leaves: the variables and the
  current database. \<open>None\<close> is a statement for the session.
\<close>

definition status_columns :: "column list" where
  "status_columns = [text_column ''Variable_name'', text_column ''Value'']"

definition warning_columns :: "column list" where
  "warning_columns = [text_column ''Level'', column_new ''Code'' Long, text_column ''Message'']"

definition used_database :: "string \<Rightarrow> string" where
  "used_database s = trim_matches (\<lambda>c. c = dquote) (trim_matches (\<lambda>c. c = squote) (trim_matches (\<lambda>c. c = backtick) (trim s)))"

definition builtin_answer ::
  "runtime \<Rightarrow> variables \<Rightarrow> connection_info \<Rightarrow> string \<Rightarrow> string \<Rightarrow> string \<Rightarrow> result_set option mres" where
  "builtin_answer R vs info sql upper trimmed =
     (let answer = (\<lambda>rs. Inr (Some rs)); functions = handle_select_functions R vs info sql in
      if trimmed = ''BEGIN'' \<or> starts_with ''START TRANSACTION'' trimmed then answer result_set_empty
      else if trimmed = ''COMMIT'' then answer result_set_empty
      else if trimmed = ''ROLLBACK'' then answer result_set_empty
      else if starts_with ''SHOW'' trimmed \<and> contains_sub ''VARIABLES'' trimmed
      then and_then (handle_show_variables R vs sql) answer
      else if starts_with ''SHOW WARNINGS'' trimmed then answer (result_set_new warning_columns)
      else if starts_with ''SHOW ERRORS'' trimmed then answer (result_set_new warning_columns)
      else if starts_with ''SHOW'' trimmed \<and> contains_sub ''STATUS'' trimmed then answer (result_set_new status_columns)
      else
        and_then
          (if starts_with ''SELECT'' trimmed \<and> contains_sub ''@@'' upper then handle_select_variables R vs sql
           else Inr None)
          (\<lambda>selected.
            case selected of
              Some rs \<Rightarrow> answer rs
            | None \<Rightarrow>
                if (contains_sub ''DATABASE()'' trimmed \<or> contains_sub ''SCHEMA()'' trimmed) \<and> functions \<noteq> None
                then answer (the functions)
                else if contains_sub ''CONNECTION_ID()'' trimmed \<and> functions \<noteq> None then answer (the functions)
                else if (contains_sub ''USER()'' trimmed \<or> contains_sub ''CURRENT_USER()'' trimmed) \<and> functions \<noteq> None
                then answer (the functions)
                else if contains_sub ''VERSION()'' trimmed \<and> functions \<noteq> None then answer (the functions)
                else if starts_with ''SELECT '' trimmed \<and> \<not> contains_sub ''FROM'' trimmed
                then handle_static_select R sql
                else Inr None))"

definition handle_builtin_query ::
  "runtime \<Rightarrow> string \<Rightarrow> variables \<times> connection_info \<Rightarrow> ((variables \<times> connection_info) \<times> result_set option) mres" where
  "handle_builtin_query R query st =
     (let (vs, info) = st;
          sql = trim (strip_c_comments query);
          upper = to_uppercase R sql;
          trimmed = trim upper in
      if starts_with ''SET '' trimmed
      then and_then (handle_set_statement R sql vs) (\<lambda>vs'. Inr ((vs', info), Some result_set_empty))
      else if starts_with ''USE '' trimmed
      then and_then (byte_drop 4 sql)
        (\<lambda>db. Inr ((vs, info\<lparr>ci_database := Some (used_database db)\<rparr>), Some result_set_empty))
      else and_then (builtin_answer R vs info sql upper trimmed) (\<lambda>r. Inr (st, r)))"

section \<open>Statements of a text\<close>

text \<open>
  The scan over the characters: the text so far, whether the character before is a backslash, and the
  quotes one is in. A statement is added where it is not blank.
\<close>

definition add_statement :: "string \<Rightarrow> string list \<Rightarrow> string list" where
  "add_statement current rest = (if trim current = [] then rest else trim current # rest)"

fun split_from :: "string \<Rightarrow> bool \<Rightarrow> quoting \<Rightarrow> string \<Rightarrow> string list" where
  "split_from current escaped q [] = add_statement current []"
| "split_from current escaped q (ch # cs) =
     (if ch = CHR '';'' \<and> q = unquoted
      then add_statement current (split_from [] False q cs)
      else split_from (current @ [ch]) (ch = backslash) (quote_step escaped ch q) cs)"

definition mysql_split_statements :: "string \<Rightarrow> string list" where
  "mysql_split_statements sql = split_from [] False unquoted sql"

section \<open>What the variables hold\<close>

lemma map_of_filter_key: "map_of (filter (\<lambda>(k', _). k' \<noteq> k) m) k1 = (if k1 = k then None else map_of m k1)"
  by (induction m) auto

lemma map_of_var_insert [simp]: "map_of (var_insert k v m) k1 = (if k1 = k then Some v else map_of m k1)"
  by (simp add: var_insert_def map_of_filter_key)

lemma map_of_var_remove [simp]: "map_of (var_remove k m) k1 = (if k1 = k then None else map_of m k1)"
  by (simp add: var_remove_def map_of_filter_key)

lemma distinct_var_insert: "distinct (map fst m) \<Longrightarrow> distinct (map fst (var_insert k v m))"
  by (auto simp: var_insert_def distinct_map_filter)

lemma distinct_var_remove: "distinct (map fst m) \<Longrightarrow> distinct (map fst (var_remove k m))"
  by (simp add: var_remove_def distinct_map_filter)

lemma lower_char_idem [simp]: "lower_char (lower_char c) = lower_char c"
  by (auto simp: lower_char_def Let_def)

lemma to_lowercase_idem [simp]: "to_lowercase (to_lowercase s) = to_lowercase s"
  by (simp add: to_lowercase_def)

lemma foldl_var_insert:
  "distinct (map fst m) \<Longrightarrow> distinct (map fst xs) \<Longrightarrow>
     map_of (foldl (\<lambda>m (k, v). var_insert k v m) m xs) k = (case map_of xs k of Some v \<Rightarrow> Some v | None \<Rightarrow> map_of m k) \<and>
     distinct (map fst (foldl (\<lambda>m (k, v). var_insert k v m) m xs))"
proof (induction xs arbitrary: m)
  case (Cons x xs)
  obtain k' v' where x: "x = (k', v')" by (cases x)
  have "map_of (foldl (\<lambda>m (k, v). var_insert k v m) (var_insert k' v' m) xs) k =
      (case map_of xs k of Some v \<Rightarrow> Some v | None \<Rightarrow> map_of (var_insert k' v' m) k) \<and>
      distinct (map fst (foldl (\<lambda>m (k, v). var_insert k v m) (var_insert k' v' m) xs))"
    using Cons.prems by (intro Cons.IH distinct_var_insert) simp_all
  moreover have "k' \<notin> fst ` set xs" using Cons.prems(2) by (simp add: x)
  then have "map_of xs k' = None" by (simp add: map_of_eq_None_iff)
  ultimately show ?case by (auto simp: x split: option.splits)
qed simp

lemma var_get_alt:
  "var_get vs m =
     (if map_of (sv_overrides vs) (to_lowercase m) = None then map_of (sv_globals vs) (to_lowercase m)
      else map_of (sv_overrides vs) (to_lowercase m))"
  by (auto simp: var_get_def Let_def)

lemma var_get_set:
  "var_get (var_set n v vs) m =
     (if to_lowercase m = to_lowercase n
      then (if v = SvNull then map_of (sv_globals vs) (to_lowercase m) else Some v) else var_get vs m)"
  by (auto simp: var_get_alt var_set_def Let_def)

text \<open>Variables whose maps have each name once, in lower case.\<close>

definition variables_ok :: "variables \<Rightarrow> bool" where
  "variables_ok vs \<longleftrightarrow>
     distinct (map fst (sv_globals vs)) \<and> distinct (map fst (sv_overrides vs)) \<and>
     list_all (\<lambda>(k, v). to_lowercase k = k) (sv_globals vs @ sv_overrides vs)"

lemma variables_ok_set: "variables_ok vs \<Longrightarrow> variables_ok (var_set n v vs)"
  using distinct_var_insert [of "sv_overrides vs" "to_lowercase n" v] distinct_var_remove [of "sv_overrides vs" "to_lowercase n"]
  by (auto simp: variables_ok_def var_set_def Let_def)
    (auto simp: var_insert_def var_remove_def list_all_iff)

lemma variables_ok_reset: "variables_ok vs \<Longrightarrow> variables_ok (reset_all vs)"
  by (auto simp: variables_ok_def reset_all_def)

lemma map_of_sort_fst: "distinct (map fst m) \<Longrightarrow> map_of (sort_key fst m) = map_of m"
  by (intro map_of_inject_set [THEN iffD2]) (simp_all add: distinct_map inj_on_def)

text \<open>
  Session variables are overrides of the server's defaults. A variable set to a value has that
  value under every spelling of its name, set to \<open>NULL\<close> or \<open>DEFAULT\<close> it has the server's default
  again, and no other variable changes; a reset gives every default back. The list of all variables is
  sorted by name, has every name once and gives each the value a lookup gives.
\<close>

theorem session_variables:
  assumes "variables_ok vs"
  shows "var_get (var_set n v vs) m =
      (if to_lowercase m = to_lowercase n
       then (if v = SvNull then map_of (sv_globals vs) (to_lowercase m) else Some v) else var_get vs m) \<and>
    var_get (reset_all vs) m = map_of (sv_globals vs) (to_lowercase m) \<and>
    variables_ok (var_set n v vs) \<and> variables_ok (reset_all vs) \<and>
    sorted (map fst (var_list vs)) \<and> distinct (map fst (var_list vs)) \<and>
    map_of (var_list vs) (to_lowercase m) = var_get vs m"
proof -
  let ?g = "foldl (\<lambda>m (k, v). var_insert k v m) [] (sv_globals vs)"
  let ?all = "foldl (\<lambda>m (k, v). var_insert k v m) ?g (sv_overrides vs)"
  have g: "map_of ?g k = map_of (sv_globals vs) k \<and> distinct (map fst ?g)" for k
    using foldl_var_insert [of "[]" "sv_globals vs" k] assms
    by (simp add: variables_ok_def split: option.splits)
  then have all: "map_of ?all k = (case map_of (sv_overrides vs) k of Some v \<Rightarrow> Some v | None \<Rightarrow> map_of (sv_globals vs) k) \<and>
      distinct (map fst ?all)" for k
    using foldl_var_insert [of ?g "sv_overrides vs" k] assms
    by (simp add: variables_ok_def split: option.splits)
  have "distinct (map fst ?all)" using all by blast
  then have "distinct (map fst (var_list vs))"
    unfolding var_list_def by (simp add: distinct_map inj_on_def)
  moreover have "map_of (var_list vs) (to_lowercase m) = var_get vs m"
    using map_of_sort_fst [OF \<open>distinct (map fst ?all)\<close>] all [of "to_lowercase m"]
    by (auto simp: var_list_def var_get_alt split: option.split)
  moreover have "sorted (map fst (var_list vs))" by (simp add: var_list_def)
  moreover have "var_get (reset_all vs) m = map_of (sv_globals vs) (to_lowercase m)"
    by (simp add: var_get_alt reset_all_def)
  ultimately show ?thesis
    using variables_ok_set [OF assms] variables_ok_reset [OF assms] var_get_set by blast
qed

definition sample_variables :: variables where
  "sample_variables = \<lparr>sv_globals = [(''autocommit'', SvBool True), (''version'', SvString ''8.0.0'')], sv_overrides = []\<rparr>"

lemma sample_variables_ok: "variables_ok sample_variables"
proof -
  have "to_lowercase ''autocommit'' = ''autocommit''" "to_lowercase ''version'' = ''version''" by code_simp+
  then show ?thesis by (simp add: variables_ok_def sample_variables_def)
qed

theorem session_variables_witness:
  "var_get (var_set ''AutoCommit'' (SvBool False) sample_variables) ''AUTOCOMMIT'' = Some (SvBool False)"
proof -
  have "to_lowercase ''AutoCommit'' = to_lowercase ''AUTOCOMMIT''" by code_simp
  then show ?thesis
    using session_variables [OF sample_variables_ok, of "''AutoCommit''" "SvBool False" "''AUTOCOMMIT''"] by simp
qed

section \<open>Statements apart\<close>

fun no_semicolon :: "piece \<Rightarrow> bool" where
  "no_semicolon (Piece (LString v)) \<longleftrightarrow> True"
| "no_semicolon (Piece (LIdent q v)) \<longleftrightarrow> True"
| "no_semicolon (Piece x) \<longleftrightarrow> CHR '';'' \<notin> set (spell x)"
| "no_semicolon h \<longleftrightarrow> True"

interpretation statements: quote_scan "\<lambda>cur escaped q cs. split_from cur escaped q cs" "\<lambda>cur c. cur @ [c]" "\<lambda>c. c = CHR '';''"
  by unfold_locales auto

lemma foldl_snoc [simp]: "foldl (\<lambda>cur c. cur @ [c]) cur w = cur @ w"
  by (induction w arbitrary: cur) simp_all

lemma split_piece:
  assumes "seen_by_scan (Piece x)" "no_semicolon (Piece x)"
  shows "split_from cur False unquoted (spell x @ rest) = split_from (cur @ spell x) False unquoted rest"
proof -
  have "(\<exists>v. x = LString v) \<or> (\<exists>q v. x = LIdent q v) \<or> (\<forall>c \<in> set (spell x). \<not> c = CHR '';'')"
    using assms(2) by (cases x) auto
  from statements.over_piece [OF assms(1) this] show ?thesis by simp
qed

lemma split_written:
  "list_all seen_by_scan ps \<Longrightarrow> list_all no_semicolon ps \<Longrightarrow>
     split_from cur False unquoted (written ps @ rest) = split_from (cur @ written ps) False unquoted rest"
proof (induction ps arbitrary: cur rule: written.induct)
  case (2 x ps)
  then show ?case using split_piece [of x cur "written ps @ rest"] by simp
next
  case (4 ps)
  have "quote_step False CHR ''?'' unquoted = unquoted" by (simp add: quote_step_def)
  with 4 show ?case by simp
qed simp_all

text \<open>
  A text of several statements is taken apart at the semicolons between them: for statements as the scan
  can see them, joined by semicolons, the result is those statements in order without the white space
  around them and without the blank ones, a semicolon inside a literal or a quoted identifier being part
  of it.
\<close>

theorem mysql_statements_split:
  assumes "\<forall>ps \<in> set pss. list_all seen_by_scan ps \<and> list_all no_semicolon ps"
  shows "mysql_split_statements (join '';'' (map written pss)) =
    filter (\<lambda>s. s \<noteq> []) (map (\<lambda>ps. trim (written ps)) pss)"
proof -
  have add: "add_statement c rest = filter (\<lambda>s. s \<noteq> []) [trim c] @ rest" for c rest
    by (simp add: add_statement_def)
  show ?thesis
    using assms
  proof (induction "'';''" "map written pss" arbitrary: pss rule: join.induct)
    case 1
    moreover have "trim [] = []" by code_simp
    ultimately show ?case by (simp add: mysql_split_statements_def add_statement_def)
  next
    case (2 s)
    then obtain ps where "pss = [ps]" by auto
    with 2 split_written [of ps "[]" "[]"] show ?case by (simp add: mysql_split_statements_def add)
  next
    case (3 s s' ss)
    then obtain ps pss' where pss: "pss = ps # pss'" "map written pss' = s' # ss" "s = written ps" by auto
    have IH: "mysql_split_statements (join '';'' (s' # ss)) = filter (\<lambda>s. s \<noteq> []) (map (\<lambda>ps. trim (written ps)) pss')"
      using 3(1) [of pss'] 3(3) pss by simp
    have "mysql_split_statements (join '';'' (s # s' # ss)) =
        split_from [] False unquoted (written ps @ CHR '';'' # join '';'' (s' # ss))"
      by (simp add: mysql_split_statements_def pss(3))
    also have "\<dots> = add_statement (written ps) (mysql_split_statements (join '';'' (s' # ss)))"
      using 3(3) split_written [of ps "[]"] by (simp add: pss(1) mysql_split_statements_def)
    finally show ?case by (simp add: IH pss add)
  qed
qed

theorem mysql_statements_split_witness:
  "mysql_split_statements (join '';'' (map written [[Piece (LChar CHR ''a''), Piece (LString '';'')], [Piece (LChar CHR '' '')],
       [Piece (LChar CHR '' ''), Piece (LIdent backtick ''b;'')]])) =
     [written [Piece (LChar CHR ''a''), Piece (LString '';'')], written [Piece (LIdent backtick ''b;'')]]"
proof -
  let ?pss = "[[Piece (LChar CHR ''a''), Piece (LString '';'')], [Piece (LChar CHR '' '')],
       [Piece (LChar CHR '' ''), Piece (LIdent backtick ''b;'')]]"
  have trims: "map (\<lambda>ps. trim (written ps)) ?pss =
      [written [Piece (LChar CHR ''a''), Piece (LString '';'')], [], written [Piece (LIdent backtick ''b;'')]]"
    by code_simp
  have "\<forall>ps \<in> set ?pss. list_all seen_by_scan ps \<and> list_all no_semicolon ps" by simp
  from mysql_statements_split [OF this] show ?thesis unfolding trims by simp
qed

section \<open>What the server takes\<close>

text \<open>A statement as the dispatch sees it: without comments and white space around it, in upper case.\<close>

definition command_text :: "runtime \<Rightarrow> string \<Rightarrow> string" where
  "command_text R query = trim (to_uppercase R (trim (strip_c_comments query)))"

definition is_transaction_command :: "string \<Rightarrow> bool" where
  "is_transaction_command c \<longleftrightarrow> c \<in> {''BEGIN'', ''COMMIT'', ''ROLLBACK''} \<or> starts_with ''START TRANSACTION'' c"

lemma transaction_command_answered:
  assumes "is_transaction_command (command_text R query)"
  shows "handle_builtin_query R query st = Inr (st, Some result_set_empty)"
proof -
  obtain vs info where st: "st = (vs, info)" by (cases st)
  define c where "c = command_text R query"
  have t: "(c = ''BEGIN'' \<or> starts_with ''START TRANSACTION'' c) \<or> c = ''COMMIT'' \<or> c = ''ROLLBACK''"
    using assms by (auto simp: is_transaction_command_def c_def)
  then have no: "starts_with ''SET '' c = False" "starts_with ''USE '' c = False"
    by (auto simp: starts_with_iff)
  show ?thesis
    unfolding handle_builtin_query_def builtin_answer_def Let_def st prod.case command_text_def [symmetric] c_def [symmetric]
    using t by (simp only: no if_False, elim disjE) (simp_all only: if_True if_cancel simp_thms and_then_simps)
qed

definition server_functions :: "string list" where
  "server_functions = [''DATABASE()'', ''SCHEMA()'', ''CONNECTION_ID()'', ''USER()'', ''VERSION()'']"

text \<open>
  The statements that are the session's to answer: no \<open>SET\<close>, \<open>USE\<close> or transaction command, no name of a
  server function in it, a \<open>SHOW\<close> of neither variables, status, warnings nor errors, and a \<open>SELECT\<close> without
  variables that has a \<open>FROM\<close> or is not a list of literals, as \<open>handle_static_select\<close> reads one.
\<close>

definition session_answers :: "runtime \<Rightarrow> string \<Rightarrow> bool" where
  "session_answers R query \<longleftrightarrow>
     (let c = command_text R query in
      \<not> starts_with ''SET '' c \<and> \<not> starts_with ''USE '' c \<and> \<not> is_transaction_command c \<and>
      (\<forall>f \<in> set server_functions. \<not> contains_sub f c) \<and>
      (starts_with ''SHOW'' c \<longrightarrow>
         (\<forall>w \<in> {''VARIABLES'', ''STATUS''}. \<not> contains_sub w c) \<and>
         (\<forall>w \<in> {''SHOW WARNINGS'', ''SHOW ERRORS''}. \<not> starts_with w c)) \<and>
      (starts_with ''SELECT'' c \<longrightarrow> \<not> contains_sub ''@@'' c) \<and>
      (starts_with ''SELECT '' c \<longrightarrow>
         contains_sub ''FROM'' c \<or> handle_static_select R (trim (strip_c_comments query)) = Inr None))"

lemma contains_sub_mono: "contains_sub p q \<Longrightarrow> contains_sub q s \<Longrightarrow> contains_sub p s"
  unfolding contains_sub_iff by (metis append.assoc)

text \<open>White space around a text does not hold a pattern that has none.\<close>

lemma contains_sub_trim_start:
  assumes "contains_sub p s" "\<forall>c \<in> set p. \<not> is_whitespace c" "p \<noteq> []"
  shows "contains_sub p (dropWhile is_whitespace s)"
proof -
  from assms(1) obtain a b where s: "s = a @ p @ b" by (auto simp: contains_sub_iff)
  obtain x xs where p: "p = x # xs" using assms(3) by (cases p) auto
  have "dropWhile is_whitespace s = dropWhile is_whitespace a @ p @ b"
    unfolding s using assms(2) by (induction a) (auto simp: p)
  then show ?thesis by (auto simp: contains_sub_iff)
qed

lemma contains_sub_rev: "contains_sub (rev p) (rev s) \<longleftrightarrow> contains_sub p s"
proof -
  have "contains_sub p s \<Longrightarrow> contains_sub (rev p) (rev s)" for p s :: string
    by (metis append.assoc contains_sub_iff rev_append)
  from this [of p s] this [of "rev p" "rev s"] show ?thesis by auto
qed

lemma contains_sub_trim:
  assumes "\<forall>c \<in> set p. \<not> is_whitespace c" "p \<noteq> []"
  shows "contains_sub p (trim s) \<longleftrightarrow> contains_sub p s"
proof
  show "contains_sub p (trim s) \<Longrightarrow> contains_sub p s"
  proof -
    assume c: "contains_sub p (trim s)"
    obtain a where a: "s = a @ trim_start is_whitespace s" unfolding trim_start_def by (metis takeWhile_dropWhile_id)
    obtain b where b: "trim_start is_whitespace s = trim s @ b"
      unfolding trim_matches_def trim_end_def by (metis rev_append rev_rev_ident takeWhile_dropWhile_id)
    have "contains_sub (trim s) s" unfolding contains_sub_iff using a b by metis
    with c show "contains_sub p s" by (rule contains_sub_mono)
  qed
  assume "contains_sub p s"
  then have "contains_sub p (trim_start is_whitespace s)"
    using contains_sub_trim_start [OF _ assms] by (simp add: trim_start_def)
  then have "contains_sub (rev p) (dropWhile is_whitespace (rev (trim_start is_whitespace s)))"
    using assms by (intro contains_sub_trim_start) (simp_all add: contains_sub_rev)
  then show "contains_sub p (trim s)"
    unfolding trim_matches_def trim_end_def using contains_sub_rev [of p "rev (dropWhile is_whitespace (rev (trim_start is_whitespace s)))"] by simp
qed

lemma passed_to_session:
  assumes "session_answers R query"
  shows "handle_builtin_query R query st = Inr (st, None)"
proof -
  have "''CURRENT_USER()'' = ''CURRENT_'' @ ''USER()'' @ []" by simp
  then have u: "contains_sub ''USER()'' ''CURRENT_USER()''" unfolding contains_sub_iff by blast
  obtain vs info where st: "st = (vs, info)" by (cases st)
  define c where "c = command_text R query"
  define sql where "sql = trim (strip_c_comments query)"
  have at: "contains_sub ''@@'' (to_uppercase R sql) = contains_sub ''@@'' c"
    unfolding c_def command_text_def sql_def by (rule contains_sub_trim [symmetric]) (simp_all add: is_whitespace_def)
  have answers: "session_answers R query" by (rule assms)
  have no: "starts_with ''SET '' c = False" "starts_with ''USE '' c = False" "(c = ''BEGIN'') = False"
    "starts_with ''START TRANSACTION'' c = False" "(c = ''COMMIT'') = False" "(c = ''ROLLBACK'') = False"
    "(starts_with ''SHOW'' c \<and> contains_sub ''VARIABLES'' c) = False" "(starts_with ''SHOW'' c \<and> contains_sub ''STATUS'' c) = False"
    "(starts_with ''SELECT'' c \<and> contains_sub ''@@'' c) = False" "contains_sub ''DATABASE()'' c = False"
    "contains_sub ''SCHEMA()'' c = False" "contains_sub ''CONNECTION_ID()'' c = False" "contains_sub ''USER()'' c = False"
    "contains_sub ''VERSION()'' c = False"
    using answers by (auto simp: session_answers_def server_functions_def is_transaction_command_def Let_def c_def [symmetric])
  have only_show: "starts_with ''SHOW WARNINGS'' c \<Longrightarrow> starts_with ''SHOW'' c" "starts_with ''SHOW ERRORS'' c \<Longrightarrow> starts_with ''SHOW'' c"
    by (auto simp: starts_with_iff)
  have "contains_sub ''CURRENT_USER()'' c = False" using no contains_sub_mono [OF u] by blast
  moreover have "starts_with ''SHOW WARNINGS'' c = False" "starts_with ''SHOW ERRORS'' c = False"
    using only_show answers unfolding session_answers_def Let_def c_def [symmetric] by blast+
  ultimately have more: "contains_sub ''CURRENT_USER()'' c = False" "starts_with ''SHOW WARNINGS'' c = False"
    "starts_with ''SHOW ERRORS'' c = False" by blast+
  have static: "(if starts_with ''SELECT '' c \<and> \<not> contains_sub ''FROM'' c then handle_static_select R sql else Inr None) = Inr None"
    using answers by (auto simp: session_answers_def Let_def c_def [symmetric] sql_def [symmetric])
  show ?thesis
    unfolding handle_builtin_query_def builtin_answer_def Let_def st prod.case sql_def [symmetric]
    unfolding command_text_def [of R query, folded sql_def, symmetric] c_def [symmetric] at
    by (simp only: no more if_False simp_thms and_then_simps option.case static)
qed

text \<open>The server's own answers change variables only by \<open>SET\<close>, and never the client's name.\<close>

lemma run_assignments_ok: "variables_ok vs \<Longrightarrow> run_assignments as vs = Inr vs' \<Longrightarrow> variables_ok vs'"
  by (induction as vs rule: run_assignments.induct)
    (auto simp: and_then_Inr variables_ok_set split: option.splits)

lemma set_names_ok: "variables_ok vs \<Longrightarrow> set_names sql upper body vs = Inr vs' \<Longrightarrow> variables_ok vs'"
  by (auto simp: set_names_def Let_def and_then_Inr variables_ok_set split: if_splits option.splits)

lemma set_charset_ok: "variables_ok vs \<Longrightarrow> set_charset long_form body vs = Inr vs' \<Longrightarrow> variables_ok vs'"
  by (auto simp: set_charset_def Let_def and_then_Inr variables_ok_set)

lemma handle_set_statement_ok: "variables_ok vs \<Longrightarrow> handle_set_statement R sql vs = Inr vs' \<Longrightarrow> variables_ok vs'"
  by (auto simp: handle_set_statement_def parse_set_assignments_def Let_def and_then_Inr
      dest: set_names_ok set_charset_ok run_assignments_ok split: if_splits)

lemma builtin_query_keeps:
  assumes "handle_builtin_query R query (vs, info) = Inr ((vs', info'), r)"
  shows "(vs' = vs \<or> (\<exists>sql. handle_set_statement R sql vs = Inr vs')) \<and>
    ci_username info' = ci_username info \<and> ci_connection_id info' = ci_connection_id info"
  using assms by (auto simp: handle_builtin_query_def Let_def and_then_Inr split: if_splits)

lemma builtin_query_ok:
  "variables_ok vs \<Longrightarrow> handle_builtin_query R query (vs, info) = Inr ((vs', info'), r) \<Longrightarrow> variables_ok vs'"
  using builtin_query_keeps [of R query vs info vs' info' r] handle_set_statement_ok by blast

text \<open>
  The limits of the texts the server reads: an operator between two literals is taken for one literal,
  a lone quote panics, and a comma inside a quoted value ends the assignment.
\<close>

lemma static_select_operator:
  "handle_static_select sample_runtime (''SELECT '' @ [squote] @ ''a'' @ [squote] @ '' || '' @ [squote] @ ''b'' @ [squote]) =
     Inr (Some (with_rows
       [text_column ([squote] @ ''a'' @ [squote] @ '' || '' @ [squote] @ ''b'' @ [squote])]
       [[Some (''a'' @ [squote] @ '' || '' @ [squote] @ ''b'')]]))"
  by code_simp

lemma lone_quote_panics:
  "handle_static_select sample_runtime (''SELECT '' @ [squote]) = panic"
  "handle_set_statement sample_runtime (''SET a='' @ [squote]) sample_variables = panic"
  by code_simp+

lemma function_name_in_text_answered:
  "\<exists>rs. handle_builtin_query sample_runtime (''DELETE FROM t WHERE v = '' @ [squote] @ ''version()'' @ [squote])
     (sample_variables, \<lparr>ci_connection_id = 1, ci_username = ''u'', ci_database = None, ci_connect_attrs = []\<rparr>) =
     Inr ((sample_variables, \<lparr>ci_connection_id = 1, ci_username = ''u'', ci_database = None, ci_connect_attrs = []\<rparr>), Some rs) \<and>
     rs_rows rs = [[Some ''8.0.0'']]"
proof -
  have "handle_builtin_query sample_runtime (''DELETE FROM t WHERE v = '' @ [squote] @ ''version()'' @ [squote])
     (sample_variables, \<lparr>ci_connection_id = 1, ci_username = ''u'', ci_database = None, ci_connect_attrs = []\<rparr>) =
     Inr ((sample_variables, \<lparr>ci_connection_id = 1, ci_username = ''u'', ci_database = None, ci_connect_attrs = []\<rparr>),
       Some \<lparr>rs_columns = [text_column ''VERSION()''], rs_rows = [[Some ''8.0.0'']], rs_last_insert_id = None\<rparr>)"
    by code_simp
  then show ?thesis by simp
qed

lemma set_splits_quoted_value:
  "(case handle_set_statement sample_runtime (''SET sql_mode='' @ [squote] @ ''A,B'' @ [squote]) sample_variables of
      Inl f \<Rightarrow> None | Inr vs \<Rightarrow> var_get vs ''sql_mode'') = Some (SvString ([squote] @ ''A''))"
  by code_simp

end
