(* ===== verification/Mysql_Login.thy ===== *)
theory Mysql_Login
  imports Mysql_Builtins "HOL-Library.AList"
begin

text \<open>
  A MySQL connection and its handshake: the state of \<open>Connection\<close>, the handshake response, the
  \<open>mysql_native_password\<close> check of \<open>protocol/auth.rs\<close> and \<open>identity.rs\<close>, and \<open>connection_phase\<close> of
  \<open>connection.rs\<close>. The hash SHA-1 is a parameter.
\<close>

section \<open>The connection\<close>

record 'db my_connection =
  mc_session :: "'db session"
  mc_variables :: variables
  mc_info :: connection_info
  mc_prepared_stmts :: "32 word \<rightharpoonup> prepared"
  mc_next_stmt_id :: "32 word"
  mc_capabilities :: "32 word"

definition my_connection_new :: "'db session \<Rightarrow> var_map \<Rightarrow> 32 word \<Rightarrow> 'db my_connection" where
  "my_connection_new session globals n =
     \<lparr>mc_session = session,
      mc_variables = \<lparr>sv_globals = globals, sv_overrides = []\<rparr>,
      mc_info = \<lparr>ci_connection_id = n, ci_username = [], ci_database = None, ci_connect_attrs = []\<rparr>,
      mc_prepared_stmts = Map.empty, mc_next_stmt_id = 1, mc_capabilities = 0\<rparr>"

definition server_capabilities :: "32 word" where
  "server_capabilities = of_nat (sum_list (map ((^) 2) [0, 1, 2, 3, 9, 13, 15, 16, 17, 19, 20, 21]))"

definition deprecates_eof :: "'db my_connection \<Rightarrow> bool" where
  "deprecates_eof c \<longleftrightarrow> bit (mc_capabilities c) 24"

section \<open>Passwords\<close>

type_synonym hash = "bytes \<Rightarrow> bytes"

definition auth_plugin_name :: string where "auth_plugin_name = ''mysql_native_password''"

definition compute_auth_response :: "hash \<Rightarrow> bytes \<Rightarrow> bytes \<Rightarrow> bytes" where
  "compute_auth_response sha1 password scramble =
     (if password = [] then []
      else
        let stage1 = sha1 password; stage2 = sha1 stage1; hash_stage = sha1 (scramble @ stage2) in
        map2 (\<lambda>a b. xor a b) stage1 hash_stage)"

definition verify_auth_response :: "hash \<Rightarrow> bytes \<Rightarrow> bytes \<Rightarrow> bytes \<Rightarrow> bool" where
  "verify_auth_response sha1 password scramble client_response \<longleftrightarrow>
     compute_auth_response sha1 password scramble = client_response"

datatype auth_result = AuthSuccess | AuthDenied string

text \<open>
  The providers the proxy installs (\<open>my_identity\<close>): one user with a password, or everybody. \<open>get_user\<close>
  gives the user's name and password, if any.
\<close>

type_synonym identity = "(string \<times> string) option"

definition get_user :: "identity \<Rightarrow> string \<Rightarrow> (string \<times> string option) option" where
  "get_user identity username =
     (case identity of
        None \<Rightarrow> Some (username, None)
      | Some (name, password) \<Rightarrow> if name = username then Some (name, Some password) else None)"

definition authenticate :: "hash \<Rightarrow> identity \<Rightarrow> string \<times> string option \<Rightarrow> bytes \<Rightarrow> bytes \<Rightarrow> auth_result" where
  "authenticate sha1 identity user scramble client_response =
     (if identity = None then AuthSuccess
      else
        case snd user of
          None \<Rightarrow>
            if client_response = [] then AuthSuccess else AuthDenied ''unexpected auth data for passwordless user''
        | Some pass \<Rightarrow>
            if verify_auth_response sha1 (utf8 pass) scramble client_response then AuthSuccess
            else AuthDenied (''Access denied for user '' @ [squote] @ fst user @ [squote]))"

text \<open>The check of a name and a response, as the handshake and \<open>COM_CHANGE_USER\<close> make it.\<close>

definition check_login :: "hash \<Rightarrow> identity \<Rightarrow> bytes \<Rightarrow> string \<Rightarrow> bytes \<Rightarrow> auth_result" where
  "check_login sha1 identity scramble username response =
     (case get_user identity username of
        None \<Rightarrow> AuthDenied (''Access denied for user '' @ [squote] @ username @ [squote])
      | Some user \<Rightarrow> authenticate sha1 identity user scramble response)"

section \<open>The handshake response\<close>

record handshake_response =
  hr_capabilities :: "32 word"
  hr_username :: string
  hr_auth_response :: bytes
  hr_database :: "string option"
  hr_connect_attrs :: "(string \<times> string) list"
  hr_plugin :: "string option"

text \<open>The bytes up to a zero byte and those after it; without one, all bytes and none.\<close>

definition until_nul :: "bytes \<Rightarrow> bytes \<times> bytes" where
  "until_nul b = (takeWhile (\<lambda>x. x \<noteq> 0) b, tl (dropWhile (\<lambda>x. x \<noteq> 0) b))"

text \<open>A length byte and so many bytes; a length beyond the end gives none, and the bytes stay.\<close>

definition counted_bytes :: "bytes \<Rightarrow> bytes \<times> bytes" where
  "counted_bytes b =
     (case b of
        [] \<Rightarrow> ([], [])
      | n # bs \<Rightarrow> if unat n \<le> length bs then (take (unat n) bs, drop (unat n) bs) else ([], bs))"

text \<open>
  The attributes: keys and values until so many bytes are counted, the buffer ends or one is cut short. A
  length prefix is counted as one byte, whatever its size.
\<close>

lemma read_lenenc_str_shrinks: "read_lenenc_str s = Some (v, rest) \<Longrightarrow> length rest < length s"
  by (cases s) (auto simp: read_lenenc_str_def read_le_def split: sum.splits if_splits)

function read_attrs ::
  "runtime \<Rightarrow> nat \<Rightarrow> nat \<Rightarrow> bytes \<Rightarrow> (string \<times> string) list \<Rightarrow> (string \<times> string) list" where
  "read_attrs R total_len consumed buf attrs =
     (if consumed < total_len \<and> buf \<noteq> [] then
        (case read_lenenc_str buf of
           None \<Rightarrow> attrs
         | Some (key, rest) \<Rightarrow>
             (case read_lenenc_str rest of
                None \<Rightarrow> attrs
              | Some (val, rest') \<Rightarrow>
                  read_attrs R total_len (consumed + (length key + length val + 2)) rest'
                    (AList.update (utf8_lossy R key) (utf8_lossy R val) attrs)))
      else attrs)"
  by pat_completeness auto

termination
  by (relation "measure (\<lambda>(R, total_len, consumed, buf, attrs). length buf)")
    (auto dest!: read_lenenc_str_shrinks)

declare read_attrs.simps [simp del]

definition parse_connect_attrs :: "runtime \<Rightarrow> bytes \<Rightarrow> (string \<times> string) list" where
  "parse_connect_attrs R data =
     (if data = [] then []
      else case read_lenenc_int data of
        Inl f \<Rightarrow> []
      | Inr (total_len, buf) \<Rightarrow> read_attrs R total_len 0 buf [])"

definition parse_handshake_response :: "runtime \<Rightarrow> bytes \<Rightarrow> handshake_response mres" where
  "parse_handshake_response R payload =
     (if length payload < 32 then Inl (Fails (MProtocol ''handshake response too short''))
      else
        let caps = (of_nat (of_le (take 4 payload)) :: 32 word); after_header = drop 32 payload in
        if 0 \<notin> set after_header then Inl (Fails (MProtocol ''missing null terminator in username''))
        else
          let (username, rest1) = until_nul after_header;
              (auth_response, rest2) = (if bit caps 21 \<or> bit caps 15 then counted_bytes rest1 else until_nul rest1);
              (database, rest3) =
                (if bit caps 3 \<and> rest2 \<noteq> [] then
                   (let (db, r) = until_nul rest2; s = utf8_lossy R db in (if s = [] then None else Some s, r))
                 else (None, rest2));
              (plugin, rest4) =
                (if bit caps 19 \<and> rest3 \<noteq> [] then
                   (let (name, r) = until_nul rest3 in (Some (utf8_lossy R name), r))
                 else (None, rest3));
              attrs = (if bit caps 20 \<and> rest4 \<noteq> [] then parse_connect_attrs R rest4 else []) in
          Inr \<lparr>hr_capabilities = caps, hr_username = utf8_lossy R username, hr_auth_response = auth_response,
               hr_database = database, hr_connect_attrs = attrs, hr_plugin = plugin\<rparr>)"

definition handshake_payload :: "string \<Rightarrow> 32 word \<Rightarrow> bytes \<Rightarrow> bytes" where
  "handshake_payload version connection_id scramble =
     [10] @ utf8 version @ [0] @ le_bytes 4 (unat connection_id) @ take 8 scramble @ [0] @
     le_bytes 2 (unat server_capabilities mod 65536) @ [0x2d] @ le_bytes 2 2 @
     le_bytes 2 (unat server_capabilities div 65536) @ [21] @ replicate 10 0 @ drop 8 scramble @ [0] @
     utf8 auth_plugin_name @ [0]"

definition auth_switch_payload :: "bytes \<Rightarrow> bytes" where
  "auth_switch_payload scramble = [0xFE] @ utf8 auth_plugin_name @ [0] @ scramble @ [0]"

section \<open>The handshake\<close>

text \<open>
  The client's end of what the server writes: how many packets it still takes, and the error of the writes
  after them. A client that reads everything is a sink that takes more packets than are written.
\<close>

record sink =
  sk_takes :: nat
  sk_error :: string

definition after_packets :: "nat \<Rightarrow> sink \<Rightarrow> sink" where
  "after_packets k w = w\<lparr>sk_takes := sk_takes w - k\<rparr>"

definition io_failure :: "sink \<Rightarrow> mysql_fault" where
  "io_failure w = Fails (MIo (sk_error w))"

lemma after_packets_simps [simp]: "sk_takes (after_packets k w) = sk_takes w - k" "sk_error (after_packets k w) = sk_error w" "after_packets 0 w = w"
  by (simp_all add: after_packets_def)

text \<open>
  The response the client is judged by: the one of its handshake, or, when its plugin is another, the one
  to a switch request; with what was written, the next sequence number, the sink and the rest of the stream.
\<close>

definition auth_exchange ::
  "sink \<Rightarrow> bytes \<Rightarrow> 8 word \<Rightarrow> handshake_response \<Rightarrow> bytes \<Rightarrow> bytes \<times> (bytes \<times> 8 word \<times> sink \<times> bytes) mres" where
  "auth_exchange w scramble seq hs stream =
     (if hr_plugin hs \<noteq> Some auth_plugin_name then
        if sk_takes w = 0 then ([], Inl (io_failure w))
        else
          (let out = fst (write_packet seq (auth_switch_payload scramble)) in
           case read_packet stream of
             Inl f \<Rightarrow> (out, Inl f)
           | Inr (p, rest) \<Rightarrow> (out, Inr (pk_payload p, pk_sequence_id p + 1, after_packets 1 w, rest)))
      else ([], Inr (hr_auth_response hs, seq, w, stream)))"

text \<open>What the connection keeps of the response, before anybody has checked it.\<close>

definition record_handshake :: "handshake_response \<Rightarrow> 'db my_connection \<Rightarrow> 'db my_connection" where
  "record_handshake hs c =
     c\<lparr>mc_info := (mc_info c)\<lparr>ci_username := hr_username hs, ci_database := hr_database hs,
         ci_connect_attrs := hr_connect_attrs hs\<rparr>,
       mc_capabilities := and (hr_capabilities hs) server_capabilities,
       mc_variables := var_set ''external_user'' (SvString (hr_username hs)) (mc_variables c)\<rparr>"

text \<open>The connection afterwards, what is written, and the sink and the stream left or the error it ends with.\<close>

definition connection_phase ::
  "sink \<Rightarrow> runtime \<Rightarrow> hash \<Rightarrow> identity \<Rightarrow> bytes \<Rightarrow> 'db my_connection \<Rightarrow> bytes \<Rightarrow>
   'db my_connection \<times> bytes \<times> (sink \<times> bytes) mres" where
  "connection_phase w R sha1 identity scramble c stream =
     (let version = (case Option.bind (var_get (mc_variables c) ''version'') to_mysql_string of
                       Some v \<Rightarrow> v | None \<Rightarrow> ''8.0.0-mysql-mimic'');
          greeting = fst (write_packet 0 (handshake_payload version (ci_connection_id (mc_info c)) scramble)) in
      if sk_takes w = 0 then (c, [], Inl (io_failure w))
      else case read_packet stream of
        Inl f \<Rightarrow> (c, greeting, Inl f)
      | Inr (p, rest) \<Rightarrow>
          (case parse_handshake_response R (pk_payload p) of
             Inl f \<Rightarrow> (c, greeting, Inl f)
           | Inr hs \<Rightarrow>
               (let c1 = record_handshake hs c in
                case auth_exchange (after_packets 1 w) scramble (pk_sequence_id p + 1) hs rest of
                  (out, Inl f) \<Rightarrow> (c1, greeting @ out, Inl f)
                | (out, Inr (response, seq, w1, rest1)) \<Rightarrow>
                    if sk_takes w1 = 0 then (c1, greeting @ out, Inl (io_failure w))
                    else (case check_login sha1 identity scramble (hr_username hs) response of
                       AuthDenied msg \<Rightarrow>
                         (c1, greeting @ out @ fst (write_packet seq (build_err_packet 1045 ''28000'' msg)),
                          Inl (Fails (MAuth msg)))
                     | AuthSuccess \<Rightarrow>
                         (c1, greeting @ out @ fst (write_packet seq (build_ok_packet 0 0)), Inr (after_packets 1 w1, rest1))))))"

section \<open>Who gets in\<close>

lemma until_nul_written: "0 \<notin> set b \<Longrightarrow> until_nul (b @ 0 # rest) = (b, rest)"
  unfolding until_nul_def by (induction b) auto

lemma utf8_no_nul: "nul \<notin> set s \<Longrightarrow> 0 \<notin> set (utf8 s)"
proof (induction s)
  case (Cons c s)
  have byte: "(of_nat n :: 8 word) = 0 \<Longrightarrow> n < 256 \<Longrightarrow> n = 0" for n
    by (simp add: word_unat_eq_iff unat_of_nat)
  have less: "(code_of c :: nat) < 256" by simp
  then have "(code_of c :: nat) < 64 * 64" by linarith
  then have "(code_of c :: nat) div 64 < 64" by (rule less_mult_imp_div_less)
  moreover have "(code_of c :: nat) mod 64 < 128" by (rule less_trans [of _ 64]) simp_all
  moreover note less
  moreover have "(code_of c :: nat) \<noteq> 0"
  proof
    assume "(code_of c :: nat) = 0"
    then have "char_of (code_of c :: nat) = (char_of (0 :: nat) :: char)" by simp
    moreover have "char_of (0 :: nat) = nul" by code_simp
    ultimately have "c = nul" by simp
    with Cons.prems show False by simp
  qed
  ultimately have "0 \<notin> set (utf8_char c)"
    using byte [of "code_of c"] byte [of "192 + code_of c div 64"] byte [of "128 + code_of c mod 64"]
    by (auto simp: utf8_char_def Let_def)
  with Cons show ?case by (simp add: utf8_def)
qed (simp add: utf8_def)

text \<open>The attributes as a client writes them, and what is read of them: the last value of each key.\<close>

definition attr_bytes :: "(string \<times> string) list \<Rightarrow> bytes" where
  "attr_bytes attrs = concat (map (\<lambda>(k, v). write_lenenc_str (utf8 k) @ write_lenenc_str (utf8 v)) attrs)"

definition client_attrs :: "(string \<times> string) list \<Rightarrow> bytes" where
  "client_attrs attrs = write_lenenc_str (attr_bytes attrs)"

definition attrs_ok :: "runtime \<Rightarrow> (string \<times> string) list \<Rightarrow> bool" where
  "attrs_ok R attrs \<longleftrightarrow> length (attr_bytes attrs) < 2 ^ 64 \<and>
     (\<forall>(k, v) \<in> set attrs. utf8_lossy R (utf8 k) = k \<and> utf8_lossy R (utf8 v) = v)"

lemma write_lenenc_str_longer: "length s < length (write_lenenc_str s)"
  by (simp add: write_lenenc_str_def write_lenenc_int_def Let_def)

lemma read_attrs_written:
  assumes "length (attr_bytes attrs) + consumed \<le> total_len" "total_len < 2 ^ 64"
    "\<forall>(k, v) \<in> set attrs. utf8_lossy R (utf8 k) = k \<and> utf8_lossy R (utf8 v) = v"
  shows "map_of (read_attrs R total_len consumed (attr_bytes attrs) m) = map_of m ++ map_of (rev attrs)"
  using assms(1,3)
proof (induction attrs arbitrary: consumed m)
  case Nil
  then show ?case by (simp add: read_attrs.simps attr_bytes_def)
next
  case (Cons kv attrs)
  obtain k v where kv: "kv = (k, v)" by (cases kv)
  note longer = write_lenenc_str_longer [of "utf8 k"] write_lenenc_str_longer [of "utf8 v"]
  have bytes: "attr_bytes (kv # attrs) = write_lenenc_str (utf8 k) @ write_lenenc_str (utf8 v) @ attr_bytes attrs"
    by (simp add: kv attr_bytes_def)
  with Cons.prems(1) longer have fits: "length (attr_bytes attrs) + (consumed + (length (utf8 k) + length (utf8 v) + 2)) \<le> total_len"
    "consumed < total_len" "length (utf8 k) < 2 ^ 64" "length (utf8 v) < 2 ^ 64"
    using assms(2) by simp_all
  have "read_attrs R total_len consumed (attr_bytes (kv # attrs)) m =
      read_attrs R total_len (consumed + (length (utf8 k) + length (utf8 v) + 2)) (attr_bytes attrs) (AList.update k v m)"
    using fits Cons.prems(2) kv
    by (subst read_attrs.simps) (simp add: bytes [unfolded kv] lenenc_str_roundtrip write_lenenc_str_hd)
  with Cons.IH [OF fits(1), of "AList.update k v m"] Cons.prems(2) show ?case
    by (simp add: kv update_conv' map_add_def fun_eq_iff split: option.splits)
qed

lemma connect_attrs_arrive:
  assumes "attrs_ok R attrs"
  shows "map_of (parse_connect_attrs R (client_attrs attrs)) = map_of (rev attrs)"
proof -
  have "client_attrs attrs \<noteq> []" by (simp add: client_attrs_def write_lenenc_str_hd)
  moreover have "read_lenenc_int (client_attrs attrs) = Inr (length (attr_bytes attrs), attr_bytes attrs)"
    using assms by (simp add: client_attrs_def write_lenenc_str_def lenenc_int_roundtrip unat_of_nat attrs_ok_def)
  ultimately show ?thesis
    using assms read_attrs_written [of attrs 0 "length (attr_bytes attrs)" R "[]"]
    by (simp add: parse_connect_attrs_def attrs_ok_def)
qed

text \<open>A client's handshake response, and what it stands for.\<close>

definition client_handshake ::
  "32 word \<Rightarrow> string \<Rightarrow> bytes \<Rightarrow> string option \<Rightarrow> string \<Rightarrow> (string \<times> string) list \<Rightarrow> bytes" where
  "client_handshake caps username response database plugin attrs =
     le_bytes 4 (unat caps) @ le_bytes 4 0x1000000 @ [0x2d] @ replicate 23 0 @ utf8 username @ [0] @
     [of_nat (length response)] @ response @
     (case database of None \<Rightarrow> [] | Some db \<Rightarrow> utf8 db @ [0]) @ utf8 plugin @ [0] @
     (if bit caps 20 then client_attrs attrs else [])"

text \<open>The flags a client sets with these fields, and texts that arrive as they are.\<close>

definition handshake_ok ::
  "runtime \<Rightarrow> 32 word \<Rightarrow> string \<Rightarrow> bytes \<Rightarrow> string option \<Rightarrow> string \<Rightarrow> (string \<times> string) list \<Rightarrow> bool" where
  "handshake_ok R caps username response database plugin attrs \<longleftrightarrow>
     bit caps 21 \<and> bit caps 19 \<and> (bit caps 3 \<longleftrightarrow> database \<noteq> None) \<and> length response < 256 \<and> database \<noteq> Some [] \<and>
     (\<forall>s \<in> {username, plugin} \<union> set_option database. nul \<notin> set s \<and> utf8_lossy R (utf8 s) = s) \<and>
     attrs_ok R attrs \<and> (bit caps 20 \<or> attrs = [])"

lemma handshake_read:
  assumes "handshake_ok R caps username response database plugin attrs"
  shows "\<exists>read. parse_handshake_response R (client_handshake caps username response database plugin attrs) =
    Inr \<lparr>hr_capabilities = caps, hr_username = username, hr_auth_response = response, hr_database = database,
         hr_connect_attrs = read, hr_plugin = Some plugin\<rparr> \<and> map_of read = map_of (rev attrs)"
proof -
  define head where "head = le_bytes 4 (unat caps) @ le_bytes 4 0x1000000 @ [0x2d] @ replicate 23 0"
  define final where "final = (if bit caps 20 then client_attrs attrs else [])"
  define tail where "tail = (case database of None \<Rightarrow> [] | Some db \<Rightarrow> utf8 db @ [0]) @ utf8 plugin @ 0 # final"
  have payload: "client_handshake caps username response database plugin attrs =
      head @ utf8 username @ 0 # of_nat (length response) # response @ tail"
    by (simp add: client_handshake_def head_def tail_def final_def)
  have head: "length head = 32" "take 4 head = le_bytes 4 (unat caps)" by (simp_all add: head_def)
  have "unat caps < 256 ^ 4" using unat_bound [of caps] by simp
  then have caps: "of_nat (of_le (take 4 (head @ rest))) = caps" for rest
    by (simp add: head of_le_bytes_small)
  have "unat (of_nat (length response) :: 8 word) = length response"
    using assms by (simp add: handshake_ok_def unat_of_nat)
  then have counted: "counted_bytes (of_nat (length response) # response @ tail) = (response, tail)"
    by (simp add: counted_bytes_def)
  have field: "until_nul (utf8 s @ 0 # rest) = (utf8 s, rest)" "utf8_lossy R (utf8 s) = s"
    if "s \<in> {username, plugin} \<union> set_option database" for s rest
    using assms that until_nul_written [OF utf8_no_nul] by (auto simp: handshake_ok_def)
  have db: "(if bit caps 3 \<and> tail \<noteq> [] then
        (let (db, r) = until_nul tail; s = utf8_lossy R db in (if s = [] then None else Some s, r))
      else (None, tail)) = (database, utf8 plugin @ 0 # final)"
  proof (cases database)
    case None
    with assms show ?thesis by (simp add: tail_def handshake_ok_def)
  next
    case (Some d)
    with assms field(1) [of d "utf8 plugin @ 0 # final"] field(2) [of d] show ?thesis
      by (simp add: tail_def handshake_ok_def)
  qed
  have read: "map_of (if bit caps 20 \<and> final \<noteq> [] then parse_connect_attrs R final else []) = map_of (rev attrs)"
    using assms connect_attrs_arrive [of R attrs]
    by (auto simp: handshake_ok_def final_def client_attrs_def write_lenenc_str_hd)
  show ?thesis
    unfolding parse_handshake_response_def payload
    using read head(1) caps counted db field(1) [of username "of_nat (length response) # response @ tail"] field(2) [of username]
      field(1) [of plugin final] field(2) [of plugin] assms
    by (simp add: Let_def handshake_ok_def)
qed

lemma read_small_packet:
  assumes "payload \<noteq> []" "length payload < max_packet"
  shows "read_packet (fst (write_packet seq payload) @ rest) = Inr (\<lparr>pk_sequence_id = seq, pk_payload = payload\<rparr>, rest)"
proof -
  have "packet_chunks payload = [payload]"
    using assms by (simp add: packet_chunks_def chunks.simps)
  moreover have "length payload < 2 ^ 24" using assms(2) by (simp add: max_packet_def)
  note read_packet_written [OF this, of seq rest]
  ultimately show ?thesis by (simp add: write_packet_def)
qed

lemma server_capabilities_eof: "\<not> bit server_capabilities 24"
  by (simp add: server_capabilities_def bit_iff_odd)

lemma login_accepted:
  assumes "handshake_ok R caps name (compute_auth_response sha1 (utf8 password) scramble) database auth_plugin_name attrs"
    "payload = client_handshake caps name (compute_auth_response sha1 (utf8 password) scramble) database auth_plugin_name attrs"
    "length payload < max_packet" "2 \<le> sk_takes w"
  shows "\<exists>greeting hs. connection_phase w R sha1 (Some (name, password)) scramble c
      (fst (write_packet seq payload) @ rest) =
        (record_handshake hs c, greeting @ fst (write_packet (seq + 1) (build_ok_packet 0 0)), Inr (after_packets 2 w, rest)) \<and>
      hr_username hs = name \<and> hr_database hs = database \<and> map_of (hr_connect_attrs hs) = map_of (rev attrs)"
proof -
  have "payload \<noteq> []" by (simp add: assms(2) client_handshake_def)
  note packet = read_small_packet [OF this assms(3), of seq rest]
  from handshake_read [OF assms(1)] obtain read where hs: "parse_handshake_response R payload =
      Inr \<lparr>hr_capabilities = caps, hr_username = name,
        hr_auth_response = compute_auth_response sha1 (utf8 password) scramble, hr_database = database,
        hr_connect_attrs = read, hr_plugin = Some auth_plugin_name\<rparr>" "map_of read = map_of (rev attrs)"
    by (auto simp: assms(2))
  then show ?thesis
    using assms(4)
    by (simp add: connection_phase_def Let_def packet auth_exchange_def check_login_def get_user_def authenticate_def
      verify_auth_response_def after_packets_def)
      (intro exI conjI, rule refl, simp_all)
qed

definition sample_hash :: hash where "sample_hash b = replicate 20 (of_nat (length b))"

definition sample_sink :: sink where "sample_sink = \<lparr>sk_takes = 9, sk_error = ''broken pipe''\<rparr>"

definition sample_scramble :: bytes where "sample_scramble = replicate 20 0x61"

definition sample_connection :: "nat my_connection" where
  "sample_connection = my_connection_new my_session (default_globals ''linux'' ''x86_64'') 7"

definition sample_handshake :: bytes where
  "sample_handshake = client_handshake 0x380000 ''u'' (compute_auth_response sample_hash (utf8 ''p'') sample_scramble) None auth_plugin_name [(''os'', ''Linux'')]"

lemma sample_attrs:
  "attrs_ok sample_runtime [(''os'', ''Linux'')]" "length (client_attrs [(''os'', ''Linux'')]) = 10"
proof -
  have "length (attr_bytes [(''os'', ''Linux'')]) = 9"
    "\<forall>s \<in> set [''os'', ''Linux'']. utf8_lossy sample_runtime (utf8 s) = s"
    by code_simp+
  then show "attrs_ok sample_runtime [(''os'', ''Linux'')]" by (simp add: attrs_ok_def)
  show "length (client_attrs [(''os'', ''Linux'')]) = 10" by code_simp
qed

lemma sample_handshake_ok:
  "handshake_ok sample_runtime 0x380000 ''u'' (compute_auth_response sample_hash (utf8 ''p'') sample_scramble) None auth_plugin_name [(''os'', ''Linux'')]"
  "length sample_handshake < max_packet"
proof -
  have "bit (0x380000 :: 32 word) 21" "bit (0x380000 :: 32 word) 19" "\<not> bit (0x380000 :: 32 word) 3"
    "length (compute_auth_response sample_hash (utf8 ''p'') sample_scramble) < 256"
    "\<forall>s \<in> set [''u'', auth_plugin_name]. nul \<notin> set s \<and> utf8_lossy sample_runtime (utf8 s) = s"
    "bit (0x380000 :: 32 word) 20"
    by code_simp+
  then show "handshake_ok sample_runtime 0x380000 ''u'' (compute_auth_response sample_hash (utf8 ''p'') sample_scramble) None auth_plugin_name [(''os'', ''Linux'')]"
    by (simp add: handshake_ok_def sample_attrs)
  show "length sample_handshake < max_packet"
    by (simp add: sample_handshake_def client_handshake_def auth_plugin_name_def utf8_def utf8_char_def max_packet_def
      compute_auth_response_def sample_hash_def sample_attrs)
qed

text \<open>The name and the response a client has given on a stream, in its handshake or after a switch of plugins.\<close>

definition client_answered :: "runtime \<Rightarrow> bytes \<Rightarrow> bytes \<Rightarrow> string \<Rightarrow> bytes \<Rightarrow> bool" where
  "client_answered R scramble stream name response \<longleftrightarrow>
     (\<exists>p rest0 hs w out seq w' rest. read_packet stream = Inr (p, rest0) \<and> parse_handshake_response R (pk_payload p) = Inr hs \<and>
        hr_username hs = name \<and> auth_exchange w scramble (pk_sequence_id p + 1) hs rest0 = (out, Inr (response, seq, w', rest)))"

lemma connection_phase_records:
  "fst (connection_phase w R sha1 identity scramble c stream) = c \<or>
   (\<exists>hs. fst (connection_phase w R sha1 identity scramble c stream) = record_handshake hs c)"
  by (auto simp: connection_phase_def Let_def split: sum.splits prod.splits auth_result.splits if_splits)

lemma login_needs_password:
  assumes "connection_phase w R sha1 identity scramble c stream = (c', out, Inr (w', rest))"
  shows "(\<exists>hs response. c' = record_handshake hs c \<and> client_answered R scramble stream (hr_username hs) response \<and>
      (\<forall>name password. identity = Some (name, password) \<longrightarrow>
         hr_username hs = name \<and> response = compute_auth_response sha1 (utf8 password) scramble))"
proof -
  obtain p rest0 where p: "read_packet stream = Inr (p, rest0)"
    using assms by (cases "read_packet stream") (auto simp: connection_phase_def Let_def split: if_splits)
  obtain hs where hs: "parse_handshake_response R (pk_payload p) = Inr hs"
    using assms p by (cases "parse_handshake_response R (pk_payload p)") (auto simp: connection_phase_def Let_def split: if_splits)
  obtain out1 r where ex: "auth_exchange (after_packets 1 w) scramble (pk_sequence_id p + 1) hs rest0 = (out1, r)"
    by (cases "auth_exchange (after_packets 1 w) scramble (pk_sequence_id p + 1) hs rest0")
  obtain response seq w1 rest1 where r: "r = Inr (response, seq, w1, rest1)"
    using assms p hs ex by (cases r) (auto simp: connection_phase_def Let_def split: if_splits)
  have login: "check_login sha1 identity scramble (hr_username hs) response = AuthSuccess" "c' = record_handshake hs c"
    using assms p hs ex r by (auto simp: connection_phase_def Let_def split: auth_result.splits if_splits)
  then have "hr_username hs = name \<and> response = compute_auth_response sha1 (utf8 password) scramble"
    if "identity = Some (name, password)" for name password
    using that by (auto simp: check_login_def get_user_def authenticate_def verify_auth_response_def split: if_splits)
  moreover have "client_answered R scramble stream (hr_username hs) response"
    unfolding client_answered_def using p hs ex r by blast
  ultimately show ?thesis using login(2) by blast
qed

text \<open>
  Who has the password gets in: a client that takes two packets and answers the greeting with the listener's user, the
  response its password determines and the server's plugin is sent an OK after the greeting, and
  the connection goes on with the name, the database and the attributes of the client (of each key the last
  value) and the rest of the stream.
\<close>

theorem login_with_password:
  assumes "handshake_ok R caps name (compute_auth_response sha1 (utf8 password) scramble) database auth_plugin_name attrs"
    "payload = client_handshake caps name (compute_auth_response sha1 (utf8 password) scramble) database auth_plugin_name attrs"
    "length payload < max_packet" "2 \<le> sk_takes w"
  shows "\<exists>greeting c'. connection_phase w R sha1 (Some (name, password)) scramble c
      (fst (write_packet seq payload) @ rest) =
        (c', greeting @ fst (write_packet (seq + 1) (build_ok_packet 0 0)), Inr (after_packets 2 w, rest)) \<and>
      ci_username (mc_info c') = name \<and> ci_database (mc_info c') = database \<and>
      map_of (ci_connect_attrs (mc_info c')) = map_of (rev attrs) \<and> mc_session c' = mc_session c"
proof -
  from login_accepted [OF assms, of c seq rest] obtain greeting hs where
    "connection_phase w R sha1 (Some (name, password)) scramble c (fst (write_packet seq payload) @ rest) =
        (record_handshake hs c, greeting @ fst (write_packet (seq + 1) (build_ok_packet 0 0)), Inr (after_packets 2 w, rest))"
    "hr_username hs = name" "hr_database hs = database" "map_of (hr_connect_attrs hs) = map_of (rev attrs)"
    by blast
  then show ?thesis by (intro exI [of _ greeting] exI [of _ "record_handshake hs c"]) (simp add: record_handshake_def)
qed

theorem login_with_password_witness:
  "\<exists>out c'. connection_phase sample_sink sample_runtime sample_hash (Some (''u'', ''p'')) sample_scramble sample_connection
      (fst (write_packet 1 sample_handshake)) = (c', out, Inr (after_packets 2 sample_sink, [])) \<and> ci_username (mc_info c') = ''u''"
  using login_with_password [OF sample_handshake_ok(1) sample_handshake_def sample_handshake_ok(2), of sample_sink sample_connection 1 "[]"]
  by (auto simp: sample_sink_def)

end
