(* ===== verification/Mysql_Connection.thy ===== *)
theory Mysql_Connection
  imports Mysql_Login
begin

text \<open>
  A MySQL connection after its handshake, \<open>connection.rs\<close> of the vendored crate with the proxy's session
  behind it: the commands a client sends, the prepared statements the connection keeps, and the loop over
  the packets of the stream. A command's answer is the list of payloads it writes, one packet each, with
  the sequence number counting on from the client's. The handlers are given as they run when the client
  takes their whole answer; \<open>answer_on\<close> is what a handler leaves undone when a write fails.
\<close>

section \<open>Answers\<close>

text \<open>
  The answer of a handler: the payloads written before it returned, and the error or panic it ended with.
\<close>

type_synonym 'db handled = "'db my_connection \<times> bytes list \<times> mysql_fault option"

definition error_payload :: "mysql_failure \<Rightarrow> bytes" where
  "error_payload e = build_err_packet (error_code e) (sql_state e) (error_message e)"

definition replies :: "'db my_connection \<Rightarrow> bytes list \<Rightarrow> 'db handled" where
  "replies c ps = (c, ps, None)"

definition fails :: "'db my_connection \<Rightarrow> mysql_fault \<Rightarrow> 'db handled" where
  "fails c f = (c, [], Some f)"

definition ok_payload :: bytes where "ok_payload = build_ok_packet 0 0"

section \<open>Statements\<close>

text \<open>
  One statement, as a query or out of a prepared statement: the server's own answer or the session's.
  The result is the result set, an error of the session, or what the handler ends with.
\<close>

datatype statement_answer = Answered result_set | Refused mysql_error | Aborted mysql_fault

definition run_one ::
  "runtime \<Rightarrow> 'db driver \<Rightarrow> 'x sqlparser \<Rightarrow> 'db my_connection \<Rightarrow> string \<Rightarrow> 'db my_connection \<times> statement_answer" where
  "run_one R D P c sql =
     (case handle_builtin_query R sql (mc_variables c, mc_info c) of
        Inl f \<Rightarrow> (c, Aborted f)
      | Inr ((vs, info), Some rs) \<Rightarrow> (c\<lparr>mc_variables := vs, mc_info := info\<rparr>, Answered rs)
      | Inr ((vs, info), None) \<Rightarrow>
          (case my_handle_query R D P (mc_session c) sql of
             (s, Inr rs) \<Rightarrow> (c\<lparr>mc_session := s\<rparr>, Answered rs)
           | (s, Inl (Some e)) \<Rightarrow> (c\<lparr>mc_session := s\<rparr>, Refused e)
           | (s, Inl None) \<Rightarrow> (c\<lparr>mc_session := s\<rparr>, Aborted Panics)))"

fun run_all ::
  "runtime \<Rightarrow> 'db driver \<Rightarrow> 'x sqlparser \<Rightarrow> float_parser \<Rightarrow> 'db my_connection \<Rightarrow> result_set option \<Rightarrow> string list \<Rightarrow> 'db handled" where
  "run_all R D P F c last_result [] =
     replies c (case last_result of
                  Some rs \<Rightarrow> result_payloads F (deprecates_eof c) False rs
                | None \<Rightarrow> [ok_payload])"
| "run_all R D P F c last_result (sql # sqls) =
     (if trim sql = [] then run_all R D P F c last_result sqls
      else
        case run_one R D P c (trim sql) of
          (c1, Answered rs) \<Rightarrow> run_all R D P F c1 (Some rs) sqls
        | (c1, Refused e) \<Rightarrow> replies c1 [error_payload (MServer e)]
        | (c1, Aborted f) \<Rightarrow> fails c1 f)"

definition com_query ::
  "runtime \<Rightarrow> 'db driver \<Rightarrow> 'x sqlparser \<Rightarrow> float_parser \<Rightarrow> 'db my_connection \<Rightarrow> bytes \<Rightarrow> 'db handled" where
  "com_query R D P F c args = run_all R D P F c None (mysql_split_statements (utf8_lossy R args))"

definition com_init_db :: "runtime \<Rightarrow> 'db my_connection \<Rightarrow> bytes \<Rightarrow> 'db handled" where
  "com_init_db R c args = replies (c\<lparr>mc_info := (mc_info c)\<lparr>ci_database := Some (utf8_lossy R args)\<rparr>\<rparr>) [ok_payload]"

section \<open>Prepared statements\<close>

definition com_stmt_prepare :: "runtime \<Rightarrow> 'db my_connection \<Rightarrow> bytes \<Rightarrow> 'db handled" where
  "com_stmt_prepare R c args =
     (let stmt_id = mc_next_stmt_id c; stmt = prepared_new stmt_id (utf8_lossy R args) in
      replies
        (c\<lparr>mc_next_stmt_id := stmt_id + 1, mc_prepared_stmts := (mc_prepared_stmts c)(stmt_id \<mapsto> stmt)\<rparr>)
        (build_stmt_prepare_ok stmt #
         (if 0 < ps_num_params stmt
          then replicate (ps_num_params stmt) (serialize_column (column_new ''?'' VarString)) @ [build_eof_packet]
          else [])))"

definition stmt_id_of :: "bytes \<Rightarrow> 32 word" where
  "stmt_id_of args = of_nat (of_le (take 4 args))"

definition clear_buffers :: "32 word \<Rightarrow> 'db my_connection \<Rightarrow> 'db my_connection" where
  "clear_buffers n c =
     (case mc_prepared_stmts c n of
        None \<Rightarrow> c
      | Some stmt \<Rightarrow> c\<lparr>mc_prepared_stmts := (mc_prepared_stmts c)(n \<mapsto> stmt\<lparr>ps_param_buffers := None\<rparr>)\<rparr>)"

definition com_stmt_execute ::
  "runtime \<Rightarrow> 'db driver \<Rightarrow> 'x sqlparser \<Rightarrow> float_parser \<Rightarrow> 'db my_connection \<Rightarrow> bytes \<Rightarrow> 'db handled" where
  "com_stmt_execute R D P F c args =
     (if length args < 4 then fails c (Fails (MProtocol ''COM_STMT_EXECUTE too short''))
      else
        let stmt_id = stmt_id_of args in
        case mc_prepared_stmts c stmt_id of
          None \<Rightarrow>
            fails c (Fails (MServer \<lparr>me_code = 1243, me_state = ''HY000'',
              me_message = ''Unknown statement: '' @ show_nat (unat stmt_id)\<rparr>))
        | Some stmt \<Rightarrow>
            (case and_then (parse_stmt_execute_data R args stmt) (interpolate stmt) of
               Inl f \<Rightarrow> fails c f
             | Inr sql \<Rightarrow>
                 (case run_one R D P c sql of
                    (c1, Answered rs) \<Rightarrow> replies (clear_buffers stmt_id c1) (result_payloads F (deprecates_eof c1) True rs)
                  | (c1, Refused e) \<Rightarrow> replies (clear_buffers stmt_id c1) [error_payload (MServer e)]
                  | (c1, Aborted f) \<Rightarrow> fails c1 f)))"

definition com_stmt_close :: "'db my_connection \<Rightarrow> bytes \<Rightarrow> 'db handled" where
  "com_stmt_close c args =
     (if length args < 4 then replies c []
      else replies (c\<lparr>mc_prepared_stmts := (mc_prepared_stmts c)(stmt_id_of args := None)\<rparr>) [])"

definition com_stmt_reset :: "'db my_connection \<Rightarrow> bytes \<Rightarrow> 'db handled" where
  "com_stmt_reset c args =
     (if length args < 4 then fails c (Fails (MProtocol ''COM_STMT_RESET too short''))
      else replies (clear_buffers (stmt_id_of args) c) [ok_payload])"

definition append_buffer :: "16 word \<Rightarrow> bytes \<Rightarrow> prepared \<Rightarrow> prepared" where
  "append_buffer n data stmt =
     (let m = (case ps_param_buffers stmt of Some m \<Rightarrow> m | None \<Rightarrow> Map.empty) in
      stmt\<lparr>ps_param_buffers := Some (m(n \<mapsto> (case m n of Some b \<Rightarrow> b | None \<Rightarrow> []) @ data))\<rparr>)"

definition com_stmt_send_long_data :: "'db my_connection \<Rightarrow> bytes \<Rightarrow> 'db handled" where
  "com_stmt_send_long_data c args =
     (if length args < 6 then replies c []
      else
        let stmt_id = stmt_id_of args; param_id = of_nat (of_le (take 2 (drop 4 args))) in
        case mc_prepared_stmts c stmt_id of
          None \<Rightarrow> replies c []
        | Some stmt \<Rightarrow>
            replies (c\<lparr>mc_prepared_stmts := (mc_prepared_stmts c)(stmt_id \<mapsto> append_buffer param_id (drop 6 args) stmt)\<rparr>) [])"

section \<open>The connection's state\<close>

definition com_reset_connection :: "'db my_connection \<Rightarrow> 'db handled" where
  "com_reset_connection c = replies (c\<lparr>mc_variables := reset_all (mc_variables c)\<rparr>) [ok_payload]"

definition com_change_user ::
  "runtime \<Rightarrow> hash \<Rightarrow> identity \<Rightarrow> bytes \<Rightarrow> 'db my_connection \<Rightarrow> bytes \<Rightarrow> 'db handled" where
  "com_change_user R sha1 identity scramble c args =
     (if 0 \<notin> set args then fails c (Fails (MProtocol ''missing null in COM_CHANGE_USER''))
      else
        let (name, rest) = until_nul args; username = utf8_lossy R name in
        if rest = [] then fails c (Fails (MProtocol ''COM_CHANGE_USER truncated''))
        else
          let auth_len = unat (hd rest);
              auth_response = (if auth_len \<le> length (tl rest) then take auth_len (tl rest) else []);
              rest2 = drop auth_len (tl rest);
              db = utf8_lossy R (fst (until_nul rest2));
              database = (if rest2 = [] \<or> db = [] then None else Some db) in
          case check_login sha1 identity scramble username auth_response of
            AuthSuccess \<Rightarrow>
              replies (c\<lparr>mc_info := (mc_info c)\<lparr>ci_username := username, ci_database := database\<rparr>,
                         mc_variables := reset_all (mc_variables c)\<rparr>) [ok_payload]
          | AuthDenied msg \<Rightarrow> replies c [build_err_packet 1045 ''28000'' msg])"

section \<open>Commands\<close>

text \<open>The commands by their byte; \<open>None\<close> ends the connection.\<close>

definition run_command ::
  "runtime \<Rightarrow> 'db driver \<Rightarrow> 'x sqlparser \<Rightarrow> float_parser \<Rightarrow> hash \<Rightarrow> identity \<Rightarrow> bytes \<Rightarrow>
   'db my_connection \<Rightarrow> 8 word \<Rightarrow> bytes \<Rightarrow> 'db handled option" where
  "run_command R D P F sha1 identity scramble c command args =
     (if command = 0x01 then None
      else Some (
        if command = 0x0e then replies c [ok_payload]
        else if command = 0x02 then com_init_db R c args
        else if command = 0x03 then com_query R D P F c args
        else if command = 0x04 then replies c [build_eof_packet]
        else if command = 0x16 then com_stmt_prepare R c args
        else if command = 0x17 then com_stmt_execute R D P F c args
        else if command = 0x19 then com_stmt_close c args
        else if command = 0x1a then com_stmt_reset c args
        else if command = 0x18 then com_stmt_send_long_data c args
        else if command = 0x1c then replies c [build_eof_packet]
        else if command = 0x1f then com_reset_connection c
        else if command = 0x11 then com_change_user R sha1 identity scramble c args
        else if command = 0x1b then replies c [build_eof_packet]
        else if command = 0x0d then replies c [ok_payload]
        else replies c [error_payload (MServer \<lparr>me_code = 1047, me_state = ''08S01'',
               me_message = ''Unknown command: '' @ show_nat (unat command)\<rparr>)]))"

definition answer_bytes :: "8 word \<Rightarrow> bytes list \<Rightarrow> mysql_fault option \<Rightarrow> bytes" where
  "answer_bytes seq ps fault =
     fst (write_packets seq (ps @ (case fault of Some (Fails e) \<Rightarrow> [error_payload e] | _ \<Rightarrow> [])))"

text \<open>
  A handler on a sink: at the first write that fails it returns the error, and what it does after its
  writes is not done. That is, of all commands, the insertion of a prepared statement (whose id is used up)
  and the clearing of the parameter buffers of an executed one.
\<close>

definition answer_on :: "sink \<Rightarrow> 8 word \<Rightarrow> 'db my_connection \<Rightarrow> 'db handled \<Rightarrow> 'db handled" where
  "answer_on w command c h =
     (case h of (c1, ps, fault) \<Rightarrow>
        if length ps \<le> sk_takes w then h
        else (if command = 0x16 \<or> command = 0x17 then c1\<lparr>mc_prepared_stmts := mc_prepared_stmts c\<rparr> else c1,
              take (sk_takes w) ps, Some (io_failure w)))"

definition run_command_on ::
  "sink \<Rightarrow> runtime \<Rightarrow> 'db driver \<Rightarrow> 'x sqlparser \<Rightarrow> float_parser \<Rightarrow> hash \<Rightarrow> identity \<Rightarrow> bytes \<Rightarrow>
   'db my_connection \<Rightarrow> 8 word \<Rightarrow> bytes \<Rightarrow> 'db handled option" where
  "run_command_on w R D P F sha1 identity scramble c command args =
     map_option (answer_on w command c) (run_command R D P F sha1 identity scramble c command args)"

datatype ending = Closed | Panicked

text \<open>
  The loop over the client's packets, to the end of the stream, a \<open>COM_QUIT\<close> or a panic: the connection
  afterwards, what was written, and how it ended. The error a handler returns is written when the sink
  still takes it, and the loop goes on in any case.
\<close>

function command_phase ::
  "sink \<Rightarrow> runtime \<Rightarrow> 'db driver \<Rightarrow> 'x sqlparser \<Rightarrow> float_parser \<Rightarrow> hash \<Rightarrow> identity \<Rightarrow> bytes \<Rightarrow>
   'db my_connection \<Rightarrow> bytes \<Rightarrow> 'db my_connection \<times> bytes \<times> ending" where
  "command_phase w R D P F sha1 identity scramble c stream =
     (case read_packet stream of
        Inl f \<Rightarrow> (c, [], Closed)
      | Inr (p, rest) \<Rightarrow>
          (case pk_payload p of
             [] \<Rightarrow> command_phase w R D P F sha1 identity scramble c rest
           | command # args \<Rightarrow>
               (case run_command_on w R D P F sha1 identity scramble c command args of
                  None \<Rightarrow> (c, [], Closed)
                | Some (c1, ps, fault) \<Rightarrow>
                    let told = (fault \<noteq> None \<and> length ps < sk_takes w);
                        out = answer_bytes (pk_sequence_id p + 1) ps (if told then fault else None);
                        left = after_packets (length ps + (if told then 1 else 0)) w in
                    if fault = Some Panics then (c1, out, Panicked)
                    else
                      (case command_phase left R D P F sha1 identity scramble c1 rest of
                         (c2, out2, e) \<Rightarrow> (c2, out @ out2, e)))))"
  by pat_completeness auto

termination
  by (relation "measure (\<lambda>(w, R, D, P, F, sha1, identity, scramble, c, stream). length stream)")
    (auto dest: read_packet_shorter)

declare command_phase.simps [simp del]

text \<open>\<open>Connection::run\<close>: the handshake, then the commands.\<close>

definition my_run ::
  "sink \<Rightarrow> runtime \<Rightarrow> 'db driver \<Rightarrow> 'x sqlparser \<Rightarrow> float_parser \<Rightarrow> hash \<Rightarrow> identity \<Rightarrow> bytes \<Rightarrow>
   'db my_connection \<Rightarrow> bytes \<Rightarrow> 'db my_connection \<times> bytes \<times> ending" where
  "my_run w R D P F sha1 identity scramble c stream =
     (case connection_phase w R sha1 identity scramble c stream of
        (c1, out, Inl f) \<Rightarrow> (c1, out, if f = Panics then Panicked else Closed)
      | (c1, out, Inr (w1, rest)) \<Rightarrow>
          (case command_phase w1 R D P F sha1 identity scramble c1 rest of (c2, out2, e) \<Rightarrow> (c2, out @ out2, e)))"

section \<open>What a statement can change\<close>

lemma my_handle_query_session: "fst (my_handle_query R D P s sql) = fst (run_script R D P s FrontMysql sql)"
  by (auto simp: my_handle_query_def split: prod.splits sum.splits fault.splits)

lemma run_one_keeps:
  assumes "run_one R D P c sql = (c', a)"
  shows "mc_prepared_stmts c' = mc_prepared_stmts c \<and> mc_next_stmt_id c' = mc_next_stmt_id c \<and>
    mc_capabilities c' = mc_capabilities c \<and> ci_username (mc_info c') = ci_username (mc_info c) \<and>
    (session_ok dialect tr (mc_session c) \<longrightarrow> session_ok dialect tr (mc_session c')) \<and>
    (variables_ok (mc_variables c) \<longrightarrow> variables_ok (mc_variables c'))"
proof (cases "handle_builtin_query R sql (mc_variables c, mc_info c)")
  case (Inl f)
  with assms show ?thesis by (auto simp: run_one_def)
next
  case (Inr b)
  obtain vs info r where b: "b = ((vs, info), r)" by (metis prod.collapse)
  note keeps = builtin_query_keeps [OF Inr [unfolded b]] builtin_query_ok [OF _ Inr [unfolded b]]
  show ?thesis
  proof (cases r)
    case (Some rs)
    with assms Inr b keeps show ?thesis by (auto simp: run_one_def)
  next
    case None
    obtain s x where q: "my_handle_query R D P (mc_session c) sql = (s, x)"
      by (cases "my_handle_query R D P (mc_session c) sql")
    have "c' = c\<lparr>mc_session := s\<rparr>"
      using assms Inr b None q by (auto simp: run_one_def split: sum.splits option.splits)
    moreover have "session_ok dialect tr (mc_session c) \<Longrightarrow> session_ok dialect tr s"
      using run_script_ok [of dialect tr "mc_session c" R D P FrontMysql sql] my_handle_query_session [of R D P "mc_session c" sql] q
      by simp
    ultimately show ?thesis by simp
  qed
qed

lemma run_all_keeps:
  "fst (run_all R D P F c last_result sqls) = c' \<Longrightarrow>
    mc_prepared_stmts c' = mc_prepared_stmts c \<and> mc_next_stmt_id c' = mc_next_stmt_id c \<and>
    mc_capabilities c' = mc_capabilities c \<and> ci_username (mc_info c') = ci_username (mc_info c) \<and>
    (session_ok dialect tr (mc_session c) \<longrightarrow> session_ok dialect tr (mc_session c')) \<and>
    (variables_ok (mc_variables c) \<longrightarrow> variables_ok (mc_variables c'))"
proof (induction R D P F c last_result sqls rule: run_all.induct)
  case (1 R D P F c last_result)
  then show ?case by (auto simp: replies_def)
next
  case (2 R D P F c last_result sql sqls)
  show ?case
  proof (cases "trim sql = []")
    case True
    with 2 show ?thesis by simp
  next
    case False
    obtain c1 a where one: "run_one R D P c (trim sql) = (c1, a)" by (cases "run_one R D P c (trim sql)")
    note keeps = run_one_keeps [OF one, of dialect tr]
    show ?thesis
    proof (cases a)
      case (Answered rs)
      with "2.prems" False one have "fst (run_all R D P F c1 (Some rs) sqls) = c'" by simp
      from "2.IH"(2) [OF False one [symmetric] Answered this] keeps show ?thesis by auto
    next
      case (Refused e)
      with "2.prems" False one keeps show ?thesis by (auto simp: replies_def)
    next
      case (Aborted f)
      with "2.prems" False one keeps show ?thesis by (auto simp: fails_def)
    qed
  qed
qed

lemma run_one_transaction:
  "is_transaction_command (command_text R sql) \<Longrightarrow> run_one R D P c sql = (c, Answered result_set_empty)"
  by (simp add: run_one_def transaction_command_answered)

text \<open>
  C30. The transaction commands of a MySQL client have no effect. A statement that is \<open>BEGIN\<close>, \<open>COMMIT\<close> or
  \<open>ROLLBACK\<close>, or begins with \<open>START TRANSACTION\<close>, in any case and behind any leading bracketed comments, is
  answered with an OK and never reaches the session, whatever the text around it: a text of statements leaves
  the connection exactly as the same text without these does, so that what precedes a \<open>ROLLBACK\<close> stays done.
  (Other spellings, \<open>BEGIN WORK\<close> or a \<open>COMMIT\<close> behind a line comment, are not taken for transaction commands
  and do reach the session.)
\<close>

theorem mysql_transactions_ignored:
  "fst (com_query R D P F c args) =
     fst (run_all R D P F c None
       (filter (\<lambda>s. \<not> is_transaction_command (command_text R (trim s))) (mysql_split_statements (utf8_lossy R args)))) \<and>
   (\<forall>s. mysql_split_statements (utf8_lossy R args) = [s] \<and> trim s \<noteq> [] \<and> is_transaction_command (command_text R (trim s)) \<longrightarrow>
      com_query R D P F c args = (c, [build_ok_packet 0 0], None))"
proof
  have "fst (run_all R D P F c last_result sqls) = fst (run_all R D P F c last_result'
      (filter (\<lambda>s. \<not> is_transaction_command (command_text R (trim s))) sqls))" for c last_result last_result' sqls
  proof (induction sqls arbitrary: c last_result last_result')
    case (Cons sql sqls)
    show ?case
    proof (cases "is_transaction_command (command_text R (trim sql))")
      case True
      with Cons show ?thesis by (simp add: run_one_transaction)
    next
      case False
      with Cons show ?thesis
        by (auto simp: replies_def fails_def split: prod.splits statement_answer.splits)
    qed
  qed (simp add: replies_def)
  then show "fst (com_query R D P F c args) =
     fst (run_all R D P F c None
       (filter (\<lambda>s. \<not> is_transaction_command (command_text R (trim s))) (mysql_split_statements (utf8_lossy R args))))"
    unfolding com_query_def by blast
  show "\<forall>s. mysql_split_statements (utf8_lossy R args) = [s] \<and> trim s \<noteq> [] \<and> is_transaction_command (command_text R (trim s)) \<longrightarrow>
      com_query R D P F c args = (c, [build_ok_packet 0 0], None)"
    by (auto simp: com_query_def run_one_transaction replies_def result_payloads_def result_set_empty_def result_set_is_empty_def)
qed

theorem mysql_transactions_ignored_witness:
  "com_query sample_runtime (sample_driver False) (demo_parser []) no_floats sample_connection (utf8 ''/*c*/ begin;'') =
     (sample_connection, [build_ok_packet 0 0], None)"
proof -
  have "mysql_split_statements (utf8_lossy sample_runtime (utf8 ''/*c*/ begin;'')) = [''/*c*/ begin'']"
    "trim ''/*c*/ begin'' \<noteq> []" "is_transaction_command (command_text sample_runtime (trim ''/*c*/ begin''))"
    by code_simp+
  then show ?thesis
    using mysql_transactions_ignored [of sample_runtime "sample_driver False" "demo_parser []" no_floats sample_connection
      "utf8 ''/*c*/ begin;''"] by blast
qed

lemma other_spellings_reach_session:
  "session_answers sample_runtime ''BEGIN WORK''" "session_answers sample_runtime ''COMMIT AND CHAIN''"
  "session_answers sample_runtime (''-- x'' @ newline # ''COMMIT'')"
  by code_simp+

section \<open>The invariant of a connection\<close>

definition prepared_ok :: "32 word \<Rightarrow> prepared \<Rightarrow> bool" where
  "prepared_ok n stmt \<longleftrightarrow>
     ps_stmt_id stmt = n \<and> ps_param_positions stmt = find_param_positions (ps_sql stmt) \<and>
     ps_num_params stmt = length (ps_param_positions stmt)"

definition my_connection_ok :: "target_dialect \<Rightarrow> translator \<Rightarrow> 'db my_connection \<Rightarrow> bool" where
  "my_connection_ok dialect tr c \<longleftrightarrow>
     session_ok dialect tr (mc_session c) \<and> variables_ok (mc_variables c) \<and> \<not> deprecates_eof c \<and>
     (\<forall>n stmt. mc_prepared_stmts c n = Some stmt \<longrightarrow> prepared_ok n stmt)"

inductive my_reachable ::
  "runtime \<Rightarrow> 'db driver \<Rightarrow> 'x sqlparser \<Rightarrow> float_parser \<Rightarrow> hash \<Rightarrow> identity \<Rightarrow> bytes \<Rightarrow>
   'db my_connection \<Rightarrow> 'db my_connection \<Rightarrow> nat \<Rightarrow> bool"
  for R D P F sha1 identity scramble c0
where
  logged_in: "my_reachable R D P F sha1 identity scramble c0 c0 0"
| command: "my_reachable R D P F sha1 identity scramble c0 c k \<Longrightarrow>
    run_command_on w R D P F sha1 identity scramble c cmd args = Some (c', ps, fault) \<Longrightarrow>
    my_reachable R D P F sha1 identity scramble c0 c' (if cmd = 0x16 then Suc k else k)"

lemma prepared_new_ok: "prepared_ok n (prepared_new n sql)"
  by (simp add: prepared_ok_def prepared_new_def)

lemma prepared_ok_buffers:
  "prepared_ok n stmt \<Longrightarrow> prepared_ok n (stmt\<lparr>ps_param_buffers := b\<rparr>)"
  "prepared_ok n stmt \<Longrightarrow> prepared_ok n (append_buffer m data stmt)"
  by (simp_all add: prepared_ok_def append_buffer_def Let_def)

text \<open>What a command leaves of the statements: the same ids, but for one prepared or closed.\<close>

definition stmts_kept :: "'db my_connection \<Rightarrow> 'db my_connection \<Rightarrow> bool" where
  "stmts_kept c c' \<longleftrightarrow>
     mc_next_stmt_id c' = mc_next_stmt_id c \<and> dom (mc_prepared_stmts c') \<subseteq> dom (mc_prepared_stmts c)"

lemma clear_buffers_kept:
  "my_connection_ok dialect tr c \<Longrightarrow> my_connection_ok dialect tr (clear_buffers n c) \<and> stmts_kept c (clear_buffers n c)"
  by (auto simp: clear_buffers_def my_connection_ok_def stmts_kept_def deprecates_eof_def prepared_ok_buffers split: option.splits)

lemma run_one_ok:
  "run_one R D P c sql = (c', a) \<Longrightarrow> my_connection_ok dialect tr c \<Longrightarrow> my_connection_ok dialect tr c' \<and> stmts_kept c c'"
  using run_one_keeps [of R D P c sql c' a dialect tr] by (simp add: my_connection_ok_def stmts_kept_def deprecates_eof_def)

lemma stmts_kept_trans: "stmts_kept c c1 \<Longrightarrow> stmts_kept c1 c2 \<Longrightarrow> stmts_kept c c2"
  unfolding stmts_kept_def by (elim conjE, intro conjI, simp, rule subset_trans)

lemma stmts_kept_refl [simp]: "stmts_kept c c"
  by (simp add: stmts_kept_def)

lemma com_stmt_execute_ok:
  assumes "my_connection_ok dialect tr c" "com_stmt_execute R D P F c args = (c', ps, f)"
  shows "my_connection_ok dialect tr c' \<and> stmts_kept c c'"
proof (cases "c' = c")
  case True
  with assms(1) show ?thesis by simp
next
  case False
  then obtain sql c1 a where one: "run_one R D P c sql = (c1, a)" "c' \<in> {c1, clear_buffers (stmt_id_of args) c1}"
    using assms(2)
    by (auto simp: com_stmt_execute_def fails_def replies_def Let_def
      split: if_splits option.splits sum.splits prod.splits statement_answer.splits)
  from run_one_ok [OF one(1) assms(1)] have "my_connection_ok dialect tr c1" "stmts_kept c c1" by simp_all
  with one(2) clear_buffers_kept [of dialect tr c1 "stmt_id_of args"] stmts_kept_trans show ?thesis by blast
qed

lemma com_change_user_ok:
  assumes "my_connection_ok dialect tr c" "com_change_user R sha1 identity scramble c args = (c', ps, f)"
  shows "my_connection_ok dialect tr c' \<and> stmts_kept c c'"
  using assms variables_ok_reset
  by (auto simp: com_change_user_def replies_def fails_def Let_def my_connection_ok_def deprecates_eof_def
    split: if_splits prod.splits auth_result.splits) (auto simp: stmts_kept_def)

lemma run_command_ok:
  assumes "my_connection_ok dialect tr c" "run_command R D P F sha1 identity scramble c cmd args = Some (c', ps, f)"
  shows "my_connection_ok dialect tr c' \<and>
    (cmd \<noteq> 0x16 \<longrightarrow> stmts_kept c c') \<and>
    (cmd = 0x16 \<longrightarrow> mc_next_stmt_id c' = mc_next_stmt_id c + 1 \<and>
       dom (mc_prepared_stmts c') = insert (mc_next_stmt_id c) (dom (mc_prepared_stmts c)))"
proof -
  have same: "my_connection_ok dialect tr c'' \<and> stmts_kept c c''" if "replies c xs = (c'', ys, g)" for c'' xs ys g
    using that assms(1) by (simp add: replies_def)
  have query: "my_connection_ok dialect tr c'' \<and> stmts_kept c c''" if "com_query R D P F c args = (c'', ys, g)" for c'' ys g
    using run_all_keeps [of R D P F c None "mysql_split_statements (utf8_lossy R args)" c'' dialect tr] that assms(1)
    by (simp add: com_query_def my_connection_ok_def stmts_kept_def deprecates_eof_def)
  have init: "my_connection_ok dialect tr c'' \<and> stmts_kept c c''" if "com_init_db R c args = (c'', ys, g)" for c'' ys g
    using that assms(1) by (auto simp: com_init_db_def replies_def my_connection_ok_def stmts_kept_def deprecates_eof_def)
  have prepare: "my_connection_ok dialect tr c'' \<and> mc_next_stmt_id c'' = mc_next_stmt_id c + 1 \<and>
      dom (mc_prepared_stmts c'') = insert (mc_next_stmt_id c) (dom (mc_prepared_stmts c))"
    if "com_stmt_prepare R c args = (c'', ys, g)" for c'' ys g
    using that assms(1) prepared_new_ok
    by (auto simp: com_stmt_prepare_def replies_def Let_def my_connection_ok_def deprecates_eof_def split: if_split_asm)
  have close: "my_connection_ok dialect tr c'' \<and> stmts_kept c c''" if "com_stmt_close c args = (c'', ys, g)" for c'' ys g
    using that assms(1)
    by (auto simp: com_stmt_close_def replies_def my_connection_ok_def stmts_kept_def deprecates_eof_def split: if_splits)
  have reset: "my_connection_ok dialect tr c'' \<and> stmts_kept c c''" if "com_stmt_reset c args = (c'', ys, g)" for c'' ys g
    using that assms(1) clear_buffers_kept [OF assms(1), of "stmt_id_of args"]
    by (auto simp: com_stmt_reset_def replies_def fails_def split: if_splits)
  have long_data: "my_connection_ok dialect tr c'' \<and> stmts_kept c c''" if "com_stmt_send_long_data c args = (c'', ys, g)" for c'' ys g
    using that assms(1) prepared_ok_buffers(2)
    by (auto simp: com_stmt_send_long_data_def replies_def Let_def my_connection_ok_def stmts_kept_def deprecates_eof_def
      split: if_splits option.splits)
  have reset_conn: "my_connection_ok dialect tr c'' \<and> stmts_kept c c''" if "com_reset_connection c = (c'', ys, g)" for c'' ys g
    using that assms(1) variables_ok_reset
    by (auto simp: com_reset_connection_def replies_def my_connection_ok_def stmts_kept_def deprecates_eof_def)
  note handlers = same query init close reset long_data reset_conn
    com_stmt_execute_ok [OF assms(1)] com_change_user_ok [OF assms(1)]
  have "stmts_kept c c' \<and> my_connection_ok dialect tr c'" if "cmd \<noteq> 0x16"
  proof -
    have "(\<exists>xs. replies c xs = (c', ps, f)) \<or> com_query R D P F c args = (c', ps, f) \<or> com_init_db R c args = (c', ps, f) \<or>
        com_stmt_execute R D P F c args = (c', ps, f) \<or> com_stmt_close c args = (c', ps, f) \<or>
        com_stmt_reset c args = (c', ps, f) \<or> com_stmt_send_long_data c args = (c', ps, f) \<or>
        com_reset_connection c = (c', ps, f) \<or> com_change_user R sha1 identity scramble c args = (c', ps, f)"
      using assms(2) that by (auto simp: run_command_def split: if_split_asm)
    then show ?thesis by (elim disjE exE) (blast dest: handlers)+
  qed
  moreover have "com_stmt_prepare R c args = (c', ps, f)" if "cmd = 0x16"
    using assms(2) that by (simp add: run_command_def)
  ultimately show ?thesis using prepare by blast
qed

lemma run_command_on_E:
  assumes "run_command_on w R D P F sha1 identity scramble c cmd args = Some (c', ps, f)"
  obtains c1 ps1 f1 where "run_command R D P F sha1 identity scramble c cmd args = Some (c1, ps1, f1)"
    "mc_session c' = mc_session c1" "mc_info c' = mc_info c1"
    "c' = c1 \<or> c' = c1\<lparr>mc_prepared_stmts := mc_prepared_stmts c\<rparr>"
  using assms by (auto simp: run_command_on_def answer_on_def split: if_splits)

text \<open>A handler that is broken off leaves the connection in order and the statements it had.\<close>

lemma run_command_on_ok:
  assumes "my_connection_ok dialect tr c" "run_command_on w R D P F sha1 identity scramble c cmd args = Some (c', ps, f)"
  shows "my_connection_ok dialect tr c' \<and>
    (cmd \<noteq> 0x16 \<longrightarrow> stmts_kept c c') \<and>
    (cmd = 0x16 \<longrightarrow> mc_next_stmt_id c' = mc_next_stmt_id c + 1 \<and>
       dom (mc_prepared_stmts c') \<subseteq> insert (mc_next_stmt_id c) (dom (mc_prepared_stmts c)))"
proof -
  from run_command_on_E [OF assms(2)] obtain c1 ps1 f1 where
    run: "run_command R D P F sha1 identity scramble c cmd args = Some (c1, ps1, f1)"
    and c': "c' = c1 \<or> c' = c1\<lparr>mc_prepared_stmts := mc_prepared_stmts c\<rparr>" .
  note ok = run_command_ok [OF assms(1) run]
  have "my_connection_ok dialect tr (c1\<lparr>mc_prepared_stmts := mc_prepared_stmts c\<rparr>)"
    using ok assms(1) by (simp add: my_connection_ok_def deprecates_eof_def)
  with ok c' show ?thesis by (auto simp: stmts_kept_def)
qed

inductive_cases my_reachable_start: "my_reachable R D P F sha1 identity scramble c0 c 0"

definition fresh_connection :: "'db my_connection \<Rightarrow> bool" where
  "fresh_connection c \<longleftrightarrow> mc_prepared_stmts c = Map.empty \<and> mc_next_stmt_id c = 1"

definition ids_below :: "'db my_connection \<Rightarrow> nat \<Rightarrow> bool" where
  "ids_below c k \<longleftrightarrow> (\<forall>n \<in> dom (mc_prepared_stmts c). 0 < unat n \<and> unat n \<le> k)"

lemma ids_below_kept: "ids_below c k \<Longrightarrow> stmts_kept c c' \<Longrightarrow> ids_below c' k"
  unfolding ids_below_def stmts_kept_def by blast

lemma unat_id: "n < 2 ^ 32 \<Longrightarrow> unat (of_nat n :: 32 word) = n"
  by (simp add: unat_of_nat)

lemma my_reachable_ok:
  assumes "my_reachable R D P F sha1 identity scramble c0 c k" "my_connection_ok dialect tr c0" "fresh_connection c0"
  shows "my_connection_ok dialect tr c \<and> mc_next_stmt_id c = of_nat (Suc k) \<and> (k < 2 ^ 32 \<longrightarrow> ids_below c k)"
  using assms
proof (induction rule: my_reachable.induct)
  case logged_in
  then show ?case by (simp add: fresh_connection_def ids_below_def)
next
  case (command c k w cmd args c' ps fault)
  then have ok: "my_connection_ok dialect tr c" and nx: "mc_next_stmt_id c = of_nat (Suc k)"
    and ids: "k < 2 ^ 32 \<Longrightarrow> ids_below c k" by simp_all
  note step = run_command_on_ok [OF ok command.hyps(2)]
  show ?case
  proof (cases "cmd = 0x16")
    case True
    have "ids_below c' (Suc k)" if "Suc k < 2 ^ 32"
    proof -
      have u: "unat (of_nat (Suc k) :: 32 word) = Suc k" using that by (rule unat_id)
      have "\<forall>n \<in> insert (of_nat (Suc k) :: 32 word) (dom (mc_prepared_stmts c)). 0 < unat n \<and> unat n \<le> Suc k"
        using ids that u by (auto simp: ids_below_def le_SucI simp del: of_nat_Suc)
      moreover have "dom (mc_prepared_stmts c') \<subseteq> insert (of_nat (Suc k)) (dom (mc_prepared_stmts c))"
        using step True nx by simp
      ultimately show ?thesis unfolding ids_below_def by blast
    qed
    then show ?thesis using step True nx by simp
  next
    case False
    with step have "my_connection_ok dialect tr c'" and kept: "stmts_kept c c'" by simp_all
    moreover from kept have "mc_next_stmt_id c' = of_nat (Suc k)" using nx by (simp add: stmts_kept_def)
    ultimately show ?thesis using ids ids_below_kept [OF _ kept] False by simp
  qed
qed

text \<open>
  C14. The state of a MySQL connection, over any sequence of commands, failed ones and ones whose answer the
  client does not take included: the session
  keeps its dialects and a last insert id that is not negative, the variables each name once, the
  wire format its EOF packets, and every prepared statement its own id and the placeholders of its text.
  The id of the next statement counts the statements prepared, and for the first \<open>2 ^ 32 - 1\<close> of them
  it is not in use: preparing a statement replaces no other one.
\<close>

theorem mysql_connection_invariant:
  assumes "my_reachable R D P F sha1 identity scramble c0 c k" "my_connection_ok dialect tr c0" "fresh_connection c0"
  shows "my_connection_ok dialect tr c \<and> mc_next_stmt_id c = of_nat (Suc k) \<and>
    (Suc k < 2 ^ 32 \<longrightarrow> mc_prepared_stmts c (mc_next_stmt_id c) = None)"
proof -
  note ok = my_reachable_ok [OF assms]
  have "mc_next_stmt_id c \<notin> dom (mc_prepared_stmts c)" if "Suc k < 2 ^ 32"
  proof
    assume "mc_next_stmt_id c \<in> dom (mc_prepared_stmts c)"
    then have "unat (mc_next_stmt_id c) \<le> k" using ok that by (auto simp: ids_below_def)
    moreover have "unat (of_nat (Suc k) :: 32 word) = Suc k" using that by (rule unat_id)
    ultimately show False using ok by simp
  qed
  with ok show ?thesis by auto
qed

lemma sample_connection_ok:
  "my_connection_ok Mysql (new_translator FrontMysql Mysql) sample_connection" "fresh_connection sample_connection"
proof -
  have "variables_ok \<lparr>sv_globals = default_globals ''linux'' ''x86_64'', sv_overrides = []\<rparr>" by code_simp
  then show "my_connection_ok Mysql (new_translator FrontMysql Mysql) sample_connection" "fresh_connection sample_connection"
    by (simp_all add: my_connection_ok_def sample_connection_def my_connection_new_def session_ok_def my_session_def
      new_session_def deprecates_eof_def fresh_connection_def)
qed

theorem mysql_connection_invariant_witness:
  "\<exists>c. my_reachable sample_runtime (sample_driver False) (demo_parser []) no_floats sample_hash None [] sample_connection c 1 \<and>
     mc_next_stmt_id c = 2 \<and> mc_prepared_stmts c 2 = None"
proof -
  obtain c' ps f where "run_command_on sample_sink sample_runtime (sample_driver False) (demo_parser []) no_floats sample_hash None []
      sample_connection 0x16 (utf8 ''?'') = Some (c', ps, f)"
    by (cases "answer_on sample_sink 0x16 sample_connection (com_stmt_prepare sample_runtime sample_connection (utf8 ''?''))")
      (simp add: run_command_on_def run_command_def)
  from my_reachable.command [OF my_reachable.logged_in this]
  have r: "my_reachable sample_runtime (sample_driver False) (demo_parser []) no_floats sample_hash None [] sample_connection c' 1"
    by simp
  from mysql_connection_invariant [OF r sample_connection_ok] r show ?thesis by auto
qed

text \<open>The loop over the packets runs commands, so it stays within what is reachable.\<close>

lemma command_phase_reachable:
  "my_reachable R D P F sha1 identity scramble c0 c k \<Longrightarrow>
     \<exists>k'. my_reachable R D P F sha1 identity scramble c0 (fst (command_phase w R D P F sha1 identity scramble c stream)) k'"
proof (induction w R D P F sha1 identity scramble c stream arbitrary: k rule: command_phase.induct)
  case (1 w R D P F sha1 identity scramble c stream)
  show ?case
  proof (cases "read_packet stream")
    case (Inl f)
    with "1.prems" show ?thesis by (auto simp: command_phase.simps [of w R D P F sha1 identity scramble c stream])
  next
    case (Inr pr)
    obtain p rest where pr: "pr = (p, rest)" by (cases pr)
    show ?thesis
    proof (cases "pk_payload p")
      case Nil
      from "1.IH"(1) [OF Inr pr [symmetric] Nil "1.prems"] Inr pr Nil show ?thesis
        by (simp add: command_phase.simps [of w R D P F sha1 identity scramble c stream])
    next
      case (Cons cmd args)
      show ?thesis
      proof (cases "run_command_on w R D P F sha1 identity scramble c cmd args")
        case None
        with Inr pr Cons "1.prems" show ?thesis
          by (auto simp: command_phase.simps [of w R D P F sha1 identity scramble c stream])
      next
        case (Some h)
        obtain c1 ps fault where h: "h = (c1, ps, fault)" by (cases h)
        note step = my_reachable.command [OF "1.prems" Some [unfolded h]]
        show ?thesis
        proof (cases "fault = Some Panics")
          case True
          with Inr pr Cons Some h step show ?thesis
            by (auto simp: command_phase.simps [of w R D P F sha1 identity scramble c stream])
        next
          case False
          from "1.IH"(2) [OF Inr pr [symmetric] Cons Some h [symmetric] refl refl refl refl False step]
          Inr pr Cons Some h False show ?thesis
            by (simp add: command_phase.simps [of w R D P F sha1 identity scramble c stream] Let_def case_prod_beta)
        qed
      qed
    qed
  qed
qed

lemma record_handshake_ok:
  "my_connection_ok dialect tr c \<Longrightarrow> my_connection_ok dialect tr (record_handshake hs c)"
  "fresh_connection c \<Longrightarrow> fresh_connection (record_handshake hs c)"
  using server_capabilities_eof variables_ok_set
  by (simp_all add: my_connection_ok_def record_handshake_def deprecates_eof_def bit_and_iff fresh_connection_def)

text \<open>
  C13. Nobody is served without the password. Over a whole connection, from the greeting to the end of the
  stream, whatever the client sends and whenever it stops taking answers: when the listener has a user, then either the client named that user and
  gave the response that the password and the connection's scramble determine, or no statement of it was run:
  the session is as it was made, with its backend connection and last insert id, and the connection
  differs at most in what it records of a handshake. At the end the connection's state is in order, as
  \<open>my_connection_ok\<close> says.
\<close>

theorem mysql_connection_run:
  assumes "my_connection_ok dialect tr c" "fresh_connection c"
    "my_run w R D P F sha1 (Some (name, password)) scramble c stream = (c', out, e)"
  shows "my_connection_ok dialect tr c' \<and>
    (client_answered R scramble stream name (compute_auth_response sha1 (utf8 password) scramble) \<or>
     mc_session c' = mc_session c \<and> (c' = c \<or> (\<exists>hs. c' = record_handshake hs c)))"
proof -
  obtain c1 out1 r where login: "connection_phase w R sha1 (Some (name, password)) scramble c stream = (c1, out1, r)"
    by (metis prod_cases3)
  from connection_phase_records [of w R sha1 "Some (name, password)" scramble c stream] login
  have recorded: "c1 = c \<or> (\<exists>hs. c1 = record_handshake hs c)" by simp
  then have c1: "my_connection_ok dialect tr c1" "fresh_connection c1" "mc_session c1 = mc_session c"
    using assms(1,2) record_handshake_ok by (auto simp: record_handshake_def)
  show ?thesis
  proof (cases r)
    case (Inl f)
    with assms(3) login recorded c1 show ?thesis by (simp add: my_run_def)
  next
    case (Inr wr)
    obtain w1 rest where wr: "wr = (w1, rest)" by (cases wr)
    from login_needs_password [OF login [unfolded Inr wr]]
    have "client_answered R scramble stream name (compute_auth_response sha1 (utf8 password) scramble)" by auto
    moreover obtain k where "my_reachable R D P F sha1 (Some (name, password)) scramble c1
        (fst (command_phase w1 R D P F sha1 (Some (name, password)) scramble c1 rest)) k"
      using command_phase_reachable [OF my_reachable.logged_in] by blast
    from my_reachable_ok [OF this c1(1,2)] have
      "my_connection_ok dialect tr (fst (command_phase w1 R D P F sha1 (Some (name, password)) scramble c1 rest))" ..
    moreover have "c' = fst (command_phase w1 R D P F sha1 (Some (name, password)) scramble c1 rest)"
      using assms(3) login Inr wr by (simp add: my_run_def split: prod.splits)
    ultimately show ?thesis by simp
  qed
qed

theorem mysql_connection_run_witness:
  "\<exists>c' out. my_run sample_sink sample_runtime (sample_driver False) (demo_parser []) no_floats sample_hash (Some (''u'', ''p'')) sample_scramble
       sample_connection (fst (write_packet 1 sample_handshake)) = (c', out, Closed) \<and>
     ci_username (mc_info c') = ''u'' \<and> my_connection_ok Mysql (new_translator FrontMysql Mysql) c'"
proof -
  from login_accepted [OF sample_handshake_ok(1) sample_handshake_def sample_handshake_ok(2), of sample_sink sample_connection 1 "[]"]
  obtain greeting hs where "connection_phase sample_sink sample_runtime sample_hash (Some (''u'', ''p'')) sample_scramble sample_connection
      (fst (write_packet 1 sample_handshake)) = (record_handshake hs sample_connection, greeting, Inr (after_packets 2 sample_sink, []))" "hr_username hs = ''u''"
    by (auto simp: sample_sink_def)
  then have run: "my_run sample_sink sample_runtime (sample_driver False) (demo_parser []) no_floats sample_hash (Some (''u'', ''p'')) sample_scramble
      sample_connection (fst (write_packet 1 sample_handshake)) = (record_handshake hs sample_connection, greeting, Closed)"
    by (simp add: my_run_def command_phase.simps read_packet_def read_exact_def)
  from mysql_connection_run [OF sample_connection_ok run] run \<open>hr_username hs = ''u''\<close> show ?thesis
    by (simp add: record_handshake_def)
qed

section \<open>Every command is answered\<close>

lemma answer_nonempty:
  assumes "p \<noteq> []"
  shows "answer_bytes seq (p # ps) fault \<noteq> []"
proof
  assume "answer_bytes seq (p # ps) fault = []"
  then have e: "fst (write_packet seq p) = []" by (simp add: answer_bytes_def fst_write_packets)
  have "read_message [] = None" by (simp add: read_message.simps read_packet_def read_exact_def)
  with write_packet_read(1) [OF assms, of seq "[]"] e show False by simp
qed

lemma error_answered: "answer_bytes seq [] (Some (Fails e)) \<noteq> []"
proof -
  have "error_payload e \<noteq> []" by (simp add: error_payload_def build_err_packet_def)
  from answer_nonempty [OF this, of seq "[]" None] show ?thesis by (simp add: answer_bytes_def)
qed

definition answered :: "'db handled \<Rightarrow> bool" where
  "answered h \<longleftrightarrow> (\<forall>seq. snd (snd h) \<noteq> Some Panics \<longrightarrow> answer_bytes seq (fst (snd h)) (snd (snd h)) \<noteq> [])"

lemma replies_answered: "p \<noteq> [] \<Longrightarrow> answered (replies c (p # ps))"
  by (simp add: answered_def replies_def answer_nonempty)

lemma fails_answered: "answered (fails c f)"
  using error_answered by (cases f) (simp_all add: answered_def fails_def)

lemma status_payloads: "ok_payload \<noteq> []" "build_eof_packet \<noteq> []" "error_payload e \<noteq> []" "build_err_packet code st msg \<noteq> []"
  "build_stmt_prepare_ok stmt \<noteq> []"
  by (simp_all add: ok_payload_def build_ok_packet_def build_eof_packet_def error_payload_def build_err_packet_def
    build_stmt_prepare_ok_def)

lemma result_answered: "answered (replies c (result_payloads F d binary rs))"
proof -
  have "write_lenenc_int n \<noteq> []" for n by (auto simp: write_lenenc_int_def Let_def)
  moreover have "build_ok_packet a b \<noteq> []" for a b by (simp add: build_ok_packet_def)
  ultimately show ?thesis by (auto simp: result_payloads_def intro: replies_answered)
qed

lemmas answered_intros = replies_answered fails_answered result_answered status_payloads

lemma run_all_answered: "answered (run_all R D P F c last_result sqls)"
  by (induction R D P F c last_result sqls rule: run_all.induct)
    (auto simp: answered_intros split: option.split prod.split statement_answer.split)

text \<open>
  C31. Every command a MySQL client sends is answered: whatever its bytes are and whatever it does, at least
  one packet is written for it unless the handler panics. The two commands that have no answer in the
  protocol, closing a statement and sending long data, get none, and they never fail.
\<close>

theorem mysql_commands_answered:
  assumes "run_command R D P F sha1 identity scramble c cmd args = Some (c', ps, fault)"
  shows "(cmd \<notin> {0x18, 0x19} \<longrightarrow> fault \<noteq> Some Panics \<longrightarrow> answer_bytes seq ps fault \<noteq> []) \<and>
    (cmd \<in> {0x18, 0x19} \<longrightarrow> fault = None \<and> answer_bytes seq ps fault = [])"
proof -
  have exec: "answered (com_stmt_execute R D P F c args)"
    by (auto simp: com_stmt_execute_def Let_def answered_intros split: option.split sum.split prod.split statement_answer.split)
  have user: "answered (com_change_user R sha1 identity scramble c args)"
    by (auto simp: com_change_user_def Let_def answered_intros split: prod.split auth_result.split)
  have "answered (com_init_db R c args)" "answered (com_query R D P F c args)" "answered (com_stmt_prepare R c args)"
    "answered (com_stmt_reset c args)" "answered (com_reset_connection c)"
    by (simp_all add: com_init_db_def com_query_def run_all_answered com_stmt_prepare_def Let_def com_stmt_reset_def
      com_reset_connection_def answered_intros)
  with exec user have "answered (the (run_command R D P F sha1 identity scramble c cmd args))" if "cmd \<notin> {0x01, 0x18, 0x19}"
    using that by (simp add: run_command_def answered_intros)
  moreover have "cmd \<noteq> 0x01" using assms by (auto simp: run_command_def)
  ultimately have "answered (c', ps, fault)" if "cmd \<notin> {0x18, 0x19}" using assms that by simp
  moreover have "fault = None \<and> answer_bytes seq ps fault = []" if "cmd \<in> {0x18, 0x19}"
    using assms that
    by (auto simp: run_command_def com_stmt_close_def com_stmt_send_long_data_def replies_def Let_def answer_bytes_def
      fst_write_packets split: if_split_asm option.splits)
  ultimately show ?thesis by (auto simp: answered_def)
qed

theorem mysql_commands_answered_witness:
  "\<exists>ps fault. run_command sample_runtime (sample_driver False) (demo_parser []) no_floats sample_hash None [] sample_connection 0x17 [] =
     Some (sample_connection, ps, fault) \<and> answer_bytes 1 ps fault \<noteq> []"
proof -
  have "run_command sample_runtime (sample_driver False) (demo_parser []) no_floats sample_hash None [] sample_connection 0x17 [] =
      Some (sample_connection, [], Some (Fails (MProtocol ''COM_STMT_EXECUTE too short'')))"
    by (simp add: run_command_def com_stmt_execute_def fails_def)
  from mysql_commands_answered [OF this, of 1] this show ?thesis by simp
qed

section \<open>From a query to the client's rows\<close>

definition wire_fields :: "field_meta list \<Rightarrow> (bytes \<times> column_type) list" where
  "wire_fields cols = map (\<lambda>f. (utf8 (fm_name f), mysql_column_type f)) cols"

lemma mysql_result_columns: "rs_columns (mysql_result R (Rows cols rows)) = map (\<lambda>f. column_new (fm_name f) (mysql_column_type f)) cols"
proof -
  have "rs_columns (foldl (\<lambda>rs row. add_row rs (map (mysql_cell R) row)) rs rows) = rs_columns rs" for rs
    by (induction rows arbitrary: rs) (simp_all add: add_row_def)
  then show ?thesis by (simp add: result_set_new_def)
qed

lemma wire_columns_result: "wire_columns (rs_columns (mysql_result R (Rows cols rows))) = wire_fields cols"
  unfolding mysql_result_columns by (simp add: wire_columns_def wire_fields_def column_new_def)

text \<open>What the session's result becomes on the wire, in the two forms.\<close>

lemma answer_result:
  "answer_bytes seq (result_payloads F False binary rs) None = fst (send_result_set F False binary rs seq)"
  by (simp add: answer_bytes_def send_result_set_def)

lemma run_one_session:
  assumes "session_answers R sql" "run_script R D P (mc_session c) FrontMysql sql = (s', Inr outcomes)"
  shows "run_one R D P c sql = (c\<lparr>mc_session := s'\<rparr>, Answered (mysql_result R (first_outcome outcomes)))"
  using passed_to_session [OF assms(1)] assms(2) by (simp add: run_one_def my_handle_query_def)



section \<open>From a prepared statement to the client's rows\<close>


text \<open>A statement of the sample connection: an \<open>INSERT\<close> with a quoted identifier, executed with the number 5.\<close>

definition insert_pieces :: "piece list" where
  "insert_pieces = map (\<lambda>c. Piece (LChar c)) ''INSERT INTO '' @ [Piece (LIdent backtick ''it's''), Piece (LChar CHR '' ''), Mark]"

definition prepared_connection :: "nat my_connection" where
  "prepared_connection = sample_connection\<lparr>mc_prepared_stmts := [1 \<mapsto> prepared_new 1 (written insert_pieces)]\<rparr>"


text \<open>
  Integers of prepared statements: the text of any 64-bit value is sent exactly in a column of MySQL's
  widest type, and in a narrower one when it is in the range of that type; outside of it the client
  receives 0.
\<close>

theorem binary_integers:
  fixes i :: "64 word"
  shows "sent_value F LongLong (show_int (sint i)) = BinInt (sint i) \<and>
    sent_value F Long (show_int (sint i)) = BinInt (if - (2 ^ 31) \<le> sint i \<and> sint i < 2 ^ 31 then sint i else 0) \<and>
    sent_value F Short (show_int (sint i)) = BinInt (if - (2 ^ 15) \<le> sint i \<and> sint i < 2 ^ 15 then sint i else 0) \<and>
    sent_value F Tiny (show_int (sint i)) = BinInt (if - (2 ^ 7) \<le> sint i \<and> sint i < 2 ^ 7 then sint i else 0)"
proof -
  have fit_num: "num (fit k :: 'b::len word option) = BinInt (if - (2 ^ (LENGTH('b) - 1)) \<le> k \<and> k < 2 ^ (LENGTH('b) - 1) then k else 0)" for k
  proof (cases "fit k :: 'b word option")
    case (Some w)
    with sint_fit [OF this] show ?thesis by (auto simp: num_def fit_def split: if_splits)
  qed (auto simp: num_def fit_def split: if_splits)
  have "num (Some i) = BinInt (sint i)" by (simp add: num_def)
  then show ?thesis
    by (simp add: sent_value_def parse_signed_show fit_num)
qed

end
