(* ===== verification/Ownership.thy ===== *)
theory Ownership
  imports Dedicated Mysql_Connection
begin

text \<open>
  What every operation of the backend layer, the session and the two front ends keeps of a backend
  connection: any predicate that the driver's calls keep. The locale \<open>reader\<close> holds the operations that
  only fetch, \<open>writer\<close> those that execute too. Interpreted on the connections reached from a given one
  by the driver's calls, this says that a client keeps its connection; interpreted on a driver that
  logs what it executes, it says which requests only read.
\<close>

section \<open>Operations that fetch\<close>

text \<open>
  A session whose connection has the property; a session without one, when the connection it would
  acquire has it.
\<close>

definition conn_holds :: "'db driver \<Rightarrow> ('db \<Rightarrow> bool) \<Rightarrow> 'db session \<Rightarrow> bool" where
  "conn_holds D Q s \<longleftrightarrow>
     (case ss_conn s of Some c \<Rightarrow> Q c | None \<Rightarrow> (\<forall>c. dv_acquire D = Inr c \<longrightarrow> Q c))"

named_theorems keeps

locale reader =
  fixes D :: "'db driver" and Q :: "'db \<Rightarrow> bool"
  assumes fetch_all [keeps]: "dv_fetch_all D c sql = (c', r1) \<Longrightarrow> Q c \<Longrightarrow> Q c'"
    and fetch_optional [keeps]: "dv_fetch_optional D c sql = (c', r2) \<Longrightarrow> Q c \<Longrightarrow> Q c'"
    and fetch_one [keeps]: "dv_fetch_one D c sql = (c', r3) \<Longrightarrow> Q c \<Longrightarrow> Q c'"
begin

lemma from_conn [keeps]: "from_conn D c = (c', r) \<Longrightarrow> Q c \<Longrightarrow> Q c'"
  by (auto simp: from_conn_def split: prod.splits sum.splits dest: fetch_optional)

lemma last_rowid [keeps]: "last_rowid D c lid = (c', r) \<Longrightarrow> Q c \<Longrightarrow> Q c'"
  by (auto simp: last_rowid_def split: prod.splits sum.splits dest: fetch_one)

lemma table_affinities [keeps]: "table_affinities D c m ts = (c', r) \<Longrightarrow> Q c \<Longrightarrow> Q c'"
proof (induction ts arbitrary: c m)
  case (Cons t ts)
  then show ?case by (auto split: prod.splits sum.splits dest: fetch_all)
qed simp

lemma resolve_kinds [keeps]: "resolve_sqlite_column_kinds D c sql n = (c', r) \<Longrightarrow> Q c \<Longrightarrow> Q c'"
  by (auto simp: resolve_sqlite_column_kinds_def Let_def split: prod.splits if_splits dest: table_affinities)

lemma fetch [keeps]: "Backend_Exec.fetch D c sql = (c', r) \<Longrightarrow> Q c \<Longrightarrow> Q c'"
  by (auto simp: fetch_def Let_def split: prod.splits sum.splits list.splits if_splits dest: fetch_all from_conn resolve_kinds)

lemma reapply [keeps]: "reapply_sqlite_kinds D c sql cols = (c', r) \<Longrightarrow> Q c \<Longrightarrow> Q c'"
  by (auto simp: reapply_sqlite_kinds_def split: prod.splits if_splits dest: from_conn resolve_kinds)

lemma describe [keeps]: "Backend_Exec.describe D c sql = (c', r) \<Longrightarrow> Q c \<Longrightarrow> Q c'"
  by (auto simp: describe_def split: prod.splits sum.splits if_splits dest!: fetch reapply)

lemma run_rows [keeps]: "run_rows D c sql = (c', r) \<Longrightarrow> Q c \<Longrightarrow> Q c'"
  by (auto simp: run_rows_def split: prod.splits sum.splits dest: fetch)

lemma column_listing [keeps]: "column_listing D s c t = (c', r) \<Longrightarrow> Q c \<Longrightarrow> Q c'"
  by (auto simp: column_listing_def Let_def split: target_dialect.splits prod.splits sum.splits dest: fetch)

lemma catalogs [keeps]:
  "show_tables D s c opts = (c', r) \<Longrightarrow> Q c \<Longrightarrow> Q c'"
  "show_databases D s c = (c', r) \<Longrightarrow> Q c \<Longrightarrow> Q c'"
  "show_columns D P s c opts = (c', r) \<Longrightarrow> Q c \<Longrightarrow> Q c'"
  "describe_table D P s c name = (c', r) \<Longrightarrow> Q c \<Longrightarrow> Q c'"
  by (auto simp: show_tables_def show_databases_def show_columns_def describe_table_def
    split: option.splits target_dialect.splits dest: run_rows column_listing)

lemma show_create [keeps]: "show_create_table R D P s c name = (c', r) \<Longrightarrow> Q c \<Longrightarrow> Q c'"
  by (auto simp: show_create_table_def Let_def split: target_dialect.splits prod.splits sum.splits dest: fetch)

lemma intercept [keeps]: "intercept_statement R D P s c stmt = (c', r) \<Longrightarrow> Q c \<Longrightarrow> Q c'"
  by (auto simp: intercept_statement_def split: option.splits statement.splits show_create_object.splits if_splits
    dest: catalogs show_create)

lemma column_decl [keeps]: "column_decl R D c t col b = (c', r) \<Longrightarrow> Q c \<Longrightarrow> Q c'"
  by (auto simp: column_decl_def split: prod.splits sum.splits dest: fetch)

lemma declared_oid [keeps]: "declared_oid R D c t col b = (c', r) \<Longrightarrow> Q c \<Longrightarrow> Q c'"
  by (auto simp: declared_oid_def split: prod.splits option.splits dest: column_decl)

lemma search_tables [keeps]: "search_tables R D c ts col b = (c', r) \<Longrightarrow> Q c \<Longrightarrow> Q c'"
proof (induction ts arbitrary: c)
  case (Cons t ts)
  then show ?case by (auto split: prod.splits option.splits dest: declared_oid)
qed simp

lemma resolve_hint [keeps]: "resolve_hint R D b ts c h = (c', r) \<Longrightarrow> Q c \<Longrightarrow> Q c'"
  by (auto simp: resolve_hint_def split: prod.splits option.splits dest: declared_oid search_tables)

lemma resolve_hints [keeps]: "resolve_hints R D b ts c hs = (c', r) \<Longrightarrow> Q c \<Longrightarrow> Q c'"
proof (induction hs arbitrary: c c' r)
  case (Cons h hs)
  then show ?case by (auto split: prod.splits dest: resolve_hint)
qed simp

lemma infer [keeps]: "infer_param_types chk known R D P c sql = (c', r) \<Longrightarrow> Q c \<Longrightarrow> Q c'"
  by (auto simp: infer_param_types_def catalog_is_sqlite_def split: prod.splits option.splits if_splits sum.splits
    dest!: fetch resolve_hints)

lemma holds_conn: "conn_holds D Q (s\<lparr>ss_conn := Some c\<rparr>) \<longleftrightarrow> Q c"
  by (simp add: conn_holds_def)

lemma connection: "connection D s = (s', r) \<Longrightarrow> conn_holds D Q s \<Longrightarrow> conn_holds D Q s' \<and> (\<forall>c. r = Inr c \<longrightarrow> Q c)"
  by (auto simp: connection_def acquire_owned_def conn_holds_def split: option.splits sum.splits)

lemma statement_types:
  "statement_types chk known R D P s tys sql = (s', r) \<Longrightarrow> conn_holds D Q s \<Longrightarrow> conn_holds D Q s'"
  by (auto simp: statement_types_def holds_conn split: if_splits prod.splits sum.splits dest!: connection dest: infer)

lemma probe_backend: "probe_backend known D s sql = (s', r) \<Longrightarrow> conn_holds D Q s \<Longrightarrow> conn_holds D Q s'"
  by (auto simp: probe_backend_def holds_conn split: prod.splits sum.splits dest!: connection dest: describe)

lemma probe: "probe_result_schema chk known D P s sql = (s', r) \<Longrightarrow> conn_holds D Q s \<Longrightarrow> conn_holds D Q s'"
  by (auto simp: probe_result_schema_def split: sum.splits list.splits if_splits dest: probe_backend)

lemma describe_statement:
  "conn_holds D Q (get_session h ext) \<Longrightarrow> conn_holds D Q (fst (describe_statement chk R known D P h ext tys sql))"
  by (auto simp: describe_statement_def split: prod.splits sum.splits dest: statement_types probe)

lemma describe_portal:
  "conn_holds D Q (get_session h ext) \<Longrightarrow> conn_holds D Q (fst (describe_portal chk known D P h ext p))"
  by (auto simp: describe_portal_def split: prod.splits sum.splits dest: probe)

lemma track: "Q c \<Longrightarrow> conn_holds D Q (track_insert_id D s c stmt lid)"
  by (auto simp: track_insert_id_def holds_conn conn_holds_def [of D Q "set_last_insert_id _ _"]
    split: prod.splits sum.splits option.splits dest: fetch)

end

section \<open>Operations that execute\<close>

locale writer = reader D Q for D :: "'db driver" and Q :: "'db \<Rightarrow> bool" +
  assumes dv_execute: "dv_execute D c sql = (c', r) \<Longrightarrow> Q c \<Longrightarrow> Q c'"
begin

lemma execute [keeps]: "execute D c sql = (c', r) \<Longrightarrow> Q c \<Longrightarrow> Q c'"
  by (auto simp: execute_def split: prod.splits sum.splits if_splits dest!: dv_execute from_conn last_rowid)

lemma run_statement:
  assumes "conn_holds D Q s"
  shows "conn_holds D Q (fst (run_statement R D P s stmt))"
proof (cases "ss_conn s")
  case None
  with assms show ?thesis by (simp add: run_statement_def)
next
  case (Some c)
  with assms have q: "Q c" by (simp add: conn_holds_def)
  show ?thesis
    using Some q by (cases rule: run_statement_cases [of s c R D P stmt])
      (auto simp: holds_conn track dest: intercept fetch execute)
qed

lemma run_steps: "conn_holds D Q s \<Longrightarrow> conn_holds D Q (fst (run_steps (run_statement R D P) s stmts))"
proof (induction stmts arbitrary: s)
  case (Cons stmt stmts)
  obtain s1 r where st: "run_statement R D P s stmt = (s1, r)" by (cases "run_statement R D P s stmt")
  with run_statement [OF Cons.prems, of R P stmt] have "conn_holds D Q s1" by simp
  from Cons.IH [OF this] st this show ?case by (auto split: sum.splits prod.splits)
qed simp

lemma run_script: "conn_holds D Q s \<Longrightarrow> conn_holds D Q (fst (run_script R D P s front sql))"
  by (auto simp: run_script_def run_steps split: sum.splits prod.splits dest!: connection)

lemma run_script_eq: "run_script R D P s front sql = (s', r) \<Longrightarrow> conn_holds D Q s \<Longrightarrow> conn_holds D Q s'"
  using run_script [of s R P front sql] by simp

lemma session_after:
  assumes "conn_holds D Q (get_session h ext)"
  shows "conn_holds D Q (session_after chk R E known D P h ext req)"
proof (cases req)
  case (Execute p)
  obtain s r where st: "statement_types chk known R D P (get_session h ext) (pt_types p) (pt_statement p) = (s, r)"
    by (cases "statement_types chk known R D P (get_session h ext) (pt_types p) (pt_statement p)")
  note s = statement_types [OF st assms]
  with Execute st show ?thesis
    by (auto simp: pg_extended_query_def effective_param_types_def run_bound_def split: prod.splits sum.splits
      dest: run_script_eq)
qed (use assms in \<open>simp_all add: simple_query_session run_script describe_statement describe_portal\<close>)

lemma handle_query: "conn_holds D Q s \<Longrightarrow> conn_holds D Q (fst (my_handle_query R D P s sql))"
  by (simp add: my_handle_query_session run_script)

end

section \<open>The session of a MySQL connection\<close>

lemma clear_buffers_session: "mc_session (clear_buffers n c) = mc_session c"
  by (simp add: clear_buffers_def split: option.splits)

text \<open>
  What the MySQL server asks of the session it runs for: a property that \<open>handle_query\<close> keeps. A command
  changes the session only by the queries it hands it, so every command keeps it.
\<close>

locale session_property =
  fixes R :: runtime and D :: "'db driver" and P :: "'x sqlparser" and S :: "'db session \<Rightarrow> bool"
  assumes handle: "S s \<Longrightarrow> S (fst (my_handle_query R D P s sql))"
begin

lemma run_one:
  assumes "run_one R D P c sql = (c', a)" "S (mc_session c)"
  shows "S (mc_session c')"
proof -
  obtain s x where q: "my_handle_query R D P (mc_session c) sql = (s, x)"
    by (cases "my_handle_query R D P (mc_session c) sql")
  then have "S s" using handle [OF assms(2), of sql] by simp
  moreover have "mc_session c' = mc_session c \<or> mc_session c' = s"
    using assms(1) q by (auto simp: run_one_def split: sum.splits option.splits prod.splits)
  ultimately show ?thesis using assms(2) by auto
qed

lemma run_all: "S (mc_session c) \<Longrightarrow> S (mc_session (fst (run_all R D P F c last_result sqls)))"
proof (induction sqls arbitrary: c last_result)
  case Nil
  then show ?case by (simp add: replies_def)
next
  case (Cons sql sqls)
  obtain c1 a where one: "run_one R D P c (trim sql) = (c1, a)" by (cases "run_one R D P c (trim sql)")
  from Cons run_one [OF one Cons.prems] one show ?case
    by (auto simp: replies_def fails_def split: statement_answer.splits)
qed

lemma command:
  assumes "run_command R D P F sha1 identity scramble c cmd args = Some (c', ps, f)" "S (mc_session c)"
  shows "S (mc_session c')"
proof -
  have "S (mc_session (fst (com_stmt_execute R D P F c args)))"
    using assms(2) run_one
    by (auto simp: com_stmt_execute_def fails_def replies_def Let_def clear_buffers_session
      split: option.splits sum.splits prod.splits statement_answer.splits)
  moreover have "mc_session c' = mc_session c \<or> com_query R D P F c args = (c', ps, f) \<or> com_stmt_execute R D P F c args = (c', ps, f)"
    using assms(1)
    by (auto simp: run_command_def com_init_db_def com_stmt_prepare_def com_stmt_close_def com_stmt_reset_def
      com_stmt_send_long_data_def com_reset_connection_def com_change_user_def replies_def fails_def Let_def
      clear_buffers_session split: if_split_asm prod.splits option.splits auth_result.splits)
  ultimately show ?thesis
    using assms(2) run_all [OF assms(2), of F None "mysql_split_statements (utf8_lossy R args)"] by (auto simp: com_query_def)
qed

lemma command_on:
  assumes "run_command_on w R D P F sha1 identity scramble c cmd args = Some (c', ps, f)" "S (mc_session c)"
  shows "S (mc_session c')"
  using run_command_on_E [OF assms(1)] command [OF _ assms(2)] by metis

end

interpretation connected: session_property R D P "\<lambda>s. session_ok dialect tr s \<and> ss_conn s \<noteq> None" for R D P dialect tr
  by unfold_locales (use my_handle_query_session run_script_ok run_script_connected in metis)

section \<open>A client keeps its backend connection\<close>

text \<open>
  The same backend connection, after any number of the driver's calls on it. A connection that was
  acquired anew is not one of these, unless the driver itself makes it so.
\<close>

inductive driven :: "'db driver \<Rightarrow> 'db \<Rightarrow> 'db \<Rightarrow> bool" for D c where
  untouched: "driven D c c"
| fetched_all: "driven D c c1 \<Longrightarrow> dv_fetch_all D c1 sql = (c2, r1) \<Longrightarrow> driven D c c2"
| fetched_optional: "driven D c c1 \<Longrightarrow> dv_fetch_optional D c1 sql = (c2, r2) \<Longrightarrow> driven D c c2"
| fetched_one: "driven D c c1 \<Longrightarrow> dv_fetch_one D c1 sql = (c2, r3) \<Longrightarrow> driven D c c2"
| executed_on: "driven D c c1 \<Longrightarrow> dv_execute D c1 sql = (c2, r4) \<Longrightarrow> driven D c c2"

interpretation never: writer D "\<lambda>c. False" for D
  by unfold_locales

interpretation driven: writer D "driven D c" for D c
  by unfold_locales (blast intro: driven.intros)+

text \<open>
  The connection a session has after a step: the one it had, or, when it had none, none or the one it
  acquired, as the driver's calls left it.
\<close>

definition keeps_connection :: "'db driver \<Rightarrow> 'db session \<Rightarrow> 'db session \<Rightarrow> bool" where
  "keeps_connection D s s' \<longleftrightarrow>
     (case ss_conn s of
        Some c \<Rightarrow> \<exists>c'. ss_conn s' = Some c' \<and> driven D c c'
      | None \<Rightarrow> ss_conn s' = None \<or> (\<exists>c c'. dv_acquire D = Inr c \<and> ss_conn s' = Some c' \<and> driven D c c'))"

lemma keeps_connectionI:
  assumes "\<And>c. conn_holds D (driven D c) s \<Longrightarrow> conn_holds D (driven D c) s'"
    "conn_holds D (\<lambda>c. False) s \<Longrightarrow> conn_holds D (\<lambda>c. False) s'"
    "ss_conn s \<noteq> None \<Longrightarrow> ss_conn s' \<noteq> None"
  shows "keeps_connection D s s'"
proof (cases "ss_conn s")
  case None
  show ?thesis
  proof (cases "dv_acquire D")
    case (Inl e)
    with None assms(2) show ?thesis by (auto simp: keeps_connection_def conn_holds_def split: option.splits)
  next
    case (Inr c)
    with assms(1) [of c] None show ?thesis
      by (auto simp: keeps_connection_def conn_holds_def untouched split: option.splits)
  qed
next
  case (Some c)
  with assms(1) [of c] assms(3) show ?thesis
    by (auto simp: keeps_connection_def conn_holds_def untouched split: option.splits)
qed

interpretation driven_session: session_property R D P "conn_holds D (driven D c)" for R D P c
  by unfold_locales (rule driven.handle_query)

interpretation never_session: session_property R D P "conn_holds D (\<lambda>c. False)" for R D P
  by unfold_locales (rule never.handle_query)

text \<open>A MySQL client keeps its backend connection too, whatever its command and whenever it stops reading.\<close>

lemma mysql_command_keeps_connection:
  assumes "run_command_on w R D P F sha1 identity scramble c cmd args = Some (c', ps, f)"
    "session_ok dialect tr (mc_session c)"
  shows "keeps_connection D (mc_session c) (mc_session c')"
  using driven_session.command_on [OF assms(1)] never_session.command_on [OF assms(1)]
    connected.command_on [OF assms(1), of dialect tr] assms(2)
  by (intro keeps_connectionI) blast+

text \<open>
  C8. The state of a PostgreSQL connection, over any sequence of requests, failed ones included: its
  session keeps the dialects and the translator of its listener and a last insert id that is not
  negative. Once it has a backend connection it keeps that one: after the next request, whatever it is
  and whether it fails, the session's connection is the one it had, changed only by the driver's own
  calls on it; a session without a connection has none afterwards or the one it acquired. The last
  insert id can only change by executing a portal or by a query that parses to an \<open>INSERT\<close>, never by a
  Describe.
\<close>

theorem pg_connection_invariant:
  assumes "pg_reachable chk R E known D P h ext"
  shows "session_ok (pg_dialect h) (pg_translator h) (get_session h ext) \<and>
    keeps_connection D (get_session h ext) (session_after chk R E known D P h ext req) \<and>
    (\<not> may_insert P req \<longrightarrow>
       ss_last_insert_id (session_after chk R E known D P h ext req) = ss_last_insert_id (get_session h ext))"
proof -
  note ok = pg_reachable_ok [OF assms]
  have "keeps_connection D (get_session h ext) (session_after chk R E known D P h ext req)"
  proof (rule keeps_connectionI)
    show "conn_holds D (driven D c) (get_session h ext) \<Longrightarrow>
        conn_holds D (driven D c) (session_after chk R E known D P h ext req)" for c
      by (rule driven.session_after)
    show "conn_holds D (\<lambda>c. False) (get_session h ext) \<Longrightarrow>
        conn_holds D (\<lambda>c. False) (session_after chk R E known D P h ext req)"
      by (rule never.session_after)
    show "ss_conn (get_session h ext) \<noteq> None \<Longrightarrow> ss_conn (session_after chk R E known D P h ext req) \<noteq> None"
      using session_after_ok [OF ok, of chk R E known D P req] by blast
  qed
  with ok request_keeps_id [of P req chk R E known D h ext] show ?thesis by blast
qed

theorem pg_connection_invariant_witness:
  "ss_last_insert_id (session_after False sample_runtime sample_encoder (\<lambda>t. True) (sample_driver True) (demo_parser [Use ()])
     (pg_handlers_new Sqlite FrontPostgres None None) None (SimpleQuery ''USE d'')) = 0"
proof -
  let ?h = "pg_handlers_new Sqlite FrontPostgres None None"
  have "\<not> may_insert (demo_parser [Use ()]) (SimpleQuery ''USE d'')"
    by (simp add: inserts_def split_statements_def demo_parser_def)
  with pg_connection_invariant [where P = "demo_parser [Use ()]" and req = "SimpleQuery ''USE d''" and R = sample_runtime and
      E = sample_encoder and D = "sample_driver True" and h = ?h and known = "\<lambda>t. True" and chk = False, OF connected]
  show ?thesis by (simp add: get_session_def new_session_def)
qed

end
