(* ===== verification/Executed.thy ===== *)
theory Executed
  imports Ownership
begin

text \<open>
  What the backend is told to execute. A driver that logs the texts it executes runs under the proxy's
  code unchanged, and the log says which statements of a script were executed, how often and in which
  order.
\<close>

section \<open>A driver that logs\<close>

definition logged :: "'c driver \<Rightarrow> (string list \<times> 'c) driver" where
  "logged D =
     \<lparr>dv_acquire = (case dv_acquire D of Inl e \<Rightarrow> Inl e | Inr c \<Rightarrow> Inr ([], c)),
      dv_fetch_all = (\<lambda>(l, c) sql. case dv_fetch_all D c sql of (c', r) \<Rightarrow> ((l, c'), r)),
      dv_fetch_optional = (\<lambda>(l, c) sql. case dv_fetch_optional D c sql of (c', r) \<Rightarrow> ((l, c'), r)),
      dv_fetch_one = (\<lambda>(l, c) sql. case dv_fetch_one D c sql of (c', r) \<Rightarrow> ((l, c'), r)),
      dv_execute = (\<lambda>(l, c) sql. case dv_execute D c sql of (c', r) \<Rightarrow> ((l @ [sql], c'), r))\<rparr>"

interpretation log: reader "logged D" "\<lambda>c. fst c = l" for D l
  by unfold_locales (auto simp: logged_def split: prod.splits)

text \<open>The texts a session's connection has executed since it was acquired.\<close>

definition executed :: "(string list \<times> 'c) session \<Rightarrow> string list" where
  "executed s = (case ss_conn s of Some c \<Rightarrow> fst c | None \<Rightarrow> [])"

lemma executed_conn [simp]: "executed (s\<lparr>ss_conn := Some c\<rparr>) = fst c"
  by (simp add: executed_def)

lemma logged_holds: "conn_holds (logged D) (\<lambda>c. fst c = l) s \<Longrightarrow> ss_conn s \<noteq> None \<Longrightarrow> executed s = l"
  by (auto simp: conn_holds_def executed_def)

lemma executed_holds: "conn_holds (logged D) (\<lambda>c. fst c = executed s) s"
  by (auto simp: conn_holds_def executed_def logged_def split: option.splits sum.splits)

lemma holds_executed:
  "conn_holds (logged D) (\<lambda>c. fst c = executed s) s' \<Longrightarrow> (ss_conn s \<noteq> None \<Longrightarrow> ss_conn s' \<noteq> None) \<Longrightarrow> executed s' = executed s"
  by (cases "ss_conn s'"; cases "ss_conn s") (auto simp: conn_holds_def executed_def)

lemma execute_logged:
  assumes "execute (logged D) c sql = (c', r)"
  shows "fst c' = fst c @ [sql]"
proof -
  obtain c1 r1 where ex: "dv_execute (logged D) c sql = (c1, r1)" by (cases "dv_execute (logged D) c sql")
  then have "fst c1 = fst c @ [sql]" by (auto simp: logged_def split: prod.splits)
  with assms ex show ?thesis
    by (auto simp: execute_def split: prod.splits sum.splits if_splits dest: log.from_conn log.last_rowid)
qed

section \<open>One statement\<close>

text \<open>What a statement has executed: one text, when it is neither answered here nor a query.\<close>

definition sent_texts :: "'x sqlparser \<Rightarrow> 'db session \<Rightarrow> 'x statement \<Rightarrow> string list" where
  "sent_texts P s stmt =
     (if intercepted P s stmt \<or> returns_rows stmt then []
      else case backend_text P (ss_translator s) stmt of Inl f \<Rightarrow> [] | Inr sql \<Rightarrow> [sql])"

lemma intercepted_same:
  fixes P :: "'x sqlparser"
  assumes "ss_dialect s' = ss_dialect s" "ss_translator s' = ss_translator s"
  shows "intercepted P s' = intercepted P s"
proof -
  have "last_insert_id_outcome P s' stmt = None \<longleftrightarrow> last_insert_id_outcome P s stmt = None" for stmt
    by (auto simp: last_insert_id_outcome_def split: statement.splits set_expr.splits list.splits option.splits)
  moreover have "intercepted_kind s' stmt = intercepted_kind s stmt" for stmt :: "'x statement"
    using assms by (cases "(s, stmt)" rule: intercepted_kind.cases) auto
  ultimately show ?thesis by (simp add: intercepted_def fun_eq_iff)
qed

lemma sent_texts_same:
  assumes "ss_dialect s' = ss_dialect s" "ss_translator s' = ss_translator s"
  shows "sent_texts P s' = sent_texts P s"
  using intercepted_same [OF assms, of P] by (simp add: sent_texts_def fun_eq_iff assms)

lemma track_executes:
  "ss_conn (track_insert_id (logged D) s c stmt lid) \<noteq> None \<and> executed (track_insert_id (logged D) s c stmt lid) = fst c"
proof -
  have "ss_conn (track_insert_id (logged D) s c stmt lid) \<noteq> None"
    by (auto simp: track_insert_id_def split: prod.splits sum.splits option.splits)
  with log.track [of c "fst c"] logged_holds show ?thesis by blast
qed

lemma run_statement_executes:
  assumes "ss_conn s = Some c"
  shows "ss_conn (fst (run_statement R (logged D) P s stmt)) \<noteq> None \<and>
    executed (fst (run_statement R (logged D) P s stmt)) = fst c @ sent_texts P s stmt"
proof -
  have left: "fst c1 = fst c \<and> (intercepted P s stmt \<longleftrightarrow> r \<noteq> Inr None)"
    if "intercept_statement R (logged D) P s c stmt = (c1, r)" for c1 r
    using intercept_decides [of R "logged D" P s c stmt] log.intercept [OF that refl] that by simp
  from assms show ?thesis
  proof (cases rule: run_statement_cases [of s c R "logged D" P stmt])
    case (intercepted c1 r)
    with left [OF intercepted(1)] show ?thesis by (simp add: sent_texts_def)
  next
    case (untranslated c1 f)
    with left [OF untranslated(1)] show ?thesis by (simp add: sent_texts_def)
  next
    case (fetched c1 c2 sent r)
    with left [OF fetched(1)] log.fetch [OF fetched(4) refl] show ?thesis by (simp add: sent_texts_def)
  next
    case (failed c1 c2 sent f)
    with left [OF failed(1)] execute_logged [OF failed(4)] show ?thesis by (simp add: sent_texts_def)
  next
    case (executed c1 c2 sent n lid)
    with left [OF executed(1)] execute_logged [OF executed(4)] track_executes [of D s c2 stmt lid]
    show ?thesis by (simp add: sent_texts_def)
  qed
qed

lemma run_statement_frame:
  "ss_dialect (fst (run_statement R D P s stmt)) = ss_dialect s \<and>
   ss_translator (fst (run_statement R D P s stmt)) = ss_translator s"
proof (cases "ss_conn s")
  case (Some c)
  have "ss_dialect (track_insert_id D s c' stmt lid) = ss_dialect s \<and>
      ss_translator (track_insert_id D s c' stmt lid) = ss_translator s" for c' lid
    by (auto simp: track_insert_id_def split: prod.splits sum.splits option.splits)
  with Some show ?thesis by (cases rule: run_statement_cases [of s c R D P stmt]) simp_all
qed (simp add: run_statement_def)

lemma run_steps_executes:
  assumes "ss_conn s \<noteq> None"
  shows "\<exists>k \<le> length stmts. executed (fst (run_steps (run_statement R (logged D) P) s stmts)) =
      executed s @ concat (map (sent_texts P s) (take k stmts)) \<and>
    (case snd (run_steps (run_statement R (logged D) P) s stmts) of
       Inr outs \<Rightarrow> k = length stmts
     | Inl f \<Rightarrow> 0 < k \<and> (\<exists>s1. run_statement R (logged D) P s1 (stmts ! (k - 1)) =
         (fst (run_steps (run_statement R (logged D) P) s stmts), Inl f)))"
  using assms
proof (induction stmts arbitrary: s)
  case (Cons stmt stmts)
  from Cons.prems obtain c where c: "ss_conn s = Some c" by blast
  obtain s1 r where st: "run_statement R (logged D) P s stmt = (s1, r)" by (cases "run_statement R (logged D) P s stmt")
  note one = run_statement_executes [OF c, of R D P stmt, unfolded st fst_conv]
  have s1: "executed s1 = executed s @ sent_texts P s stmt" using one c by (simp add: executed_def)
  show ?case
  proof (cases r)
    case (Inl f)
    with st s1 show ?thesis by (intro exI [of _ 1]) auto
  next
    case (Inr out)
    have same: "sent_texts P s1 = sent_texts P s" using run_statement_frame [of R "logged D" P s stmt] st by (intro sent_texts_same) simp_all
    from Cons.IH [of s1] one obtain k where k: "k \<le> length stmts"
      "executed (fst (run_steps (run_statement R (logged D) P) s1 stmts)) =
        executed s1 @ concat (map (sent_texts P s1) (take k stmts))"
      "case snd (run_steps (run_statement R (logged D) P) s1 stmts) of
         Inr outs \<Rightarrow> k = length stmts
       | Inl f \<Rightarrow> 0 < k \<and> (\<exists>s2. run_statement R (logged D) P s2 (stmts ! (k - 1)) =
           (fst (run_steps (run_statement R (logged D) P) s1 stmts), Inl f))" by blast
    obtain s2 r2 where rest: "run_steps (run_statement R (logged D) P) s1 stmts = (s2, r2)"
      by (cases "run_steps (run_statement R (logged D) P) s1 stmts")
    show ?thesis
      using k st Inr s1 same rest by (intro exI [of _ "Suc k"]) (auto split: sum.splits simp: nth_Cons')
  qed
qed (simp add: executed_def)

section \<open>Scripts and requests\<close>

lemma connection_executed:
  assumes "connection (logged D) s = (s1, r)"
  shows "executed s1 = executed s \<and> ss_dialect s1 = ss_dialect s \<and> ss_translator s1 = ss_translator s \<and>
    (case r of Inl f \<Rightarrow> s1 = s | Inr c \<Rightarrow> ss_conn s1 = Some c)"
  using assms
  by (auto simp: connection_def acquire_owned_def executed_def logged_def split: option.splits sum.splits)

lemma run_script_executes:
  assumes "split_statements P front sql = Inr stmts" "run_script R (logged D) P s front sql = (s', r)"
  shows "\<exists>k \<le> length stmts. executed s' = executed s @ concat (map (sent_texts P s) (take k stmts)) \<and>
    (case r of
       Inr outs \<Rightarrow> k = length stmts
     | Inl f \<Rightarrow> k = 0 \<and> s' = s \<and> ss_conn s = None \<or>
         0 < k \<and> (\<exists>s1. run_statement R (logged D) P s1 (stmts ! (k - 1)) = (s', Inl f)))"
proof (cases rule: run_script_cases [of P front sql R "logged D" s])
  case (run stmts' s1 conn)
  note c = connection_executed [OF run(3)]
  have "sent_texts P s1 = sent_texts P s" using c by (intro sent_texts_same) simp_all
  moreover have steps: "run_steps (run_statement R (logged D) P) s1 stmts = (s', r)" "ss_conn s1 \<noteq> None" using run assms by simp_all
  obtain k where "k \<le> length stmts" "executed s' = executed s1 @ concat (map (sent_texts P s1) (take k stmts))"
    "case r of Inr outs \<Rightarrow> k = length stmts
     | Inl f \<Rightarrow> 0 < k \<and> (\<exists>s2. run_statement R (logged D) P s2 (stmts ! (k - 1)) = (s', Inl f))"
    using run_steps_executes [OF steps(2), of stmts R D P] unfolding steps(1) fst_conv snd_conv by blast
  ultimately show ?thesis using c by (intro exI [of _ k]) (auto split: sum.splits)
qed (use assms in \<open>auto intro: exI [of _ 0]\<close>)

text \<open>
  C3. Every statement of a script is executed at most once, and in order: what the backend is told to
  execute is, statement by statement, the translation of each statement that is neither a query nor
  answered by the proxy, without repetition, omission or addition. A script that succeeds executed all
  its statements; one that fails executed those up to and including the one that failed and none after it,
  or none at all when no connection could be acquired.
\<close>

theorem script_executes_once:
  assumes "split_statements P front sql = Inr stmts" "run_script R (logged D) P s front sql = (s', r)"
  shows "\<exists>k \<le> length stmts. executed s' = executed s @ concat (map (sent_texts P s) (take k stmts)) \<and>
    (case r of
       Inr outs \<Rightarrow> k = length stmts
     | Inl f \<Rightarrow> k = 0 \<and> s' = s \<and> ss_conn s = None \<or>
         0 < k \<and> (\<exists>s1. run_statement R (logged D) P s1 (stmts ! (k - 1)) = (s', Inl f)))"
  by (rule run_script_executes [OF assms])

theorem script_executes_once_witness:
  "\<exists>s' r k. run_script sample_runtime (logged (sample_driver False)) (demo_parser [Use (), Drop ()])
       (new_session Sqlite (new_translator FrontMysql Sqlite)) FrontMysql ''USE d; DROP TABLE t'' = (s', r) \<and> k \<le> 2 \<and>
     executed s' = concat (take k [[], [''OTHER'']])"
proof -
  let ?P = "demo_parser [Use (), Drop ()]" and ?s = "new_session Sqlite (new_translator FrontMysql Sqlite) :: (string list \<times> nat) session"
  have split: "split_statements ?P FrontMysql ''USE d; DROP TABLE t'' = Inr [Use (), Drop ()]"
    by (simp add: split_statements_def demo_parser_def)
  obtain s' r where run: "run_script sample_runtime (logged (sample_driver False)) ?P ?s FrontMysql ''USE d; DROP TABLE t'' = (s', r)"
    by fastforce
  have "map (sent_texts ?P ?s) [Use (), Drop ()] = [[], [''OTHER'']]" "executed ?s = []" by code_simp+
  with script_executes_once [OF split run] run show ?thesis by (metis append_Nil length_Cons list.size(3) numeral_2_eq_2 take_map)
qed

text \<open>
  What running a text for a PostgreSQL client has executed: nothing when the text does not parse; every
  statement of it when the script succeeds; and when it fails, the statements up to and including the one
  whose failure the script returns, or none when no connection could be acquired.
\<close>

definition script_effect ::
  "runtime \<Rightarrow> 'c driver \<Rightarrow> 'x sqlparser \<Rightarrow> (string list \<times> 'c) session \<Rightarrow> string \<Rightarrow> string list \<Rightarrow> bool" where
  "script_effect R D P s sql new \<longleftrightarrow>
     (case split_statements P FrontPostgres sql of
        Inl f \<Rightarrow> new = []
      | Inr stmts \<Rightarrow>
          (case run_script R (logged D) P s FrontPostgres sql of
             (s', Inr outs) \<Rightarrow> new = concat (map (sent_texts P s) stmts)
           | (s', Inl f) \<Rightarrow> \<exists>k \<le> length stmts. new = concat (map (sent_texts P s) (take k stmts)) \<and>
               (k = 0 \<and> s' = s \<and> ss_conn s = None \<or>
                0 < k \<and> (\<exists>s1. run_statement R (logged D) P s1 (stmts ! (k - 1)) = (s', Inl f)))))"

lemma script_sends:
  "\<exists>new. executed (fst (run_script R (logged D) P s FrontPostgres sql)) = executed s @ new \<and> script_effect R D P s sql new"
proof (cases "split_statements P FrontPostgres sql")
  case (Inl f)
  then show ?thesis by (simp add: run_script_def script_effect_def)
next
  case (Inr stmts)
  obtain s' r where run: "run_script R (logged D) P s FrontPostgres sql = (s', r)" by fastforce
  from run_script_executes [OF Inr run] show ?thesis
    by (cases r) (auto simp: script_effect_def Inr run)
qed

text \<open>
  What executing a portal has executed: its types are resolved, its values written as literals and put in
  the place of its placeholders, and the resulting text is run as a script, in the session that resolving
  the types left; nothing when one of the first three fails.
\<close>

definition portal_effect ::
  "bool \<Rightarrow> runtime \<Rightarrow> (nat \<Rightarrow> bool) \<Rightarrow> 'c driver \<Rightarrow> 'x sqlparser \<Rightarrow> (string list \<times> 'c) session \<Rightarrow> portal \<Rightarrow>
   string list \<Rightarrow> bool" where
  "portal_effect chk R known D P s p new \<longleftrightarrow>
     (case effective_param_types chk known R (logged D) P s p of
        (s1, Inl f) \<Rightarrow> new = []
      | (s1, Inr types) \<Rightarrow>
          (case params_as_literals R p types of
             Inl f \<Rightarrow> new = []
           | Inr literals \<Rightarrow>
               (case substitute_placeholders chk (pt_statement p) literals of
                  Inl f \<Rightarrow> new = []
                | Inr sql \<Rightarrow> script_effect R D P s1 sql new)))"

lemma extended_sends:
  "\<exists>new. executed (fst (pg_extended_query chk R E known (logged D) P h ext p)) = executed (get_session h ext) @ new \<and>
     portal_effect chk R known D P (get_session h ext) p new"
proof -
  obtain s r where st: "statement_types chk known R (logged D) P (get_session h ext) (pt_types p) (pt_statement p) = (s, r)"
    by (cases "statement_types chk known R (logged D) P (get_session h ext) (pt_types p) (pt_statement p)")
  have same: "same_session (get_session h ext) s"
    using statement_types_same [of "get_session h ext" chk known R "logged D" P "pt_types p" "pt_statement p"] st by simp
  have ex: "executed s = executed (get_session h ext)"
    by (rule holds_executed [OF log.statement_types [OF st executed_holds]]) (use same in \<open>simp add: same_session_def\<close>)
  show ?thesis
  proof (cases "\<exists>types literals sql. r = Inr types \<and> params_as_literals R p types = Inr literals \<and>
      substitute_placeholders chk (pt_statement p) literals = Inr sql")
    case True
    then obtain types literals sql where
      q: "r = Inr types" "params_as_literals R p types = Inr literals" "substitute_placeholders chk (pt_statement p) literals = Inr sql"
      by blast
    then have "fst (pg_extended_query chk R E known (logged D) P h ext p) = fst (run_script R (logged D) P s FrontPostgres sql)"
      using st by (auto simp: pg_extended_query_def effective_param_types_def run_bound_def split: prod.splits sum.splits)
    with q script_sends [of R D P s sql] ex st show ?thesis by (auto simp: portal_effect_def effective_param_types_def)
  next
    case False
    then have "fst (pg_extended_query chk R E known (logged D) P h ext p) = s"
      using st by (auto simp: pg_extended_query_def effective_param_types_def split: sum.splits)
    with ex st False show ?thesis by (auto simp: portal_effect_def effective_param_types_def split: sum.splits)
  qed
qed


end
