(* ===== verification/Transactions.thy ===== *)
theory Transactions
  imports Executed
begin

text \<open>
  Transactions on a PostgreSQL backend. The server's part is documented: an error inside a transaction
  block aborts it, and an aborted block refuses every command but those that end it. The proxy's part is
  the probe of \<open>TargetDialect::from_conn\<close>, which \<open>src/backend/mod.rs\<close> runs after every statement it executes
  and every fetch with rows: its first query reads \<open>sqlite_master\<close>, which a PostgreSQL server does not have.
\<close>

section \<open>A server with transaction blocks\<close>

datatype txn = NoTxn | InTxn | AbortedTxn

text \<open>
  One of the driver's calls, \<open>status\<close> being the block a connection is in and \<open>control\<close> the commands that
  begin or end one: an aborted block refuses the others; an error leaves no live block, and in a block it
  leaves an aborted one; outside a block, a command that does not control one opens none.
\<close>

definition aborts_on_error ::
  "('db \<Rightarrow> txn) \<Rightarrow> (string \<Rightarrow> bool) \<Rightarrow> ('db \<Rightarrow> string \<Rightarrow> 'db \<times> (string + 'r)) \<Rightarrow> bool" where
  "aborts_on_error status control call \<longleftrightarrow>
     (\<forall>c sql c' r. call c sql = (c', r) \<longrightarrow>
        (status c = AbortedTxn \<and> \<not> control sql \<longrightarrow> isl r) \<and>
        (isl r \<longrightarrow> status c' \<noteq> InTxn) \<and>
        (isl r \<and> \<not> control sql \<and> status c \<noteq> NoTxn \<longrightarrow> status c' = AbortedTxn) \<and>
        (\<not> control sql \<and> status c = NoTxn \<longrightarrow> status c' = NoTxn))"

locale pg_backend =
  fixes D :: "'db driver" and status :: "'db \<Rightarrow> txn" and control :: "string \<Rightarrow> bool"
  assumes acquire: "dv_acquire D = Inr c \<Longrightarrow> status c = NoTxn"
    and fetch_all_aborts: "aborts_on_error status control (dv_fetch_all D)"
    and fetch_optional_aborts: "aborts_on_error status control (dv_fetch_optional D)"
    and execute_aborts: "aborts_on_error status control (dv_execute D)"
    and no_sqlite_master: "dv_fetch_optional D c ''SELECT count(*) FROM sqlite_master'' = (c', r) \<Longrightarrow> isl r"
    and queries: "starts_with ''SELECT'' sql \<Longrightarrow> \<not> control sql"
begin

lemma probe_status:
  assumes "dv_fetch_optional D c sql = (c', r)" "\<not> control sql" "status c \<noteq> InTxn \<or> isl r"
  shows "status c' = (if status c = NoTxn then NoTxn else AbortedTxn)"
  using assms fetch_optional_aborts unfolding aborts_on_error_def by (cases "status c") (auto; blast)+

lemma from_conn_status:
  assumes "from_conn D c = (c', d)"
  shows "d \<noteq> Sqlite \<and> status c' = (if status c = NoTxn then NoTxn else AbortedTxn)"
proof -
  obtain c1 r where p: "dv_fetch_optional D c ''SELECT count(*) FROM sqlite_master'' = (c1, r)"
    by (cases "dv_fetch_optional D c ''SELECT count(*) FROM sqlite_master''")
  obtain c2 v where q: "dv_fetch_optional D c1 ''SELECT version()'' = (c2, v)"
    by (cases "dv_fetch_optional D c1 ''SELECT version()''")
  from no_sqlite_master [OF p] p q assms have "c' = c2" "d \<noteq> Sqlite"
    by (auto simp: from_conn_def split: sum.splits)
  moreover have "status c1 = (if status c = NoTxn then NoTxn else AbortedTxn)"
    using probe_status [OF p] no_sqlite_master [OF p] queries by (simp add: starts_with_def)
  moreover from this have "status c2 = (if status c1 = NoTxn then NoTxn else AbortedTxn)"
    using probe_status [OF q] queries by (simp add: starts_with_def)
  ultimately show ?thesis by simp
qed

text \<open>An executed statement leaves no live block, whatever it is.\<close>

lemma execute_status:
  assumes "execute D c sql = (c', r)"
  shows "status c' \<noteq> InTxn"
    and "\<not> control sql \<Longrightarrow> status c = AbortedTxn \<Longrightarrow> status c' = AbortedTxn \<and> (\<exists>m. r = Inl (Err (Backend m)))"
    and "\<not> control sql \<Longrightarrow> status c = NoTxn \<Longrightarrow> status c' = NoTxn"
proof -
  obtain c1 q where x: "dv_execute D c sql = (c1, q)" by (cases "dv_execute D c sql")
  obtain c2 d where f: "from_conn D c1 = (c2, d)" by (cases "from_conn D c1")
  note laws = execute_aborts [unfolded aborts_on_error_def, rule_format, OF x]
  from x f assms from_conn_status [OF f]
  have "(isl q \<and> c' = c1 \<and> (\<exists>m. r = Inl (Err (Backend m)))) \<or> (\<not> isl q \<and> c' = c2)"
    by (auto simp: execute_def query_error_def split: sum.splits)
  with laws from_conn_status [OF f]
  show "status c' \<noteq> InTxn"
    and "\<not> control sql \<Longrightarrow> status c = AbortedTxn \<Longrightarrow> status c' = AbortedTxn \<and> (\<exists>m. r = Inl (Err (Backend m)))"
    and "\<not> control sql \<Longrightarrow> status c = NoTxn \<Longrightarrow> status c' = NoTxn"
    by (auto split: if_splits)
qed

lemma fetch_status:
  assumes "fetch D c sql = (c', r)" "\<not> control sql" "status c \<noteq> InTxn"
  shows "status c' = status c \<and> (status c = AbortedTxn \<longrightarrow> (\<exists>m. r = Inl (Err (Backend m))))"
proof -
  obtain c1 q where x: "dv_fetch_all D c sql = (c1, q)" by (cases "dv_fetch_all D c sql")
  obtain c2 d where f: "from_conn D c1 = (c2, d)" by (cases "from_conn D c1")
  note laws = fetch_all_aborts [unfolded aborts_on_error_def, rule_format, OF x]
  from x f assms(1) from_conn_status [OF f]
  have "(isl q \<and> c' = c1 \<and> (\<exists>m. r = Inl (Err (Backend m)))) \<or> (\<not> isl q \<and> (c' = c1 \<or> c' = c2))"
    by (auto simp: fetch_def query_error_def Let_def split: sum.splits list.splits if_splits)
  with laws from_conn_status [OF f] assms(2,3) show ?thesis by (cases "status c") (auto split: if_splits)
qed

lemma intercept_status:
  assumes "intercept_statement R D P s c stmt = (c', r)" "ss_dialect s = Postgres" "status c \<noteq> InTxn"
  shows "status c' = status c"
proof -
  have run: "status c1 = status c" if "fetch D c sql = (c1, q)" "starts_with ''SELECT'' sql" for sql c1 q
    using fetch_status [OF that(1) queries [OF that(2)] assms(3)] by simp
  show ?thesis
    using assms(1,2)
    by (auto simp: intercept_statement_def show_tables_def show_tables_sql_def show_databases_def show_columns_def
        describe_table_def column_listing_def pg_columns_sql_def show_create_table_def pg_ddl_sql_def run_rows_def
        starts_with_def Let_def dest!: run
        split: option.splits statement.splits show_create_object.splits if_splits prod.splits sum.splits)
qed

lemma track_status:
  assumes "ss_dialect s = Postgres" "status c \<noteq> InTxn" "ss_conn (track_insert_id D s c stmt lid) = Some c'"
  shows "status c' = status c"
proof -
  have "status c1 = status c" if "fetch D c ''SELECT lastval()'' = (c1, q)" for c1 q
    using fetch_status [OF that queries assms(2)] by (simp add: starts_with_def)
  with assms(1,3) show ?thesis
    by (auto simp: track_insert_id_def set_last_insert_id_def split: if_splits prod.splits sum.splits option.splits)
qed

end

section \<open>Statements in an aborted block\<close>

text \<open>The block a session's connection is in; a new session has no connection.\<close>

definition block_of :: "('db \<Rightarrow> txn) \<Rightarrow> 'db session \<Rightarrow> txn" where
  "block_of status s = (case ss_conn s of Some c \<Rightarrow> status c | None \<Rightarrow> NoTxn)"

lemma block_of_conn [simp]: "block_of status (s\<lparr>ss_conn := Some c\<rparr>) = status c"
  by (simp add: block_of_def)

text \<open>The statements fetched for their rows are sent as commands that do not control a block.\<close>

definition rows_do_not_control :: "'x sqlparser \<Rightarrow> translator \<Rightarrow> (string \<Rightarrow> bool) \<Rightarrow> bool" where
  "rows_do_not_control P tr control \<longleftrightarrow>
     (\<forall>stmt sent. returns_rows stmt \<and> backend_text P tr stmt = Inr sent \<longrightarrow> \<not> control sent)"

context pg_backend
begin

lemma statement_block:
  assumes "ss_dialect s = Postgres" "rows_do_not_control P (ss_translator s) control" "block_of status s \<noteq> InTxn"
  shows "block_of status (fst (run_statement R D P s stmt)) \<noteq> InTxn"
proof (cases "ss_conn s")
  case None
  with assms(3) show ?thesis by (simp add: run_statement_def)
next
  case (Some c)
  with assms(3) have c: "status c \<noteq> InTxn" by (simp add: block_of_def)
  note i = intercept_status [OF _ assms(1) c]
  show ?thesis
    using Some
  proof (cases rule: run_statement_cases [of s c R D P stmt])
    case (intercepted conn1 r)
    with i [OF this(1)] c show ?thesis by simp
  next
    case (untranslated conn1 f)
    with i [OF this(1)] c show ?thesis by simp
  next
    case (fetched conn1 conn2 sent r)
    with assms(2) have "\<not> control sent" by (auto simp: rows_do_not_control_def)
    with fetched i [OF fetched(1)] c fetch_status [OF fetched(4)] show ?thesis by simp
  next
    case (failed conn1 conn2 sent f)
    with execute_status(1) [OF failed(4)] show ?thesis by simp
  next
    case (executed conn1 conn2 sent n lid)
    have "status conn2 \<noteq> InTxn" by (rule execute_status(1) [OF executed(4)])
    note track = track_status [OF assms(1) this]
    from executed \<open>status conn2 \<noteq> InTxn\<close> show ?thesis
      by (auto simp: block_of_def dest: track split: option.splits)
  qed
qed

lemma steps_block:
  assumes "ready Postgres tr s" "rows_do_not_control P tr control" "block_of status s \<noteq> InTxn"
  shows "block_of status (fst (run_steps (run_statement R D P) s stmts)) \<noteq> InTxn"
  using assms(1,3)
proof (induction stmts arbitrary: s)
  case (Cons stmt stmts)
  obtain s1 r where st: "run_statement R D P s stmt = (s1, r)" by (cases "run_statement R D P s stmt")
  from Cons.prems(1) have d: "ss_dialect s = Postgres" "ss_translator s = tr"
    by (auto simp: ready_def session_ok_def)
  have "block_of status s1 \<noteq> InTxn"
    using statement_block [OF d(1), of P R stmt] d(2) assms(2) Cons.prems(2) st by simp
  moreover have "ready Postgres tr s1" using run_statement_ready [OF Cons.prems(1), of R D P stmt] st by simp
  ultimately show ?case using st Cons.IH [of s1] by (auto split: sum.splits prod.splits)
qed simp

lemma script_block:
  assumes "session_ok Postgres tr s" "rows_do_not_control P tr control" "block_of status s \<noteq> InTxn"
  shows "block_of status (fst (run_script R D P s front sql)) \<noteq> InTxn"
proof (cases rule: run_script_cases [of P front sql R D s])
  case (run stmts s1 conn)
  then have "ready Postgres tr s1" using assms(1) by (simp add: ready_def session_ok_def)
  moreover have "block_of status s1 \<noteq> InTxn"
    using run(3) assms(3) acquire by (auto simp: connection_def acquire_owned_def block_of_def split: option.splits sum.splits)
  ultimately show ?thesis using run(8) steps_block [OF _ assms(2)] by simp
qed (use assms(3) in simp_all)

lemma reachable_block:
  assumes "reachable R D P front Postgres tr s" "rows_do_not_control P tr control"
  shows "block_of status s \<noteq> InTxn"
  using assms(1)
proof (induction rule: reachable.induct)
  case created
  show ?case by (simp add: block_of_def new_session_def)
next
  case (script s sql)
  show ?case by (rule script_block [OF reachable_ok [OF script.hyps] assms(2) script.IH])
qed

text \<open>A statement that reaches the backend in an aborted block.\<close>

lemma not_intercepted_passes:
  "\<not> intercepted P s stmt \<Longrightarrow> snd (intercept_statement R D P s c stmt) = Inr None"
  using intercept_kinds [of P s stmt R D c] by (auto simp: intercepted_def)

lemma aborted_statement:
  assumes "block_of status s = AbortedTxn" "ss_dialect s = Postgres"
    "\<not> intercepted P s stmt"
    "backend_text P (ss_translator s) stmt = Inr sent" "\<not> control sent"
  shows "block_of status (fst (run_statement R D P s stmt)) = AbortedTxn \<and>
    (\<exists>m. snd (run_statement R D P s stmt) = Inl (Err (Backend m)))"
proof -
  from assms(1) obtain c where c: "ss_conn s = Some c" "status c = AbortedTxn"
    by (auto simp: block_of_def split: option.splits)
  note i = intercept_status [OF _ assms(2)]
  show ?thesis
    using c(1)
  proof (cases rule: run_statement_cases [of s c R D P stmt])
    case (fetched conn1 conn2 sent' r)
    with i [OF fetched(1)] c assms(4,5) fetch_status [OF fetched(4)] show ?thesis by auto
  next
    case (failed conn1 conn2 sent' f)
    with i [OF failed(1)] c assms(4,5) execute_status(2) [OF failed(4)] show ?thesis by auto
  next
    case (executed conn1 conn2 sent' n lid)
    with i [OF executed(1)] c assms(4,5) execute_status(2) [OF executed(4)] show ?thesis by auto
  qed (use not_intercepted_passes [OF assms(3), of R c] assms(4) in auto)
qed

text \<open>
  A script that begins a block and goes on in it: the probe after \<open>BEGIN\<close> aborts the block, so the next
  statement fails, unless it is one that controls the block.
\<close>

lemma begin_steps:
  assumes "ready Postgres tr s"
    "backend_text P tr (StartTransaction x) = Inr begin_text"
    "\<And>c c' r. dv_execute D c begin_text = (c', Inr r) \<Longrightarrow> status c' = InTxn"
    "\<not> intercepted P s stmt"
    "backend_text P tr stmt = Inr sent" "\<not> control sent"
  shows "\<exists>m. snd (run_steps (run_statement R D P) s (StartTransaction x # stmt # rest)) = Inl (Err (Backend m))"
proof -
  from assms(1) obtain c where c: "ss_conn s = Some c" and d: "ss_dialect s = Postgres" "ss_translator s = tr"
    by (auto simp: ready_def session_ok_def)
  obtain c1 r where x: "execute D c begin_text = (c1, r)" by (cases "execute D c begin_text")
  have run: "run_statement R D P s (StartTransaction x) =
      (case r of Inl f \<Rightarrow> (s\<lparr>ss_conn := Some c1\<rparr>, Inl f)
       | Inr (n, lid) \<Rightarrow> (s\<lparr>ss_conn := Some c1\<rparr>, Inr (Affected n lid (statement_command_name R
           (StartTransaction x) (hd (split_on CHR '' '' begin_text))))))"
    using c d x assms(2)
    by (auto simp: run_statement_def intercept_statement_def track_insert_id_def last_insert_id_outcome_def split: sum.splits)
  show ?thesis
  proof (cases r)
    case (Inl f)
    with x execute_fails query_error_short run show ?thesis by fastforce
  next
    case (Inr p)
    obtain c0 q where q: "dv_execute D c begin_text = (c0, q)" by (cases "dv_execute D c begin_text")
    obtain c2 t where f: "from_conn D c0 = (c2, t)" by (cases "from_conn D c0")
    from Inr q f x from_conn_status [OF f] assms(3) have "c1 = c2" "status c0 = InTxn"
      by (auto simp: execute_def split: sum.splits if_splits)
    with from_conn_status [OF f] have aborted: "block_of status (s\<lparr>ss_conn := Some c1\<rparr>) = AbortedTxn" by simp
    have "\<exists>m. snd (run_statement R D P (s\<lparr>ss_conn := Some c1\<rparr>) stmt) = Inl (Err (Backend m))"
      using aborted_statement [OF aborted, of P stmt sent R] d assms(4-6) intercepted_same [of "s\<lparr>ss_conn := Some c1\<rparr>" s P] by simp
    with run Inr show ?thesis by (auto split: prod.splits)
  qed
qed

end

section \<open>Any database behind a server with transaction blocks\<close>

text \<open>
  The server's block in front of a driver \<open>D\<close> for the database: it opens, ends, aborts and refuses as
  documented, and its catalog has no \<open>sqlite_master\<close>.
\<close>

definition begins :: "string \<Rightarrow> bool" where
  "begins sql \<longleftrightarrow> starts_with ''BEGIN'' sql \<or> starts_with ''START TRANSACTION'' sql"

definition ends :: "string \<Rightarrow> bool" where
  "ends sql \<longleftrightarrow> (\<exists>w \<in> {''COMMIT'', ''ROLLBACK'', ''END'', ''ABORT''}. starts_with w sql)"

definition in_block :: "('c \<Rightarrow> string \<Rightarrow> 'c \<times> (string + 'r)) \<Rightarrow> txn \<times> 'c \<Rightarrow> string \<Rightarrow> (txn \<times> 'c) \<times> (string + 'r)" where
  "in_block call tc sql =
     (case tc of (t, c) \<Rightarrow>
        if t = AbortedTxn \<and> \<not> ends sql then ((t, c), Inl ''current transaction is aborted'')
        else case call c sql of
          (c', Inl e) \<Rightarrow> ((if t = NoTxn then NoTxn else AbortedTxn, c'), Inl e)
        | (c', Inr r) \<Rightarrow> ((if begins sql then InTxn else if ends sql then NoTxn else t, c'), Inr r))"

definition no_catalog :: "('c \<Rightarrow> string \<Rightarrow> 'c \<times> (string + 'r)) \<Rightarrow> 'c \<Rightarrow> string \<Rightarrow> 'c \<times> (string + 'r)" where
  "no_catalog call c sql =
     (if sql = ''SELECT count(*) FROM sqlite_master'' then (c, Inl ''relation does not exist'') else call c sql)"

definition transactional :: "'c driver \<Rightarrow> (txn \<times> 'c) driver" where
  "transactional D =
     \<lparr>dv_acquire = (case dv_acquire D of Inl e \<Rightarrow> Inl e | Inr c \<Rightarrow> Inr (NoTxn, c)),
      dv_fetch_all = in_block (dv_fetch_all D),
      dv_fetch_optional = in_block (no_catalog (dv_fetch_optional D)),
      dv_fetch_one = in_block (dv_fetch_one D),
      dv_execute = in_block (dv_execute D)\<rparr>"

lemma in_block_aborts: "aborts_on_error fst (\<lambda>sql. begins sql \<or> ends sql) (in_block call)"
  by (auto simp: aborts_on_error_def in_block_def split: if_splits prod.splits sum.splits)

interpretation server: pg_backend "transactional D" fst "\<lambda>sql. begins sql \<or> ends sql" for D
proof unfold_locales
  show "isl r" if "dv_fetch_optional (transactional D) c ''SELECT count(*) FROM sqlite_master'' = (c', r)" for c c' r
    using that by (auto simp: transactional_def in_block_def no_catalog_def split: prod.splits if_splits)
  show "\<not> (begins sql \<or> ends sql)" if "starts_with ''SELECT'' sql" for sql
    using that by (auto simp: starts_with_iff begins_def ends_def)
qed (auto simp: transactional_def in_block_aborts split: sum.splits)

text \<open>A client that begins a block and drops a table in it, on one connection of that server.\<close>

fun print_txn :: "unit statement \<Rightarrow> string" where
  "print_txn (StartTransaction x) = ''BEGIN''"
| "print_txn (Commit x) = ''COMMIT''"
| "print_txn stmt = ''DROP TABLE t''"

definition txn_parser :: "unit sqlparser" where
  "txn_parser = (demo_parser [StartTransaction (), Drop (), Commit ()])\<lparr>show_stmt := print_txn\<rparr>"

definition txn_session :: "(txn \<times> nat) session" where
  "txn_session = new_session Postgres (new_translator FrontPostgres Postgres)"

lemma txn_text: "backend_text txn_parser (new_translator FrontPostgres Postgres) stmt = Inr (print_txn stmt)"
  by (simp add: backend_text_def txn_parser_def new_translator_def front_dialect_matches_target_def)

lemma txn_rows: "rows_do_not_control txn_parser (new_translator FrontPostgres Postgres) (\<lambda>sql. begins sql \<or> ends sql)"
proof -
  have "\<not> (begins (print_txn stmt) \<or> ends (print_txn stmt))" if "returns_rows stmt" for stmt
    using that by (cases stmt) (simp_all add: begins_def ends_def starts_with_def)
  then show ?thesis by (simp add: rows_do_not_control_def txn_text)
qed

section \<open>No transaction survives\<close>

text \<open>
  C12. Sessions on a PostgreSQL backend, after any scripts: the connection is never inside a live
  transaction block, since the dialect probe that follows every executed statement reads a table the server
  does not have and so aborts the block a \<open>BEGIN\<close> has just opened. In the aborted block every statement
  that reaches the server, and does not end the block, fails with a \<open>Backend\<close> error and leaves it aborted.
  The server's own rules are the assumption.
\<close>

theorem postgres_transactions_abort:
  assumes "pg_backend D status control" "rows_do_not_control P tr control"
    "reachable R D P front Postgres tr s"
  shows "block_of status s \<noteq> InTxn \<and>
    (\<forall>stmt sent. block_of status s = AbortedTxn \<and> \<not> intercepted P s stmt \<and>
       backend_text P tr stmt = Inr sent \<and> \<not> control sent \<longrightarrow>
       block_of status (fst (run_statement R D P s stmt)) = AbortedTxn \<and>
       (\<exists>m. snd (run_statement R D P s stmt) = Inl (Err (Backend m))))"
proof -
  have "ss_dialect s = Postgres" "ss_translator s = tr"
    using reachable_ok [OF assms(3)] by (simp_all add: session_ok_def)
  then show ?thesis
    using pg_backend.reachable_block [OF assms(1,3,2)] pg_backend.aborted_statement [OF assms(1), of s P _ _ R] by blast
qed

theorem postgres_transactions_abort_witness:
  "\<exists>s m. s = fst (run_script sample_runtime (transactional (sample_driver False)) txn_parser txn_session FrontPostgres ''BEGIN'') \<and>
     snd (run_statement sample_runtime (transactional (sample_driver False)) txn_parser s (Drop ())) = Inl (Err (Backend m))"
proof -
  let ?D = "transactional (sample_driver False)"
  let ?s = "fst (run_script sample_runtime ?D txn_parser txn_session FrontPostgres ''BEGIN'')"
  have r: "reachable sample_runtime ?D txn_parser FrontPostgres Postgres (new_translator FrontPostgres Postgres) ?s"
    unfolding txn_session_def by (intro reachable.intros)
  have "block_of fst ?s = AbortedTxn" "\<not> intercepted txn_parser ?s (Drop ())" "\<not> (begins ''DROP TABLE t'' \<or> ends ''DROP TABLE t'')"
    by code_simp+
  with postgres_transactions_abort [OF server.pg_backend_axioms txn_rows r] show ?thesis
    by (simp add: txn_text)
qed

text \<open>
  A script of a client of a PostgreSQL backend that begins a transaction and goes on with a statement
  the server has to run fails with a \<open>Backend\<close> error, whatever its other statements are and whether or not
  the session is connected: the transaction the client asked for never runs.
\<close>

theorem begin_script_fails:
  assumes "pg_backend D status control" "session_ok Postgres tr s"
    "split_statements P front sql = Inr (StartTransaction x # stmt # rest)"
    "backend_text P tr (StartTransaction x) = Inr begin_text"
    "\<And>c c' r. dv_execute D c begin_text = (c', Inr r) \<Longrightarrow> status c' = InTxn"
    "\<not> intercepted P s stmt" "backend_text P tr stmt = Inr sent" "\<not> control sent"
  shows "\<exists>m. snd (run_script R D P s front sql) = Inl (Err (Backend m))"
proof (cases rule: run_script_cases [of P front sql R D s])
  case (unconnected f)
  then show ?thesis by (auto simp: acquire_owned_def split: sum.splits)
next
  case (run stmts s1 conn)
  then have "ready Postgres tr s1" using assms(2) by (simp add: ready_def session_ok_def)
  moreover have "\<not> intercepted P s1 stmt" using intercepted_same [of s1 s P] run assms(6) by simp
  moreover have "stmts = StartTransaction x # stmt # rest" using run assms(3) by simp
  ultimately show ?thesis
    using pg_backend.begin_steps [where s = s1 and R = R and rest = rest, OF assms(1) _ assms(4,5) _ assms(7,8)] run by simp
qed (use assms(3) in simp_all)

theorem begin_script_fails_witness:
  "\<exists>m. snd (run_script sample_runtime (transactional (sample_driver False)) txn_parser txn_session FrontPostgres
     ''BEGIN; DROP TABLE t; COMMIT'') = Inl (Err (Backend m))"
proof (rule begin_script_fails [OF server.pg_backend_axioms, where rest = "[Commit ()]" and x = "()" and stmt = "Drop ()"])
  show "session_ok Postgres (new_translator FrontPostgres Postgres) txn_session"
    by (simp add: session_ok_def txn_session_def new_session_def)
  show "split_statements txn_parser FrontPostgres ''BEGIN; DROP TABLE t; COMMIT'' = Inr [StartTransaction (), Drop (), Commit ()]"
    by (simp add: split_statements_def txn_parser_def demo_parser_def)
  show "fst c' = InTxn" if "dv_execute (transactional (sample_driver False)) c ''BEGIN'' = (c', Inr r)" for c c' r
    using that by (auto simp: transactional_def in_block_def begins_def starts_with_def split: prod.splits if_splits sum.splits)
  show "\<not> intercepted txn_parser txn_session (Drop ())" "\<not> (begins ''DROP TABLE t'' \<or> ends ''DROP TABLE t'')"
    by code_simp+
qed (simp_all add: txn_text)

end
