(* ===== verification/Credentials.thy ===== *)
theory Credentials
  imports Configuration Pg_Server Mysql_Connection
begin

text \<open>
  Who is served: from the credentials of a listener in the configuration, through the handler \<open>main\<close> makes
  for it (\<open>src/main.rs\<close>), to the check of a login, \<open>TokenAuth::get_password\<close> of \<open>src/server/pg.rs\<close> under the
  wire crate's comparison and the identity provider \<open>serve\<close> of \<open>src/server/mysql.rs\<close> installs, under the
  vendored server's handshake.
\<close>

section \<open>The handlers of a listener\<close>

definition pg_handlers_of :: "('a, 'p) task \<Rightarrow> pg_handlers" where
  "pg_handlers_of t =
     pg_handlers_new (tr_target (tk_translator t)) (tr_front (tk_translator t)) (tk_username t) (tk_password t)"

definition my_handler_of :: "('a, 'p) task \<Rightarrow> my_handler" where
  "my_handler_of t =
     my_handler_new (tr_target (tk_translator t)) (tr_front (tk_translator t)) (tk_username t) (tk_password t)"

section \<open>What a listener asks for\<close>

text \<open>The password of a listener that configures none is the empty one.\<close>

definition configured_password :: "listener \<Rightarrow> string" where
  "configured_password l = (case l_password l of Some p \<Rightarrow> p | None \<Rightarrow> [])"

text \<open>A cleartext login to a PostgreSQL listener: the right user, if it names one, and the right password.\<close>

definition pg_credentials :: "listener \<Rightarrow> string option \<Rightarrow> string \<Rightarrow> bool" where
  "pg_credentials l user password \<longleftrightarrow>
     (l_username l = None \<or> user = l_username l) \<and> password = configured_password l"

text \<open>
  A login to a MySQL listener: its user and the response that the user's password determines for the
  greeting's scramble; a listener without a user asks for nothing.
\<close>

definition mysql_credentials :: "hash \<Rightarrow> bytes \<Rightarrow> listener \<Rightarrow> string \<Rightarrow> bytes \<Rightarrow> bool" where
  "mysql_credentials sha1 scramble l name response \<longleftrightarrow>
     (case l_username l of
        None \<Rightarrow> True
      | Some u \<Rightarrow> name = u \<and> response = compute_auth_response sha1 (utf8 (configured_password l)) scramble)"

text \<open>
  The name and the response of a client that keeps to the protocol and takes what it is sent: those of its
  handshake, or the response to the switch of plugins.
\<close>

definition login_given :: "sink \<Rightarrow> runtime \<Rightarrow> bytes \<Rightarrow> bytes \<Rightarrow> string \<Rightarrow> bytes \<Rightarrow> bool" where
  "login_given w R scramble stream name response \<longleftrightarrow>
     0 < sk_takes w \<and>
     (\<exists>p rest hs out seq w1 rest1. read_packet stream = Inr (p, rest) \<and>
        parse_handshake_response R (pk_payload p) = Inr hs \<and> hr_username hs = name \<and>
        auth_exchange (after_packets 1 w) scramble (pk_sequence_id p + 1) hs rest = (out, Inr (response, seq, w1, rest1)) \<and>
        0 < sk_takes w1)"

lemma check_login_iff:
  "check_login sha1 identity scramble name response = AuthSuccess \<longleftrightarrow>
     (\<forall>u p. identity = Some (u, p) \<longrightarrow> name = u \<and> response = compute_auth_response sha1 (utf8 p) scramble)"
  by (auto simp: check_login_def get_user_def authenticate_def verify_auth_response_def split: option.splits)

lemma connection_phase_iff:
  "(\<exists>c' out w' rest'. connection_phase w R sha1 identity scramble c stream = (c', out, Inr (w', rest'))) \<longleftrightarrow>
   (\<exists>name response. login_given w R scramble stream name response \<and>
      check_login sha1 identity scramble name response = AuthSuccess)"
  by (cases "read_packet stream")
    (auto simp: connection_phase_def login_given_def Let_def split: sum.splits prod.splits auth_result.splits if_splits)

lemma identity_of:
  assumes "tk_username t = l_username l" "tk_password t = l_password l"
  shows "my_identity (my_handler_of t) = map_option (\<lambda>u. (u, configured_password l)) (l_username l)"
  using assms by (simp add: my_handler_of_def my_handler_new_def my_identity_def configured_password_def split: option.split)

lemma check_login_credentials:
  assumes "tk_username t = l_username l" "tk_password t = l_password l"
  shows "check_login sha1 (my_identity (my_handler_of t)) scramble name response = AuthSuccess \<longleftrightarrow>
    mysql_credentials sha1 scramble l name response"
  by (auto simp: check_login_iff identity_of [OF assms] mysql_credentials_def split: option.split)

text \<open>
  C6. Who is served, listener by listener of the configuration. The task started for a listener of protocol
  \<open>postgres\<close> is a PostgreSQL handler, and a cleartext login is admitted, by a wire crate that compares the
  password sent with the one \<open>get_password\<close> gives, exactly when it has the listener's user, if the listener
  names one, and the listener's password, the empty one if it has none. The task of a \<open>mysql\<close> listener is a
  MySQL server, and a handshake, of a client that answers the greeting and takes what it is sent, succeeds
  exactly when it gives the listener's user and the response the listener's password determines; with no user
  configured every such handshake succeeds, whatever password is configured.
\<close>

theorem served_with_credentials:
  assumes "start_listener parse_addr pool_connect l = Inr t" "\<And>r password. admits r password \<longleftrightarrow> r = Inr password"
  shows "if l_protocol l = ''postgres''
    then tk_handler t = PgHandler \<and>
      (admits (get_password (pg_auth (pg_handlers_of t)) user) password \<longleftrightarrow> pg_credentials l user password)
    else l_protocol l = ''mysql'' \<and> tk_handler t = MySqlServer \<and>
      ((\<exists>c' out w' rest. connection_phase w R sha1 (my_identity (my_handler_of t)) scramble c stream = (c', out, Inr (w', rest)))
       \<longleftrightarrow> (\<exists>name response. login_given w R scramble stream name response \<and>
             mysql_credentials sha1 scramble l name response))"
proof -
  note agrees = start_listener_agrees [OF assms(1), unfolded handler_agrees_def]
  show ?thesis
  proof (cases "l_protocol l = ''postgres''")
    case True
    with agrees assms(2) show ?thesis
      by (auto simp: pg_handlers_of_def pg_handlers_new_def get_password_def pg_credentials_def configured_password_def
        split: option.splits)
  next
    case False
    with agrees have "tk_handler t = MySqlServer" by (cases "tk_handler t") auto
    with False agrees show ?thesis
      by (simp add: connection_phase_iff check_login_credentials)
  qed
qed

definition sample_pg_task :: "(string, 32 word) task" where
  "sample_pg_task = \<lparr>tk_handler = PgHandler, tk_addr = ''a'', tk_pool = 128, tk_translator = new_translator FrontPostgres Sqlite,
     tk_username = Some ''u'', tk_password = Some ''p''\<rparr>"

theorem served_with_credentials_witness:
  "get_password (pg_auth (pg_handlers_of sample_pg_task)) (Some ''u'') = Inr ''p'' \<and>
   get_password (pg_auth (pg_handlers_of sample_pg_task)) (Some ''v'') \<noteq> Inr ''p''"
proof -
  let ?l = "\<lparr>l_protocol = ''postgres'', l_addr = ''a'', l_backend = ''sqlite:x'', l_username = Some ''u'',
       l_password = Some ''p'', l_sqlite_busy_timeout_ms = None, l_max_connections = 128\<rparr>"
  have "start_listener (\<lambda>a. Inr a) (\<lambda>u n. Inr n) ?l = Inr sample_pg_task"
    by (simp add: start_listener_def backend_connect_def from_backend_url_def Let_def sample_pg_task_def)
  note served = served_with_credentials [OF this, of "\<lambda>r password. r = Inr password"]
  from served [of "Some ''u''" "''p''"] served [of "Some ''v''" "''p''"]
  show ?thesis by (simp add: pg_credentials_def configured_password_def)
qed

section \<open>A client without the credentials\<close>

text \<open>
  \<open>handle_connection\<close> of the vendored \<open>server.rs\<close>: a session of the listener's handler, the server's
  variables and the next connection id make a connection, which is run to its end. \<open>os\<close> and \<open>arch\<close> are
  what two of the variables name.
\<close>

definition new_mysql_connection :: "my_handler \<Rightarrow> string \<Rightarrow> string \<Rightarrow> 32 word \<Rightarrow> 'db my_connection" where
  "new_mysql_connection h os arch n = my_connection_new (create_session h) (default_globals os arch) n"

definition handle_connection ::
  "sink \<Rightarrow> runtime \<Rightarrow> 'db driver \<Rightarrow> 'x sqlparser \<Rightarrow> float_parser \<Rightarrow> hash \<Rightarrow> my_handler \<Rightarrow> string \<Rightarrow> string \<Rightarrow> 32 word \<Rightarrow>
   bytes \<Rightarrow> bytes \<Rightarrow> 'db my_connection \<times> bytes \<times> ending" where
  "handle_connection w R D P F sha1 h os arch n scramble stream =
     my_run w R D P F sha1 (my_identity h) scramble (new_mysql_connection h os arch n) stream"

lemma default_globals_ok: "variables_ok \<lparr>sv_globals = default_globals os arch, sv_overrides = []\<rparr>"
proof -
  have "variables_ok \<lparr>sv_globals = default_globals [] [], sv_overrides = []\<rparr>" by code_simp
  moreover have "map fst (default_globals os arch) = map fst (default_globals [] [])" by (simp add: default_globals_def)
  moreover have "list_all (\<lambda>(k, v). to_lowercase k = k) m \<longleftrightarrow> list_all (\<lambda>k. to_lowercase k = k) (map fst m)" for m :: var_map
    by (simp add: list_all_iff split_beta)
  ultimately show ?thesis by (simp add: variables_ok_def)
qed

text \<open>A new connection is in order, so what holds of the commands of a connection holds from its start.\<close>

lemma new_mysql_connection_ok:
  "my_connection_ok (mh_dialect h) (mh_translator h) (new_mysql_connection h os arch n) \<and>
   fresh_connection (new_mysql_connection h os arch n)"
  using default_globals_ok [of os arch]
  by (simp add: new_mysql_connection_def session_ok_def new_session_def my_connection_ok_def my_connection_new_def
    create_session_def deprecates_eof_def fresh_connection_def)

text \<open>
  C5. A stranger reaches nothing. Whatever a client of a MySQL listener sends, over the whole of its
  connection and whenever it stops taking what it is sent: if it never gave the credentials the
  configuration asks for, no backend connection was acquired for it, no statement of it was run or
  prepared, and its session is at the end the one it was made with.
\<close>

theorem strangers_reach_nothing:
  fixes c' :: "'db my_connection"
  assumes "start_listener parse_addr pool_connect l = Inr t" "l_protocol l = ''mysql''"
    "\<And>name response. login_given w R scramble stream name response \<Longrightarrow> \<not> mysql_credentials sha1 scramble l name response"
    "handle_connection w R D P F sha1 (my_handler_of t) os arch n scramble stream = (c', out, e)"
  shows "mc_session c' = create_session (my_handler_of t) \<and> ss_conn (mc_session c') = None \<and>
    mc_prepared_stmts c' = Map.empty"
proof -
  let ?c = "new_mysql_connection (my_handler_of t) os arch n :: 'db my_connection"
  let ?phase = "connection_phase w R sha1 (my_identity (my_handler_of t)) scramble ?c stream"
  note agrees = start_listener_agrees [OF assms(1), unfolded handler_agrees_def]
  obtain c1 out1 r where login: "?phase = (c1, out1, r)" by (metis prod_cases3)
  have "\<not> (\<exists>c' out w' rest. ?phase = (c', out, Inr (w', rest)))"
    using assms(3) agrees by (simp add: connection_phase_iff check_login_credentials [where l = l])
  with login obtain f where f: "r = Inl f" by (cases r) auto
  with login assms(4) have "c' = c1" by (simp add: handle_connection_def my_run_def)
  moreover have "c1 = ?c \<or> (\<exists>hs. c1 = record_handshake hs ?c)"
    using connection_phase_records [of w R sha1 "my_identity (my_handler_of t)" scramble ?c stream] login by simp
  ultimately show ?thesis
    by (auto simp: record_handshake_def new_mysql_connection_def my_connection_new_def create_session_def new_session_def)
qed

theorem strangers_reach_nothing_witness:
  "mc_prepared_stmts (fst (handle_connection sample_sink sample_runtime (sample_driver True) (demo_parser []) no_floats sample_hash
     (my_handler_of \<lparr>tk_handler = MySqlServer, tk_addr = ''a'', tk_pool = 128 :: 32 word, tk_translator = new_translator FrontMysql Sqlite,
      tk_username = Some ''u'', tk_password = Some ''p''\<rparr>) ''linux'' ''x86_64'' 1 sample_scramble [])) = Map.empty"
proof -
  let ?l = "\<lparr>l_protocol = ''mysql'', l_addr = ''a'', l_backend = ''sqlite:x'', l_username = Some ''u'',
       l_password = Some ''p'', l_sqlite_busy_timeout_ms = None, l_max_connections = 128\<rparr>"
  let ?t = "\<lparr>tk_handler = MySqlServer, tk_addr = ''a'', tk_pool = 128 :: 32 word, tk_translator = new_translator FrontMysql Sqlite,
       tk_username = Some ''u'', tk_password = Some ''p''\<rparr>"
  have start: "start_listener (\<lambda>a. Inr a) (\<lambda>u n. Inr n) ?l = Inr ?t"
    by (simp add: start_listener_def backend_connect_def from_backend_url_def Let_def)
  have silent: "\<not> login_given sample_sink sample_runtime sample_scramble [] name response" for name response
    by (simp add: login_given_def read_packet_def read_exact_def)
  obtain c' out e where "handle_connection sample_sink sample_runtime (sample_driver True) (demo_parser []) no_floats sample_hash
     (my_handler_of ?t) ''linux'' ''x86_64'' 1 sample_scramble [] = (c', out, e)" by (metis prod_cases3)
  with strangers_reach_nothing [OF start _ _ this] silent show ?thesis by simp
qed

end
