(* ===== verification/Unit_Tests.thy ===== *)
theory Unit_Tests
  imports Translate Mysql_Builtins
begin

text \<open>
  The repository's unit tests, run on the definitions: those of \<open>src/translate/tests.rs\<close> and of the vendored
  \<open>prepared.rs\<close>, \<open>variables.rs\<close> and \<open>connection.rs\<close> that need neither the parser crate nor a connection. Each
  lemma has the name of its test.
\<close>

section \<open>Translation\<close>

lemma same_dialect_is_passthrough:
  "translate P (new_translator FrontMysql Mysql) ''SELECT `a` FROM `t` LIMIT 2'' = Inr ''SELECT `a` FROM `t` LIMIT 2''"
  by (simp add: translate_def new_translator_def front_dialect_matches_target_def)

lemma fix_quoting_backticks_to_double_quotes:
  "fix_quoting (''SELECT `we'' @ [dquote] @ ''ird` FROM t'') Sqlite =
     Inr (''SELECT '' @ [dquote] @ ''we'' @ [dquote, dquote] @ ''ird'' @ [dquote] @ '' FROM t'')"
  by code_simp

lemma string_literals_untouched_by_quoting_fix:
  "fix_quoting (''SELECT '' @ [squote] @ ''it'' @ [squote, squote] @ ''s'' @ [squote] @ '' FROM t'') Mysql =
     Inr (''SELECT '' @ [squote] @ ''it'' @ [squote, squote] @ ''s'' @ [squote] @ '' FROM t'')"
  by code_simp

lemma dialect_detection_from_urls:
  "from_backend_url ''postgres://u:p@h/db'' = Inr Postgres"
  "from_backend_url ''mysql://h/db'' = Inr Mysql"
  "from_backend_url ''sqlite://file.db'' = Inr Sqlite"
  "isl (from_backend_url ''oracle://h'')"
  by code_simp+

lemma mysql_limit_offset_comma:
  "normalize_limit (OffsetCommaLimit (ValueExpr (Number ''5'' False)) (ValueExpr (Number ''10'' False))) Sqlite =
     LimitOffset (Some (ValueExpr (Number ''10'' False))) [] (Some \<lparr>off_value = ValueExpr (Number ''5'' False), off_rows = None\<rparr>)"
  by simp

lemma pg_ilike_lowered:
  "post_visit_expr P Sqlite (ILike False False a b None) = Like False False (lower_expr a) (lower_expr b) None"
  "post_visit_expr P Mysql (ILike False False a b None) = Like False False (lower_expr a) (lower_expr b) None"
  by simp_all

lemma concat_operator_becomes_concat_fn_on_mysql:
  "post_visit_expr P Mysql (BinaryOp a StringConcat b) = fn_call ''CONCAT'' [a, b]"
  "post_visit_expr P Sqlite (BinaryOp a StringConcat b) = BinaryOp a StringConcat b"
  by simp_all

section \<open>Placeholders\<close>

lemma substitute_pg_numbered_params:
  "substitute_placeholders chk ''INSERT INTO t VALUES ($1, $2)'' [[squote] @ ''x'' @ [squote], ''7''] =
     Inr (''INSERT INTO t VALUES ('' @ [squote] @ ''x'' @ [squote] @ '', 7)'')"
proof -
  have "show_nat 1 = ''1''" "show_nat 2 = ''2''" by code_simp+
  with parse_usize_show_nat [of 1] parse_usize_show_nat [of 2] have "placeholder_number ''1'' = 1" "placeholder_number ''2'' = 2"
    by (simp_all add: placeholder_number_def)
  then show ?thesis
    by (simp add: substitute_placeholders_def substitute_from.simps(2) numbered_literal_def usize_pred_def literal_at_def
      is_ascii_digit_def)
qed

lemma substitute_mysql_question_marks:
  "substitute_placeholders chk ''SELECT * FROM t WHERE a = ? AND b = ?'' [''NULL'', [squote] @ ''y'' @ [squote, squote] @ ''s'' @ [squote]] =
     Inr (''SELECT * FROM t WHERE a = NULL AND b = '' @ [squote] @ ''y'' @ [squote, squote] @ ''s'' @ [squote])"
  by (cases chk) code_simp+

lemma substitute_skips_string_literals:
  "substitute_placeholders chk (''SELECT '' @ [squote] @ ''?'' @ [squote] @ '' , ?'') [''9''] =
     Inr (''SELECT '' @ [squote] @ ''?'' @ [squote] @ '' , 9'')"
  by (cases chk) code_simp+

lemma substitute_missing_param_errors: "\<exists>m. substitute_placeholders chk ''SELECT ?'' [] = Inl (Err m)"
proof -
  have "case substitute_placeholders chk ''SELECT ?'' [] of Inl (Err m) \<Rightarrow> True | _ \<Rightarrow> False"
    by (cases chk) code_simp+
  then show ?thesis by (auto split: sum.splits fault.splits)
qed

section \<open>Prepared statements of the vendored server\<close>

lemma prepared_statement_num_params:
  "ps_num_params (prepared_new 1 ''SELECT ? FROM t WHERE id = ?'') = 2"
  "ps_num_params (prepared_new 1 ''SELECT 1'') = 0"
  "ps_num_params (prepared_new 1 (''SELECT '' @ [squote] @ ''?'' @ [squote] @ '' FROM t WHERE id = ?'')) = 1"
  by code_simp+

lemma interpolate_params:
  "interpolate (prepared_new 1 ''SELECT ? FROM t WHERE id = ?'') [Some ''hello'', Some ''42''] =
     Inr (''SELECT '' @ [squote] @ ''hello'' @ [squote] @ '' FROM t WHERE id = '' @ [squote] @ ''42'' @ [squote])"
  "interpolate (prepared_new 1 ''SELECT ? FROM t'') [None] = Inr ''SELECT NULL FROM t''"
  by code_simp+

section \<open>Variables and texts of the vendored server\<close>

definition fresh_variables :: variables where
  "fresh_variables = \<lparr>sv_globals = default_globals ''linux'' ''x86_64'', sv_overrides = []\<rparr>"

lemma global_defaults_and_case:
  "var_get fresh_variables ''version'' = Some (SvString ''8.0.0-mysql-mimic'')"
  "var_get fresh_variables ''character_set_client'' = Some (SvString ''utf8mb4'')"
  "var_get fresh_variables ''SQL_MODE'' = var_get fresh_variables ''sql_mode''"
  by code_simp+

lemma session_overrides:
  "var_get fresh_variables ''sql_mode'' = Some (SvString ''ANSI'')"
  "var_get (var_set ''sql_mode'' (SvString ''TRADITIONAL'') fresh_variables) ''sql_mode'' = Some (SvString ''TRADITIONAL'')"
  "var_get (reset_all (var_set ''sql_mode'' (SvString ''TRADITIONAL'') fresh_variables)) ''sql_mode'' = Some (SvString ''ANSI'')"
  by code_simp+

lemma split_statements_of_a_text:
  "mysql_split_statements ''SELECT 1; SELECT 2; SELECT 3'' = [''SELECT 1'', ''SELECT 2'', ''SELECT 3'']"
  "mysql_split_statements (''SELECT '' @ [squote] @ '';'' @ [squote] @ '' FROM t; SELECT 2'') =
     [''SELECT '' @ [squote] @ '';'' @ [squote] @ '' FROM t'', ''SELECT 2'']"
  by code_simp+

lemma like_patterns:
  "extract_like_pattern sample_runtime (''SHOW VARIABLES LIKE '' @ [squote] @ ''version%'' @ [squote]) = Inr (Some ''version%'')"
  "like_match ''version%'' ''version_comment''" "like_match ''version%'' ''version''" "\<not> like_match ''version%'' ''sql_mode''"
  "like_match ''%timeout'' ''wait_timeout''" "like_match ''_ersion'' ''version''"
  by code_simp+

lemma set_values:
  "parse_set_value fresh_variables ''42'' = Inr (SvInt 42)"
  "parse_set_value fresh_variables ([squote] @ ''hello'' @ [squote]) = Inr (SvString ''hello'')"
  "parse_set_value fresh_variables ''ON'' = Inr (SvBool True)" "parse_set_value fresh_variables ''OFF'' = Inr (SvBool False)"
  "parse_set_value fresh_variables ''NULL'' = Inr SvNull" "parse_set_value fresh_variables ''DEFAULT'' = Inr SvNull"
  by code_simp+

end
